theory Spec2Isabelle
  imports Main "HOL-Library.AList"
begin

section \<open>Python strings and values\<close>

text \<open>
  Strings are lists of 8-bit characters, read as ASCII text; the string methods below are
  the behaviour on ASCII strings of Python's \<^verbatim>\<open>str.upper\<close>,
  \<^verbatim>\<open>str.strip\<close>, \<^verbatim>\<open>str.split\<close> and of the built-in
  conversions \<^verbatim>\<open>int\<close> and \<^verbatim>\<open>float\<close>. (The codes from 0x80 on stand
  for no character of a Python string; the functions leave them alone.)
\<close>

datatype exc =
    IndexError
  | ValueError
  | TypeError
  | PairingError string
  | PairingTimeoutError string
  | PairingCancelledError string
  | HomeAssistantError string

text \<open>
  The values a parsed event holds. A float is kept as the literal it was converted from
  (no property below depends on its numeric value); \<open>VExc e\<close> stands for the text
  \<^verbatim>\<open>str(e)\<close> of a caught exception; \<open>VDict\<close> is a nested dict, in insertion
  order.
\<close>

datatype pyval =
    VNone
  | VStr string
  | VInt int
  | VFloat string
  | VList "string list"
  | VDict "(string \<times> pyval) list"
  | VExc exc

type_synonym pydict = "string \<rightharpoonup> pyval"

definition upper_char :: "char \<Rightarrow> char" where
  "upper_char c =
     (case map_of (zip ''abcdefghijklmnopqrstuvwxyz'' ''ABCDEFGHIJKLMNOPQRSTUVWXYZ'') c of
        Some u \<Rightarrow> u
      | None \<Rightarrow> c)"

definition upper :: "string \<Rightarrow> string" where
  "upper s = map upper_char s"

definition lower_char :: "char \<Rightarrow> char" where
  "lower_char c =
     (case map_of (zip ''ABCDEFGHIJKLMNOPQRSTUVWXYZ'' ''abcdefghijklmnopqrstuvwxyz'') c of
        Some u \<Rightarrow> u
      | None \<Rightarrow> c)"

text \<open>
  The white space of \<^verbatim>\<open>str.strip\<close> (\<^verbatim>\<open>str.isspace\<close>): the six characters of
  C's \<^verbatim>\<open>isspace\<close> and the four separators 0x1C to 0x1F.
\<close>

definition is_space :: "char \<Rightarrow> bool" where
  "is_space c \<longleftrightarrow>
     c \<in> set [CHR 0x09, CHR 0x0A, CHR 0x0B, CHR 0x0C, CHR 0x0D,
               CHR 0x1C, CHR 0x1D, CHR 0x1E, CHR 0x1F, CHR 0x20]"

definition strip :: "string \<Rightarrow> string" where
  "strip s = rev (dropWhile is_space (rev (dropWhile is_space s)))"

text \<open>\<^verbatim>\<open>s.split(c)\<close> for a one-character separator: never the empty list.\<close>

fun split_on :: "char \<Rightarrow> string \<Rightarrow> string list" where
  "split_on c [] = [[]]"
| "split_on c (x # xs) =
     (if x = c then [] # split_on c xs
      else (case split_on c xs of
              [] \<Rightarrow> [[x]]
            | w # ws \<Rightarrow> (x # w) # ws))"

text \<open>\<^verbatim>\<open>s.split(c, 1)\<close>: at most one split, at the first separator.\<close>

definition split_once :: "char \<Rightarrow> string \<Rightarrow> string list" where
  "split_once c s =
     (if c \<in> set s then [takeWhile (\<lambda>x. x \<noteq> c) s, tl (dropWhile (\<lambda>x. x \<noteq> c) s)]
      else [s])"

definition is_digit :: "char \<Rightarrow> bool" where
  "is_digit c \<longleftrightarrow> c \<in> set ''0123456789''"

definition digit_val :: "char \<Rightarrow> int" where
  "digit_val c =
     (case map_of (zip ''0123456789'' [0, 1, 2, 3, 4, 5, 6, 7, 8, 9]) c of
        Some v \<Rightarrow> v
      | None \<Rightarrow> 0)"

text \<open>The grammar \<^verbatim>\<open>digit (["_"] digit)*\<close> shared by \<^verbatim>\<open>int\<close> and \<^verbatim>\<open>float\<close>.\<close>

fun digitpart :: "string \<Rightarrow> bool" where
  "digitpart [] = False"
| "digitpart [c] = is_digit c"
| "digitpart (c # d # cs) =
     (is_digit c \<and> (if d = CHR ''_'' then digitpart cs else digitpart (d # cs)))"

definition digits_value :: "string \<Rightarrow> int" where
  "digits_value s = foldl (\<lambda>a c. 10 * a + digit_val c) 0 (filter is_digit s)"

definition drop_sign :: "string \<Rightarrow> string" where
  "drop_sign s =
     (case s of
        [] \<Rightarrow> []
      | c # cs \<Rightarrow> if c = CHR ''+'' \<or> c = CHR ''-'' then cs else s)"

text \<open>
  The white space \<^verbatim>\<open>int\<close> and \<^verbatim>\<open>float\<close> skip at both ends of the string
  (\<^verbatim>\<open>Py_ISSPACE\<close>, C's \<^verbatim>\<open>isspace\<close>): tab, line feed, vertical tab, form feed,
  carriage return and space. The separators 0x1C to 0x1F, which \<^verbatim>\<open>str.strip\<close>
  removes, are not among them: \<^verbatim>\<open>int\<close> of the character 0x1C followed by
  \<open>5\<close> raises ValueError.
\<close>

definition is_c_space :: "char \<Rightarrow> bool" where
  "is_c_space c \<longleftrightarrow>
     c \<in> set [CHR 0x09, CHR 0x0A, CHR 0x0B, CHR 0x0C, CHR 0x0D, CHR 0x20]"

definition c_strip :: "string \<Rightarrow> string" where
  "c_strip s = rev (dropWhile is_c_space (rev (dropWhile is_c_space s)))"

text \<open>
  \<^verbatim>\<open>sys.get_int_max_str_digits()\<close> as the interpreter sets it at start: a decimal
  string with more digits than this is refused by \<^verbatim>\<open>int\<close> with ValueError
  (underscores and the sign are not counted, leading zeros are).
\<close>

definition MAX_STR_DIGITS :: nat where
  "MAX_STR_DIGITS = 4300"

text \<open>\<^verbatim>\<open>int(s)\<close> in base 10; \<open>None\<close> where Python raises ValueError.\<close>

definition py_int :: "string \<Rightarrow> int option" where
  "py_int s =
     (let t = c_strip s; body = drop_sign t
      in if digitpart body \<and> length (filter is_digit body) \<le> MAX_STR_DIGITS
         then Some (if take 1 t = ''-'' then - digits_value body else digits_value body)
         else None)"

definition number_lit :: "string \<Rightarrow> bool" where
  "number_lit s =
     (if CHR ''.'' \<in> set s
      then (let a = takeWhile (\<lambda>x. x \<noteq> CHR ''.'') s;
                b = tl (dropWhile (\<lambda>x. x \<noteq> CHR ''.'') s)
            in (a = [] \<and> digitpart b) \<or> (digitpart a \<and> (b = [] \<or> digitpart b)))
      else digitpart s)"

definition is_e :: "char \<Rightarrow> bool" where
  "is_e c \<longleftrightarrow> c = CHR ''e'' \<or> c = CHR ''E''"

definition float_lit :: "string \<Rightarrow> bool" where
  "float_lit s =
     (let body = drop_sign s; low = map lower_char body
      in if low = ''inf'' \<or> low = ''infinity'' \<or> low = ''nan'' then True
         else if \<exists>c \<in> set body. is_e c
         then number_lit (takeWhile (\<lambda>x. \<not> is_e x) body) \<and>
              digitpart (drop_sign (tl (dropWhile (\<lambda>x. \<not> is_e x) body)))
         else number_lit body)"

text \<open>
  \<^verbatim>\<open>float(s)\<close>; \<open>None\<close> where Python raises ValueError. (No limit on the
  number of digits applies here.)
\<close>

definition py_float :: "string \<Rightarrow> string option" where
  "py_float s = (let t = c_strip s in if float_lit t then Some t else None)"

section \<open>The line parser (parser.py)\<close>

text \<open>\<^verbatim>\<open>fields[i]\<close>: IndexError when out of range.\<close>

definition item :: "string list \<Rightarrow> nat \<Rightarrow> exc + string" where
  "item fields i = (if i < length fields then Inr (fields ! i) else Inl IndexError)"

text \<open>\<^verbatim>\<open>fields[i] if len(fields) > i else None\<close>.\<close>

definition item_or_none :: "string list \<Rightarrow> nat \<Rightarrow> pyval" where
  "item_or_none fields i = (if length fields > i then VStr (fields ! i) else VNone)"

definition upper_item_or_none :: "string list \<Rightarrow> nat \<Rightarrow> pyval" where
  "upper_item_or_none fields i =
     (if length fields > i then VStr (upper (fields ! i)) else VNone)"

definition parse_alarm :: "string list \<Rightarrow> exc + pydict" where
  "parse_alarm fields =
     (case item fields 1 of
        Inl e \<Rightarrow> Inl e
      | Inr type_code \<Rightarrow>
          (case item fields 2 of
             Inl e \<Rightarrow> Inl e
           | Inr device_id \<Rightarrow>
               Inr [''type_code'' \<mapsto> VStr type_code,
                    ''device_id'' \<mapsto> VStr (upper device_id),
                    ''code'' \<mapsto> item_or_none fields 3]))"

definition maybe_int :: "string \<Rightarrow> pyval" where
  "maybe_int v = (case py_int v of Some n \<Rightarrow> VInt n | None \<Rightarrow> VNone)"

definition parse_status :: "string list \<Rightarrow> pydict" where
  "parse_status fields =
     (let parsed = [''type_code'' \<mapsto> item_or_none fields 1,
                    ''device_id'' \<mapsto> upper_item_or_none fields 2,
                    ''battery'' \<mapsto> item_or_none fields 4,
                    ''signal'' \<mapsto> item_or_none fields 5];
          parsed = (if length fields > 8
                    then (case py_float (fields ! 7) of
                            None \<Rightarrow> parsed
                          | Some loc_noise \<Rightarrow>
                              (case py_float (fields ! 8) of
                                 None \<Rightarrow> parsed
                               | Some loc_rssi \<Rightarrow>
                                   parsed(''loc_noise'' \<mapsto> VFloat loc_noise,
                                          ''loc_rssi'' \<mapsto> VFloat loc_rssi)))
                    else parsed);
          parsed = (if length fields > 10
                    then parsed(''setting_byte_1'' \<mapsto> maybe_int (fields ! 10))
                    else parsed);
          parsed = (if length fields > 11
                    then parsed(''setting_byte_2'' \<mapsto> maybe_int (fields ! 11))
                    else parsed)
      in parsed)"

text \<open>
  The loop of \<^verbatim>\<open>parse_rstate\<close>: \<^verbatim>\<open>k, v = kv.split("=")\<close> raises ValueError
  when \<open>kv\<close> holds more than one \<open>=\<close>.
\<close>

fun rstate_loop :: "pydict \<Rightarrow> string list \<Rightarrow> exc + pydict" where
  "rstate_loop out [] = Inr out"
| "rstate_loop out (kv # kvs) =
     (if CHR ''='' \<in> set kv
      then (case split_on CHR ''='' kv of
              [k, v] \<Rightarrow> rstate_loop (out(k \<mapsto> VStr v)) kvs
            | _ \<Rightarrow> Inl ValueError)
      else rstate_loop out kvs)"

definition parse_rstate :: "string list \<Rightarrow> exc + pydict" where
  "parse_rstate fields =
     (case item fields 1 of
        Inl e \<Rightarrow> Inl e
      | Inr device_id \<Rightarrow> rstate_loop [''device_id'' \<mapsto> VStr (upper device_id)] (drop 2 fields))"

definition parse_list :: "string list \<Rightarrow> pydict" where
  "parse_list fields =
     [''sequence'' \<mapsto> item_or_none fields 1,
      ''slot'' \<mapsto> item_or_none fields 2,
      ''device_id'' \<mapsto> upper_item_or_none fields 3,
      ''type_code'' \<mapsto> item_or_none fields 4]"

definition parse_result :: "string list \<Rightarrow> pydict" where
  "parse_result fields =
     [''status'' \<mapsto> item_or_none fields 1,
      ''code'' \<mapsto> item_or_none fields 2]"

text \<open>
  The body of the \<^verbatim>\<open>try\<close> block of \<^verbatim>\<open>parse_line\<close>: the fields to merge
  into the record, or the exception raised before any of them is merged.
\<close>

definition tag_fields :: "string \<Rightarrow> string list \<Rightarrow> exc + pydict" where
  "tag_fields tag parts =
     (if tag = ''ALARM'' then parse_alarm parts
      else if tag = ''STATUS'' then Inr (parse_status parts)
      else if tag = ''RSTATE'' then parse_rstate parts
      else if tag = ''EVENT'' then Inr [''event'' \<mapsto> VList (drop 1 parts)]
      else if tag = ''LIST'' then Inr (parse_list parts)
      else if tag = ''RESULT'' then Inr (parse_result parts)
      else Inr Map.empty)"

text \<open>
  \<^verbatim>\<open>parse_line\<close> as the source runs it: the result is either the returned record or
  an exception that escapes the function.
\<close>

definition parse_line_run :: "string \<Rightarrow> exc + pydict" where
  "parse_line_run line =
     (let parts = split_on CHR '';'' line
      in case item parts 0 of
           Inl e \<Rightarrow> Inl e
         | Inr first \<Rightarrow>
             (let tag = upper first;
                  parsed = [''tag'' \<mapsto> VStr tag, ''raw'' \<mapsto> VStr line]
              in case tag_fields tag parts of
                   Inr d \<Rightarrow> Inr (parsed ++ d)
                 | Inl e \<Rightarrow> Inr (parsed(''error'' \<mapsto> VExc e))))"

text \<open>The record \<^verbatim>\<open>parse_line\<close> returns (empty if it raised).\<close>

definition parse_line :: "string \<Rightarrow> pydict" where
  "parse_line line = (case parse_line_run line of Inr d \<Rightarrow> d | Inl e \<Rightarrow> Map.empty)"

text \<open>The tag of a line: its first \<open>;\<close>-separated part, in upper case.\<close>

definition line_tag :: "string \<Rightarrow> string" where
  "line_tag line = upper (hd (split_on CHR '';'' line))"

definition recognized_tags :: "string list" where
  "recognized_tags = [''ALARM'', ''STATUS'', ''RSTATE'', ''EVENT'', ''LIST'', ''RESULT'']"

section \<open>Shared state of one bridge connection (__init__.py)\<close>

text \<open>
  A future is pending until it is resolved once; the coordinators keep references to the
  futures they created (indices into a store), the callers keep the futures themselves.
\<close>

record candidate =
  c_device_id :: string
  c_type_code :: "string option"
  c_firmware :: "string option"
  c_raw :: "(string \<times> string) list"
  c_type_name :: "string option"

datatype fval = FCandidate "candidate option" | FTrue

datatype fut = Pending | Result fval | Exception exc | Cancelled

text \<open>
  A timer or task handle: armed with what it will do, or spent (it ran, or it was
  cancelled) while the attribute still refers to it. The delays are not modelled: an
  armed timer may fire at any later step.
\<close>

datatype 'a handle = Armed 'a | Spent

datatype pstage =
    await_stop_result | await_stop_clear | await_add_result
  | await_device | await_confirmation | waiting_finalize

datatype estage = await_stt_result | await_wrk_result

datatype cstage = await_stop | await_delete | await_command | await_wrk

datatype lstage = stage_stop | stage_lst | stage_wrk

datatype reg_call = GetOrCreate string | RemoveDevice string

text \<open>
  The per-connection data bag \<^verbatim>\<open>entry_data\<close> together with the three
  coordinators it holds. \<open>sent\<close> is the log of \<^verbatim>\<open>protocol.send_cmd\<close> calls,
  oldest first. The device library table (device_library.json) and the identifiers the
  device registry hands out are outside the sources: \<open>lib_model\<close>,
  \<open>lib_template\<close> and \<open>reg_id\<close> stand for them.
\<close>

record world =
  protocol :: bool
  sent :: "string list"
  hub_device_code :: "string option"
  devices :: "(string \<times> pydict) list"
  allowed_ids :: "string set"
  list_active :: bool
  list_stage :: "lstage option"
  list_retries :: nat
  list_pending :: "(string \<times> pydict) list option"
  devices_snapshot :: "(string \<times> pydict) list option"
  list_timeout_task :: "unit handle option"
  list_wrk_handle :: "unit handle option"
  delayed_stops :: nat
  retry_sends :: nat
  refresh_tasks :: nat
  refresh_calls :: nat
  registry_log :: "reg_call list"
  lib_model :: "string \<rightharpoonup> string"
  lib_template :: "string \<rightharpoonup> string"
  reg_id :: "string \<Rightarrow> string"
  p_active :: bool
  p_flow_id :: "string option"
  p_stage :: "pstage option"
  p_timeout_handle :: "unit handle option"
  p_search_future :: "nat option"
  p_finalize_future :: "nat option"
  p_candidate :: "candidate option"
  p_in_engineering :: bool
  p_exit_pending :: bool
  p_exit_stage :: "estage option"
  p_exit_timeout_handle :: "unit handle option"
  p_exit_command_handle :: "string handle option"
  p_stop_retries :: nat
  p_requested_stop :: bool
  pair_futs :: "fut list"
  d_lock :: bool
  d_future :: "nat option"
  d_stage :: "cstage option"
  d_device_id :: "string option"
  d_awaited :: "(nat \<times> string) option"
  del_futs :: "fut list"
  m_lock :: bool
  m_future :: "nat option"
  m_stage :: "cstage option"
  m_device_id :: "string option"
  m_command :: "string option"
  m_awaited :: "nat option"
  par_futs :: "fut list"

text \<open>\<^verbatim>\<open>protocol.send_cmd(cmd)\<close>.\<close>

definition send_cmd :: "string \<Rightarrow> world \<Rightarrow> world" where
  "send_cmd cmd w = w\<lparr>sent := sent w @ [cmd]\<rparr>"

text \<open>\<^verbatim>\<open>if protocol: protocol.send_cmd(cmd)\<close>.\<close>

definition send_if_ready :: "string \<Rightarrow> world \<Rightarrow> world" where
  "send_if_ready cmd w = (if protocol w then send_cmd cmd w else w)"

text \<open>\<^verbatim>\<open>f and not f.done()\<close> for a reference \<open>f\<close> into a store.\<close>

definition fut_pending :: "fut list \<Rightarrow> nat option \<Rightarrow> bool" where
  "fut_pending fs r = (case r of None \<Rightarrow> False | Some i \<Rightarrow> i < length fs \<and> fs ! i = Pending)"

text \<open>
  \<^verbatim>\<open>if f and not f.done(): f.set_result(..)\<close> (or \<^verbatim>\<open>set_exception\<close>,
  \<^verbatim>\<open>cancel\<close>): the guard every resolution in the source carries.
\<close>

definition resolve :: "nat option \<Rightarrow> fut \<Rightarrow> fut list \<Rightarrow> fut list" where
  "resolve r v fs =
     (case r of
        None \<Rightarrow> fs
      | Some i \<Rightarrow> if fut_pending fs r then fs[i := v] else fs)"

text \<open>\<^verbatim>\<open>event.get("tag") == t\<close>.\<close>

definition tag_is :: "pydict \<Rightarrow> string \<Rightarrow> bool" where
  "tag_is event t \<longleftrightarrow> event ''tag'' = Some (VStr t)"

text \<open>
  \<^verbatim>\<open>event.get(k) or ""\<close>; under the keys read this way (\<open>status\<close>,
  \<open>code\<close>) a record built by \<open>parse_line\<close> holds a string or None.
\<close>

definition get_or_empty :: "pydict \<Rightarrow> string \<Rightarrow> string" where
  "get_or_empty event k = (case event k of Some (VStr s) \<Rightarrow> s | _ \<Rightarrow> [])"

definition event_status :: "pydict \<Rightarrow> string" where
  "event_status event = upper (get_or_empty event ''status'')"

definition event_code :: "pydict \<Rightarrow> string" where
  "event_code event = strip (get_or_empty event ''code'')"

text \<open>\<^verbatim>\<open>code in {"", "0", "2"}\<close>.\<close>

definition ok_code :: "string \<Rightarrow> bool" where
  "ok_code code \<longleftrightarrow> code = [] \<or> code = ''0'' \<or> code = ''2''"

section \<open>AjaxDeletionCoordinator\<close>

definition d_busy :: "world \<Rightarrow> bool" where
  "d_busy w \<longleftrightarrow> d_future w \<noteq> None"

definition d_cancel :: "world \<Rightarrow> world" where
  "d_cancel w =
     w\<lparr>del_futs := resolve (d_future w) Cancelled (del_futs w),
       d_future := None, d_stage := None, d_device_id := None\<rparr>"

definition d_fail :: "string \<Rightarrow> world \<Rightarrow> world" where
  "d_fail reason w =
     d_cancel (send_if_ready ''wrk''
       (w\<lparr>del_futs := resolve (d_future w) (Exception (HomeAssistantError reason)) (del_futs w)\<rparr>))"

text \<open>The f-string \<^verbatim>\<open>f"{kind} status={status} code={code}"\<close>.\<close>

definition fail_reason :: "string \<Rightarrow> string \<Rightarrow> string \<Rightarrow> string" where
  "fail_reason kind status code = kind @ '' status='' @ status @ '' code='' @ code"

text \<open>\<^verbatim>\<open>f"del {self._device_id}"\<close>: a missing id prints as \<open>None\<close>.\<close>

definition del_command :: "string option \<Rightarrow> string" where
  "del_command device_id = ''del '' @ (case device_id of None \<Rightarrow> ''None'' | Some d \<Rightarrow> d)"

definition d_handle_event :: "pydict \<Rightarrow> world \<Rightarrow> bool \<times> world" where
  "d_handle_event event w =
     (if d_future w = None \<or> \<not> tag_is event ''RESULT'' then (False, w)
      else
        (let status = event_status event; code = event_code event
         in if d_stage w = Some await_stop then
              (if status = ''OK'' \<and> ok_code code then
                 (True, (send_if_ready (del_command (d_device_id w)) w)\<lparr>d_stage := Some await_delete\<rparr>)
               else if status = ''NAK'' \<and> code = ''2'' then (True, send_if_ready ''stop'' w)
               else (True, d_fail (fail_reason ''stop_failed'' status code) w))
            else if d_stage w = Some await_delete then
              (if status = ''OK'' \<and> ok_code code then
                 (True, (send_if_ready ''wrk'' w)\<lparr>d_stage := Some await_wrk\<rparr>)
               else (True, d_fail (fail_reason ''delete_failed'' status code) w))
            else if d_stage w = Some await_wrk then
              (if status = ''OK'' \<and> ok_code code then
                 (True, w\<lparr>del_futs := resolve (d_future w) (Result FTrue) (del_futs w)\<rparr>)
               else if status = ''NAK'' \<and> code = ''2'' then (True, send_if_ready ''wrk'' w)
               else (True, d_fail (fail_reason ''wrk_failed'' status code) w))
            else (False, w)))"

text \<open>
  \<^verbatim>\<open>async_delete\<close> up to its first suspension: it raises, or waits for the lock
  another call holds, or sends \<open>stop\<close> and awaits the new future while holding the
  lock. Every \<^verbatim>\<open>raise\<close> comes before the first assignment, so a raised call
  leaves the state as it was.
\<close>

datatype 'a started = Raised exc | WaitsForLock | Awaiting nat 'a

definition async_delete :: "string \<Rightarrow> world \<Rightarrow> world started" where
  "async_delete dev w =
     (let device_id = upper dev
      in if device_id = [] \<or> Some device_id = hub_device_code w
         then Raised (HomeAssistantError ''Invalid device id'')
         else if d_lock w then WaitsForLock
         else if d_future w \<noteq> None
         then Raised (HomeAssistantError ''Another delete operation is running'')
         else if \<not> protocol w then Raised (HomeAssistantError ''Bridge connection not ready'')
         else if device_id \<notin> fst ` set (devices w)
         then Raised (HomeAssistantError (''Unknown device id '' @ device_id))
         else if list_active w
         then Raised (HomeAssistantError ''Device list refresh in progress'')
         else if p_active w \<or> p_exit_pending w
         then Raised (HomeAssistantError ''Pairing operation in progress'')
         else
           (let i = length (del_futs w)
            in Awaiting i
                 (send_cmd ''stop''
                    (w\<lparr>d_lock := True, d_stage := Some await_stop,
                       d_device_id := Some device_id, d_future := Some i,
                       del_futs := del_futs w @ [Pending],
                       d_awaited := Some (i, device_id)\<rparr>))))"

text \<open>
  \<^verbatim>\<open>asyncio.wait_for\<close> gives up after 15 seconds: it cancels the awaited future,
  the \<^verbatim>\<open>except\<close> branch calls \<^verbatim>\<open>_fail\<close>, the \<^verbatim>\<open>finally\<close> block
  clears the session and the lock is released.
\<close>

definition d_finally :: "world \<Rightarrow> world" where
  "d_finally w =
     w\<lparr>d_stage := None, d_device_id := None, d_future := None,
       d_lock := False, d_awaited := None\<rparr>"

definition d_timeout :: "world \<Rightarrow> world" where
  "d_timeout w =
     d_finally (d_fail ''Deletion timed out''
       (w\<lparr>del_futs := resolve (map_option fst (d_awaited w)) Cancelled (del_futs w)\<rparr>))"

text \<open>
  The part of \<^verbatim>\<open>async_delete\<close> after the lock, run once the awaited future
  holds its result: the device leaves the registry, the device table and the allowed
  ids, and a call of \<^verbatim>\<open>_async_refresh_device_list\<close> is due after a short sleep.
\<close>

definition truthy_str :: "pyval option \<Rightarrow> string option" where
  "truthy_str v = (case v of Some (VStr s) \<Rightarrow> if s = [] then None else Some s | _ \<Rightarrow> None)"

definition d_remove_device :: "string \<Rightarrow> world \<Rightarrow> world" where
  "d_remove_device device_id w =
     (case map_of (devices w) device_id of
        None \<Rightarrow> w
      | Some device_meta \<Rightarrow>
          (if device_meta = Map.empty then w
           else
             (let w1 = (case truthy_str (device_meta ''device_registry_id'') of
                          None \<Rightarrow> w
                        | Some rid \<Rightarrow> w\<lparr>registry_log := registry_log w @ [RemoveDevice rid]\<rparr>)
              in w1\<lparr>devices := filter (\<lambda>kv. fst kv \<noteq> device_id) (devices w1),
                    allowed_ids := allowed_ids w1 - {device_id}\<rparr>)))"

text \<open>
  The coroutine resumes when the awaited future is done: with a result it goes on to
  remove the device (the id is its local, upper-cased \<^verbatim>\<open>device_id\<close>); with an
  exception or a cancellation it re-raises after the \<^verbatim>\<open>finally\<close> block.
\<close>

definition d_resume :: "world \<Rightarrow> world" where
  "d_resume w =
     (case d_awaited w of
        None \<Rightarrow> w
      | Some (i, device_id) \<Rightarrow>
          (if fut_pending (del_futs w) (Some i) then w
           else if i < length (del_futs w) \<and> del_futs w ! i = Result FTrue
           then (let w1 = d_remove_device device_id (d_finally w)
                 in w1\<lparr>refresh_calls := Suc (refresh_calls w1)\<rparr>)
           else d_finally w))"

section \<open>AjaxParameterCoordinator\<close>

definition m_busy :: "world \<Rightarrow> bool" where
  "m_busy w \<longleftrightarrow> m_future w \<noteq> None"

definition m_cancel :: "world \<Rightarrow> world" where
  "m_cancel w =
     w\<lparr>par_futs := resolve (m_future w) Cancelled (par_futs w),
       m_future := None, m_stage := None, m_device_id := None, m_command := None\<rparr>"

definition m_fail :: "string \<Rightarrow> world \<Rightarrow> world" where
  "m_fail reason w =
     m_cancel (send_if_ready ''wrk''
       (w\<lparr>par_futs := resolve (m_future w) (Exception (HomeAssistantError reason)) (par_futs w)\<rparr>))"

definition m_handle_event :: "pydict \<Rightarrow> world \<Rightarrow> bool \<times> world" where
  "m_handle_event event w =
     (if m_future w = None \<or> \<not> tag_is event ''RESULT'' then (False, w)
      else
        (let status = event_status event; code = event_code event
         in if m_stage w = Some await_stop then
              (if status = ''OK'' \<and> ok_code code then
                 (True,
                  (case m_command w of
                     None \<Rightarrow> w
                   | Some c \<Rightarrow> if protocol w \<and> c \<noteq> [] then send_cmd c w else w)
                  \<lparr>m_stage := Some await_command\<rparr>)
               else if status = ''NAK'' \<and> code = ''2'' then (True, send_if_ready ''stop'' w)
               else (True, m_fail (fail_reason ''stop_failed'' status code) w))
            else if m_stage w = Some await_command then
              (if status = ''OK'' \<and> ok_code code then
                 (True, (send_if_ready ''wrk'' w)\<lparr>m_stage := Some await_wrk\<rparr>)
               else (True, m_fail (fail_reason ''par_failed'' status code) w))
            else if m_stage w = Some await_wrk then
              (if status = ''OK'' \<and> ok_code code then
                 (True, w\<lparr>par_futs := resolve (m_future w) (Result FTrue) (par_futs w)\<rparr>)
               else if status = ''NAK'' \<and> code = ''2'' then (True, send_if_ready ''wrk'' w)
               else (True, m_fail (fail_reason ''wrk_failed'' status code) w))
            else (False, w)))"

definition async_set :: "string \<Rightarrow> string \<Rightarrow> world \<Rightarrow> world started" where
  "async_set dev command w =
     (let device_id = upper dev
      in if m_lock w then WaitsForLock
         else if m_future w \<noteq> None
         then Raised (HomeAssistantError ''Another parameter update is running'')
         else if \<not> protocol w then Raised (HomeAssistantError ''Bridge connection not ready'')
         else if list_active w
         then Raised (HomeAssistantError ''Device list refresh in progress'')
         else if d_busy w then Raised (HomeAssistantError ''Device deletion in progress'')
         else if p_active w \<or> p_exit_pending w
         then Raised (HomeAssistantError ''Pairing operation in progress'')
         else
           (let i = length (par_futs w)
            in Awaiting i
                 (send_cmd ''stop''
                    (w\<lparr>m_lock := True, m_stage := Some await_stop,
                       m_device_id := Some device_id, m_command := Some command,
                       m_future := Some i, par_futs := par_futs w @ [Pending],
                       m_awaited := Some i\<rparr>))))"

definition m_finally :: "world \<Rightarrow> world" where
  "m_finally w =
     w\<lparr>m_stage := None, m_device_id := None, m_command := None, m_future := None,
       m_lock := False, m_awaited := None\<rparr>"

definition m_timeout :: "world \<Rightarrow> world" where
  "m_timeout w =
     m_finally (m_fail ''Parameter update timed out''
       (w\<lparr>par_futs := resolve (m_awaited w) Cancelled (par_futs w)\<rparr>))"

definition m_resume :: "world \<Rightarrow> world" where
  "m_resume w = (if fut_pending (par_futs w) (m_awaited w) then w else m_finally w)"

section \<open>Device list refresh\<close>

text \<open>
  \<^verbatim>\<open>str(event.get(k, "")).upper()\<close>: a stored None prints as \<open>None\<close>. (Under
  \<open>device_id\<close>, the key read this way, \<open>parse_line\<close> stores a string or None.)
\<close>

definition str_upper_of :: "pydict \<Rightarrow> string \<Rightarrow> string" where
  "str_upper_of event k =
     (case event k of
        None \<Rightarrow> []
      | Some (VStr s) \<Rightarrow> upper s
      | Some _ \<Rightarrow> ''NONE'')"

text \<open>\<^verbatim>\<open>DEVICE_LIBRARY.device_model\<close> and \<^verbatim>\<open>params_template_name\<close>.\<close>

definition device_model :: "world \<Rightarrow> string option \<Rightarrow> string option" where
  "device_model w type_code = (case type_code of None \<Rightarrow> None | Some t \<Rightarrow> lib_model w t)"

definition params_template_name :: "world \<Rightarrow> string option \<Rightarrow> string option" where
  "params_template_name w type_code =
     (case type_code of None \<Rightarrow> None | Some t \<Rightarrow> lib_template w t)"

definition opt_val :: "string option \<Rightarrow> pyval" where
  "opt_val x = (case x of None \<Rightarrow> VNone | Some s \<Rightarrow> VStr s)"

definition str_of :: "pyval option \<Rightarrow> string option" where
  "str_of v = (case v of Some (VStr s) \<Rightarrow> Some s | _ \<Rightarrow> None)"

text \<open>\<^verbatim>\<open>s.replace("__", "_")\<close>: left to right, without overlap.\<close>

fun squeeze_underscores :: "string \<Rightarrow> string" where
  "squeeze_underscores (a # b # cs) =
     (if a = CHR ''_'' \<and> b = CHR ''_'' then CHR ''_'' # squeeze_underscores cs
      else a # squeeze_underscores (b # cs))"
| "squeeze_underscores cs = cs"

definition ensure_device_identity :: "world \<Rightarrow> pydict \<Rightarrow> string \<Rightarrow> pydict" where
  "ensure_device_identity w entry device_id =
     (let type_code = str_of (entry ''type_code'');
          type_name = (case truthy_str (entry ''type_name'') of
                         Some n \<Rightarrow> Some n
                       | None \<Rightarrow> device_model w type_code);
          entry = entry(''type_name'' \<mapsto> opt_val type_name);
          entry = (case params_template_name w type_code of
                     Some t \<Rightarrow>
                       (if t \<noteq> [] then
                          (let e = entry(''params_template'' \<mapsto> VStr t)
                           in if e ''params_state'' = None then e(''params_state'' \<mapsto> VDict [])
                              else e)
                        else entry(''params_template'' := None, ''params_state'' := None))
                   | None \<Rightarrow> entry(''params_template'' := None, ''params_state'' := None));
          type_token = filter (\<lambda>c. c \<noteq> CHR '' '')
                         (case type_name of None \<Rightarrow> ''Device''
                          | Some n \<Rightarrow> if n = [] then ''Device'' else n);
          unique_name = squeeze_underscores (''Ajax_'' @ type_token @ ''_'' @ device_id);
          entry = entry(''unique_name'' \<mapsto> VStr unique_name)
      in if entry ''name'' = None
         then entry(''name'' \<mapsto> VStr (map (\<lambda>c. if c = CHR ''_'' then CHR '' '' else c) unique_name))
         else entry)"

definition schedule_wrk_cancel :: "world \<Rightarrow> world" where
  "schedule_wrk_cancel w = w\<lparr>list_wrk_handle := None\<rparr>"

definition schedule_wrk_send :: "world \<Rightarrow> world" where
  "schedule_wrk_send w =
     (let w1 = (case list_wrk_handle w of
                  None \<Rightarrow> w
                | Some h \<Rightarrow> w\<lparr>list_wrk_handle := Some Spent\<rparr>)
      in if \<not> protocol w then w1 else w1\<lparr>list_wrk_handle := Some (Armed ())\<rparr>)"

text \<open>The timer callback \<^verbatim>\<open>_send_wrk\<close>; its \<open>protocol\<close> was captured when armed.\<close>

definition send_wrk_timer :: "world \<Rightarrow> world" where
  "send_wrk_timer w =
     (let w1 = w\<lparr>list_wrk_handle := None\<rparr>
      in if \<not> list_active w1 then w1
         else send_cmd ''wrk'' (w1\<lparr>list_stage := Some stage_wrk\<rparr>))"

definition async_refresh_device_list :: "world \<Rightarrow> world" where
  "async_refresh_device_list w =
     (if list_active w then w
      else if \<not> protocol w then w
      else w\<lparr>devices_snapshot := Some (devices w), list_pending := Some [],
             list_active := True, list_stage := None, list_retries := 0,
             list_timeout_task := Some (Armed ()),
             delayed_stops := Suc (delayed_stops w)\<rparr>)"

text \<open>The task \<^verbatim>\<open>_delayed_stop\<close>, once its sleep is over.\<close>

definition delayed_stop :: "world \<Rightarrow> world" where
  "delayed_stop w =
     (let w1 = w\<lparr>delayed_stops := delayed_stops w - 1\<rparr>
      in if \<not> list_active w1 then w1
         else send_cmd ''stop'' (w1\<lparr>list_stage := Some stage_stop\<rparr>))"

text \<open>A \<^verbatim>\<open>call_later(LIST_RETRY_DELAY, protocol.send_cmd, "stop")\<close> coming due.\<close>

definition retry_send :: "world \<Rightarrow> world" where
  "retry_send w = send_cmd ''stop'' (w\<lparr>retry_sends := retry_sends w - 1\<rparr>)"

definition handle_list_entry :: "pydict \<Rightarrow> world \<Rightarrow> world" where
  "handle_list_entry event w =
     (if \<not> list_active w then w
      else
        (let pending = (case list_pending w of None \<Rightarrow> [] | Some p \<Rightarrow> p);
             device_id = str_upper_of event ''device_id''
         in if device_id = [] then w\<lparr>list_pending := Some pending\<rparr>
            else
              (let entry = (case map_of pending device_id of None \<Rightarrow> Map.empty | Some e \<Rightarrow> e);
                   entry = (case event ''type_code'' of
                              Some (VStr t) \<Rightarrow>
                                (if strip t \<noteq> []
                                 then entry(''type_code'' \<mapsto> VStr (strip t),
                                            ''type_name'' \<mapsto> opt_val (device_model w (Some (strip t))))
                                 else entry)
                            | _ \<Rightarrow> entry);
                   entry = (if entry ''sequence'' = None
                            then entry(''sequence'' \<mapsto>
                                   (case event ''sequence'' of None \<Rightarrow> VNone | Some v \<Rightarrow> v))
                            else entry);
                   entry = (if entry ''slot'' = None
                            then entry(''slot'' \<mapsto>
                                   (case event ''slot'' of None \<Rightarrow> VNone | Some v \<Rightarrow> v))
                            else entry);
                   entry = ensure_device_identity w entry device_id;
                   w1 = w\<lparr>list_pending := Some (AList.update device_id entry pending)\<rparr>
               in if list_stage w1 = Some stage_lst then schedule_wrk_send w1 else w1)))"

text \<open>
  The first loop of \<^verbatim>\<open>_finalize_device_list\<close>: every new device is stored and
  registered; \<open>params_state\<close> of the previous snapshot is merged in.
\<close>

definition merge_params_state :: "pydict \<Rightarrow> pydict \<Rightarrow> pydict" where
  "merge_params_state previous_meta m =
     (case previous_meta ''params_state'' of
        Some (VDict previous_state) \<Rightarrow>
          (if previous_state = [] then m
           else
             (let current = (case m ''params_state'' of Some (VDict c) \<Rightarrow> c | _ \<Rightarrow> [])
              in m(''params_state'' \<mapsto> VDict (AList.updates (map fst previous_state)
                                                    (map snd previous_state) current))))
      | _ \<Rightarrow> m)"

fun store_devices :: "(string \<times> pydict) list \<Rightarrow> (string \<times> pydict) list \<Rightarrow> world \<Rightarrow> world" where
  "store_devices snapshot [] w = w"
| "store_devices snapshot ((device_id, m0) # rest) w =
     (let m1 = ensure_device_identity w m0 device_id;
          previous_meta = (case map_of snapshot device_id of None \<Rightarrow> Map.empty | Some p \<Rightarrow> p);
          m2 = merge_params_state previous_meta m1;
          unique_name = (case str_of (m2 ''unique_name'') of None \<Rightarrow> [] | Some u \<Rightarrow> u);
          m3 = m2(''device_registry_id'' \<mapsto> VStr (reg_id w unique_name))
      in store_devices snapshot rest
           (w\<lparr>devices := AList.update device_id m3 (devices w),
              registry_log := registry_log w @ [GetOrCreate unique_name]\<rparr>))"

text \<open>
  The second loop: a removed device leaves the registry when its snapshot entry holds a
  registry id. (Python iterates a set here; the snapshot's order stands for it.)
\<close>

fun remove_devices :: "(string \<times> pydict) list \<Rightarrow> string list \<Rightarrow> world \<Rightarrow> world" where
  "remove_devices snapshot [] w = w"
| "remove_devices snapshot (removed_id # rest) w =
     (let removed_meta = (case map_of snapshot removed_id of None \<Rightarrow> Map.empty | Some p \<Rightarrow> p)
      in remove_devices snapshot rest
           (case truthy_str (removed_meta ''device_registry_id'') of
              None \<Rightarrow> w
            | Some rid \<Rightarrow> w\<lparr>registry_log := registry_log w @ [RemoveDevice rid]\<rparr>))"

text \<open>
  \<^verbatim>\<open>new_devices\<close> and \<^verbatim>\<open>removed_ids\<close> of \<^verbatim>\<open>_finalize_device_list\<close>.
  Without a stored snapshot the default is the \<^verbatim>\<open>devices\<close> dict itself, which
  the function empties before it reads the snapshot: it is empty then. The function ends
  by updating the hub's registry metadata and by syncing the entity managers of the
  platforms; these calls are left out.
\<close>

definition final_snapshot :: "world \<Rightarrow> (string \<times> pydict) list" where
  "final_snapshot w = (case devices_snapshot w of None \<Rightarrow> [] | Some s \<Rightarrow> s)"

definition new_devices :: "bool \<Rightarrow> world \<Rightarrow> (string \<times> pydict) list" where
  "new_devices success w =
     (let pending = (case list_pending w of None \<Rightarrow> [] | Some p \<Rightarrow> p)
      in if success \<and> pending \<noteq> [] then pending else final_snapshot w)"

definition removed_ids :: "bool \<Rightarrow> world \<Rightarrow> string list" where
  "removed_ids success w =
     filter (\<lambda>k. k \<notin> fst ` set (new_devices success w)) (map fst (final_snapshot w))"

definition finalize_device_list :: "bool \<Rightarrow> world \<Rightarrow> world" where
  "finalize_device_list success w =
     (let snapshot = final_snapshot w;
          new = new_devices success w;
          removed = removed_ids success w;
          w1 = schedule_wrk_cancel (w\<lparr>list_timeout_task := None\<rparr>);
          w2 = w1\<lparr>list_pending := None, devices_snapshot := None, devices := []\<rparr>;
          w3 = store_devices snapshot new w2;
          w4 = remove_devices snapshot removed w3
      in w4\<lparr>allowed_ids := fst ` set new, list_active := False,
            list_stage := None, list_retries := 0\<rparr>)"

definition LIST_MAX_RETRIES :: nat where
  "LIST_MAX_RETRIES = 5"

definition process_list_result :: "pydict \<Rightarrow> world \<Rightarrow> world" where
  "process_list_result event w =
     (let status = event_status event; stage = list_stage w
      in if stage = None then w
         else if status \<noteq> ''OK'' then
           (let code = get_or_empty event ''code''
            in if stage = Some stage_stop \<and> status = ''NAK'' \<and> (code = ''0'' \<or> code = [])
                  \<and> list_retries w < LIST_MAX_RETRIES
               then (let w1 = w\<lparr>list_retries := list_retries w + 1\<rparr>
                     in if protocol w1 then w1\<lparr>retry_sends := Suc (retry_sends w1)\<rparr> else w1)
               else if stage = Some stage_lst \<and> status = ''NAK'' \<and> (code = ''0'' \<or> code = [])
                  \<and> list_retries w < LIST_MAX_RETRIES
               then (let w1 = w\<lparr>list_retries := list_retries w + 1\<rparr>
                     in if protocol w1
                        then (let w2 = (schedule_wrk_cancel w1)\<lparr>list_stage := Some stage_stop\<rparr>
                              in w2\<lparr>retry_sends := Suc (retry_sends w2)\<rparr>)
                        else w1)
               else finalize_device_list False (send_if_ready ''wrk'' w))
         else if stage = Some stage_stop then
           (let w1 = w\<lparr>list_retries := 0, list_stage := Some stage_lst\<rparr>
            in if protocol w1 then schedule_wrk_send (send_cmd ''lst'' w1) else w1)
         else if stage = Some stage_lst then
           schedule_wrk_cancel (send_if_ready ''wrk'' (w\<lparr>list_stage := Some stage_wrk\<rparr>))
         else finalize_device_list True w)"

text \<open>The task \<^verbatim>\<open>_async_device_list_timeout\<close>, once its sleep is over.\<close>

definition device_list_timeout :: "world \<Rightarrow> world" where
  "device_list_timeout w =
     (let w1 = w\<lparr>list_timeout_task := Some Spent\<rparr>
      in if \<not> list_active w1 then w1
         else finalize_device_list
                (case list_pending w1 of None \<Rightarrow> False | Some p \<Rightarrow> p \<noteq> [])
                (send_if_ready ''wrk'' w1))"

text \<open>
  \<^verbatim>\<open>_handle_hub_rstate\<close>, as far as the sessions read what it writes (the hub's
  registry metadata is left out).
\<close>

definition handle_hub_rstate :: "pydict \<Rightarrow> world \<Rightarrow> world" where
  "handle_hub_rstate event w =
     (let device_id = str_upper_of event ''device_id''
      in if device_id = [] then w
         else w\<lparr>hub_device_code := Some device_id,
                allowed_ids := insert device_id (allowed_ids w)\<rparr>)"

section \<open>AjaxPairingCoordinator\<close>

text \<open>\<^verbatim>\<open>list(event.get("event") or [])\<close>: a string counts as its characters.\<close>

definition event_tokens :: "pydict \<Rightarrow> string list" where
  "event_tokens event =
     (case event ''event'' of
        Some (VList ts) \<Rightarrow> ts
      | Some (VStr s) \<Rightarrow> map (\<lambda>c. [c]) s
      | _ \<Rightarrow> [])"

fun parse_event_attrs :: "(string \<times> string) list \<Rightarrow> string list \<Rightarrow> (string \<times> string) list" where
  "parse_event_attrs attributes [] = attributes"
| "parse_event_attrs attributes (tok # rest) =
     (let token = strip tok
      in if token = [] then parse_event_attrs attributes rest
         else if CHR ''='' \<notin> set token then parse_event_attrs attributes rest
         else (case split_once CHR ''='' token of
                 [key, v] \<Rightarrow> parse_event_attrs (AList.update (upper key) v attributes) rest
               | _ \<Rightarrow> parse_event_attrs attributes rest))"

definition parse_event_tokens :: "string list \<Rightarrow> string option \<times> (string \<times> string) list" where
  "parse_event_tokens tokens =
     (case tokens of
        [] \<Rightarrow> (None, [])
      | first # rest \<Rightarrow> (Some (upper (strip first)), parse_event_attrs [] rest))"

definition build_candidate_details :: "world \<Rightarrow> string \<Rightarrow> (string \<times> string) list \<Rightarrow> candidate" where
  "build_candidate_details w device_id attrs =
     (let type_code = map_of attrs ''TYP''
      in \<lparr>c_device_id = device_id,
          c_type_code = type_code,
          c_firmware = map_of attrs ''VER'',
          c_raw = attrs,
          c_type_name =
            (case type_code of
               None \<Rightarrow> None
             | Some t \<Rightarrow>
                 if t = [] then None
                 else (case device_model w (Some t) of
                         None \<Rightarrow> Some t
                       | Some m \<Rightarrow> if m = [] then Some t else Some m))\<rparr>)"

text \<open>\<^verbatim>\<open>attributes.get(k)\<close> taken as a condition.\<close>

definition attr_set :: "(string \<times> string) list \<Rightarrow> string \<Rightarrow> bool" where
  "attr_set attrs k = (case map_of attrs k of None \<Rightarrow> False | Some v \<Rightarrow> v \<noteq> [])"

definition reset_timeout :: "world \<Rightarrow> world" where
  "reset_timeout w = w\<lparr>p_timeout_handle := Some (Armed ())\<rparr>"

definition cancel_exit_command :: "world \<Rightarrow> world" where
  "cancel_exit_command w = w\<lparr>p_exit_command_handle := None\<rparr>"

definition restart_wrk_fallback_timer :: "world \<Rightarrow> world" where
  "restart_wrk_fallback_timer w = w\<lparr>p_exit_timeout_handle := Some (Armed ())\<rparr>"

text \<open>
  \<^verbatim>\<open>_send_exit_command\<close> arms a timer whose callback \<^verbatim>\<open>_send\<close>
  (\<open>exit_send\<close>) sends the command; \<open>exit_command_due\<close> is the timer firing.
\<close>

definition send_exit_command :: "string \<Rightarrow> estage \<Rightarrow> world \<Rightarrow> world" where
  "send_exit_command command stage w =
     (cancel_exit_command (w\<lparr>p_exit_stage := Some stage\<rparr>))
       \<lparr>p_exit_command_handle := Some (Armed command)\<rparr>"

definition exit_send :: "string \<Rightarrow> world \<Rightarrow> world" where
  "exit_send command w =
     (if \<not> p_exit_pending w then w
      else if \<not> protocol w then w
      else send_cmd command w)"

definition exit_command_due :: "string \<Rightarrow> world \<Rightarrow> world" where
  "exit_command_due command w = exit_send command (w\<lparr>p_exit_command_handle := Some Spent\<rparr>)"

definition early_stage :: "pstage option \<Rightarrow> bool" where
  "early_stage st \<longleftrightarrow>
     st = Some await_stop_result \<or> st = Some await_stop_clear \<or>
     st = Some await_add_result \<or> st = Some await_device"

definition cleanup :: "bool \<Rightarrow> bool \<Rightarrow> world \<Rightarrow> world" where
  "cleanup send_wrk force_exit w =
     (let w1 = w\<lparr>p_timeout_handle := None\<rparr>;
          should_exit = (send_wrk \<and> protocol w1 \<and>
                         (force_exit \<or> p_in_engineering w1 \<or> p_requested_stop w1
                          \<or> early_stage (p_stage w1)));
          w2 = (if should_exit \<and> protocol w1
                then send_exit_command ''stt'' await_stt_result
                       (w1\<lparr>p_exit_pending := True, p_exit_timeout_handle := Some (Armed ())\<rparr>)
                else cancel_exit_command
                       (w1\<lparr>p_exit_pending := False, p_exit_stage := None,
                          p_in_engineering := False, p_exit_timeout_handle := None\<rparr>));
          w3 = w2\<lparr>p_active := False, p_stage := None, p_flow_id := None,
                 p_candidate := None, p_search_future := None, p_finalize_future := None\<rparr>
      in if \<not> p_exit_pending w3
         then w3\<lparr>p_in_engineering := False, p_requested_stop := False\<rparr>
         else w3)"

definition start_search :: "string \<Rightarrow> world \<Rightarrow> exc + nat \<times> world" where
  "start_search flow_id w =
     (if p_active w then Inl (PairingError ''busy'')
      else if p_exit_pending w then Inl (PairingError ''busy'')
      else if list_active w then Inl (PairingError ''busy'')
      else if \<not> protocol w then Inl (PairingError ''not_ready'')
      else
        (let w1 = (cancel_exit_command (w\<lparr>p_exit_timeout_handle := None\<rparr>))
                    \<lparr>p_exit_pending := False, p_exit_stage := None\<rparr>;
             i = length (pair_futs w1);
             w2 = w1\<lparr>p_active := True, p_flow_id := Some flow_id,
                    p_stage := Some await_stop_result, p_candidate := None,
                    p_finalize_future := None, p_search_future := Some i,
                    pair_futs := pair_futs w1 @ [Pending],
                    p_in_engineering := False, p_stop_retries := 0\<rparr>
         in Inr (i, (send_cmd ''stop'' (reset_timeout w2))\<lparr>p_requested_stop := True\<rparr>)))"

text \<open>
  The two guarded resolutions of \<^verbatim>\<open>cancel\<close>, \<^verbatim>\<open>_fail\<close> and
  \<^verbatim>\<open>force_cleanup\<close>: both futures, each if it is pending.
\<close>

definition fail_both :: "exc \<Rightarrow> world \<Rightarrow> world" where
  "fail_both e w =
     (let w1 = w\<lparr>pair_futs := resolve (p_finalize_future w) (Exception e) (pair_futs w)\<rparr>
      in w1\<lparr>pair_futs := resolve (p_search_future w1) (Exception e) (pair_futs w1)\<rparr>)"

text \<open>
  The \<^verbatim>\<open>if .. elif ..\<close> of \<^verbatim>\<open>_on_timeout\<close> and
  \<^verbatim>\<open>_finalize_success\<close>: the finalize future if it is pending, else the search
  future if it is pending.
\<close>

definition resolve_first :: "fut \<Rightarrow> world \<Rightarrow> world" where
  "resolve_first v w =
     (if fut_pending (pair_futs w) (p_finalize_future w)
      then w\<lparr>pair_futs := resolve (p_finalize_future w) v (pair_futs w)\<rparr>
      else w\<lparr>pair_futs := resolve (p_search_future w) v (pair_futs w)\<rparr>)"

definition cancel :: "string \<Rightarrow> bool \<Rightarrow> world \<Rightarrow> world" where
  "cancel reason immediate w =
     (if \<not> p_active w \<and> \<not> immediate then w
      else
        (let e = (if reason = ''timeout'' then PairingTimeoutError reason
                  else PairingCancelledError reason)
         in cleanup True immediate (fail_both e w)))"

definition confirm_candidate :: "string \<Rightarrow> world \<Rightarrow> exc + nat \<times> world" where
  "confirm_candidate flow_id w =
     (if \<not> p_active w \<or> Some flow_id \<noteq> p_flow_id w then Inl (PairingError ''no_session'')
      else if p_candidate w = None then Inl (PairingError ''no_candidate'')
      else if p_stage w \<noteq> Some await_confirmation then Inl (PairingError ''invalid_stage'')
      else if \<not> protocol w then Inl (PairingError ''not_ready'')
      else
        (let i = length (pair_futs w);
             w1 = w\<lparr>p_stage := Some waiting_finalize, p_finalize_future := Some i,
                    pair_futs := pair_futs w @ [Pending]\<rparr>
         in Inr (i, send_cmd ''y'' (reset_timeout w1))))"

definition force_cleanup :: "world \<Rightarrow> world" where
  "force_cleanup w =
     (let w1 = w\<lparr>p_timeout_handle := None, p_exit_timeout_handle := None,
                 p_exit_command_handle := None\<rparr>;
          w2 = w1\<lparr>pair_futs := resolve (p_search_future w1)
                          (Exception (PairingCancelledError ''cancelled'')) (pair_futs w1)\<rparr>;
          w3 = w2\<lparr>pair_futs := resolve (p_finalize_future w2)
                          (Exception (PairingCancelledError ''cancelled'')) (pair_futs w2)\<rparr>
      in w3\<lparr>p_active := False, p_stage := None, p_flow_id := None, p_candidate := None,
            p_search_future := None, p_finalize_future := None,
            p_in_engineering := False, p_requested_stop := False\<rparr>)"

definition fail :: "string \<Rightarrow> world \<Rightarrow> world" where
  "fail reason w = cleanup True False (fail_both (PairingError reason) w)"

definition on_timeout :: "world \<Rightarrow> world" where
  "on_timeout w =
     (if \<not> p_active w then w
      else cleanup True False (resolve_first (Exception (PairingTimeoutError ''timeout'')) w))"

text \<open>The pairing timer firing.\<close>

definition timeout_due :: "world \<Rightarrow> world" where
  "timeout_due w = on_timeout (w\<lparr>p_timeout_handle := Some Spent\<rparr>)"

definition finalize_success :: "bool \<Rightarrow> world \<Rightarrow> world" where
  "finalize_success refresh w =
     (let candidate = p_candidate w;
          w1 = resolve_first (Result (FCandidate candidate)) w;
          w2 = w1\<lparr>p_active := False, p_stage := None, p_flow_id := None,
                 p_search_future := None, p_finalize_future := None\<rparr>
      in if refresh
         then w2\<lparr>p_candidate := candidate, refresh_tasks := Suc (refresh_tasks w2)\<rparr>
         else cleanup True False (w2\<lparr>p_candidate := None\<rparr>))"

text \<open>
  The task \<^verbatim>\<open>_refresh_then_exit\<close>, once its sleep is over
  (\<^verbatim>\<open>_async_refresh_device_list\<close> raises nothing).
\<close>

definition refresh_then_exit :: "world \<Rightarrow> world" where
  "refresh_then_exit w =
     (let w1 = async_refresh_device_list (w\<lparr>refresh_tasks := refresh_tasks w - 1\<rparr>)
      in w1\<lparr>p_candidate := None, p_exit_pending := False, p_exit_stage := None,
            p_in_engineering := False, p_requested_stop := False\<rparr>)"

definition complete_exit_success :: "world \<Rightarrow> world" where
  "complete_exit_success w =
     (cancel_exit_command
        (w\<lparr>p_exit_pending := False, p_exit_stage := None, p_in_engineering := False,
           p_candidate := None, p_exit_timeout_handle := None\<rparr>))
       \<lparr>p_requested_stop := False\<rparr>"

definition handle_exit_result :: "string \<Rightarrow> string \<Rightarrow> world \<Rightarrow> bool \<times> world" where
  "handle_exit_result status code w =
     (if p_exit_stage w = Some await_stt_result then
        (if status = ''OK'' \<and> ok_code code
         then (True, send_exit_command ''wrk'' await_wrk_result (restart_wrk_fallback_timer w))
         else if status = ''NAK'' \<and> code = ''2''
         then (True, send_exit_command ''stt'' await_stt_result w)
         else (True, send_exit_command ''stt'' await_stt_result w))
      else if p_exit_stage w = Some await_wrk_result then
        (if status = ''OK'' \<and> ok_code code then (True, complete_exit_success w)
         else (True, send_exit_command ''wrk'' await_wrk_result (restart_wrk_fallback_timer w)))
      else (False, w))"

text \<open>The timer callback \<^verbatim>\<open>_send_wrk_fallback\<close>, and the fallback timer firing.\<close>

definition send_wrk_fallback :: "world \<Rightarrow> world" where
  "send_wrk_fallback w =
     (if \<not> p_exit_pending w then w
      else send_exit_command ''wrk'' await_wrk_result (restart_wrk_fallback_timer w))"

definition fallback_due :: "world \<Rightarrow> world" where
  "fallback_due w = send_wrk_fallback (w\<lparr>p_exit_timeout_handle := Some Spent\<rparr>)"

definition handle_exit_event :: "pydict \<Rightarrow> world \<Rightarrow> world" where
  "handle_exit_event event w =
     (if p_exit_stage w \<noteq> Some await_stt_result then w
      else (case event_tokens event of
              [] \<Rightarrow> w
            | first # rest \<Rightarrow>
                if upper (strip first) = ''SYSTEM''
                then send_exit_command ''stt'' await_stt_result w
                else w))"

definition handle_event_line :: "string list \<Rightarrow> world \<Rightarrow> bool \<times> world" where
  "handle_event_line tokens w =
     (if tokens = [] then (False, w)
      else
        (case parse_event_tokens tokens of
           (None, attributes) \<Rightarrow> (False, w)
         | (Some device_id, attributes) \<Rightarrow>
             if device_id = [] then (False, w)
             else if p_stage w = Some await_device then
               (if map_of attributes ''NEW'' = Some ''1'' \<and> attr_set attributes ''WFA''
                then
                  (let cand = build_candidate_details w device_id attributes;
                       w1 = reset_timeout
                              (w\<lparr>p_candidate := Some cand, p_stage := Some await_confirmation\<rparr>)
                   in (True, w1\<lparr>pair_futs := resolve (p_search_future w1)
                                     (Result (FCandidate (Some cand))) (pair_futs w1)\<rparr>))
                else (False, w))
             else if p_stage w = Some waiting_finalize
                     \<and> map_option c_device_id (p_candidate w) = Some device_id then
               (if attr_set attributes ''STR'' \<and> attr_set attributes ''SLT''
                then (True, finalize_success True w)
                else if map_of attributes ''NEW'' = Some ''1'' \<and> \<not> attr_set attributes ''WFA''
                then (True, finalize_success False w)
                else (False, w))
             else (False, w)))"

text \<open>The loop of \<^verbatim>\<open>_handle_event_dispatch\<close> over the tokens.\<close>

fun dispatch_tokens :: "string list \<Rightarrow> string list \<Rightarrow> bool \<Rightarrow> world \<Rightarrow> string list \<times> bool \<times> world" where
  "dispatch_tokens [] current consumed w = (current, consumed, w)"
| "dispatch_tokens (token # rest) current consumed w =
     (if upper token = ''EVENT'' then
        (if current \<noteq> []
         then (case handle_event_line current w of
                 (c, w1) \<Rightarrow> dispatch_tokens rest [] (consumed \<or> c) w1)
         else dispatch_tokens rest current consumed w)
      else dispatch_tokens rest (current @ [token]) consumed w)"

definition handle_event_dispatch :: "pydict \<Rightarrow> world \<Rightarrow> bool \<times> world" where
  "handle_event_dispatch event w =
     (let tokens = event_tokens event
      in if ''EVENT'' \<notin> set tokens then handle_event_line tokens w
         else (case dispatch_tokens tokens [] False w of
                 (current, consumed, w1) \<Rightarrow>
                   if current \<noteq> []
                   then (case handle_event_line current w1 of (c, w2) \<Rightarrow> (consumed \<or> c, w2))
                   else (consumed, w1)))"

text \<open>
  \<^verbatim>\<open>_handle_result\<close>. In stage \<open>waiting_finalize\<close> an OK result calls
  \<^verbatim>\<open>self._finalize_success()\<close> without the keyword-only argument
  \<^verbatim>\<open>refresh\<close> the method requires: Python raises TypeError at the call, before
  the method runs. A raise is \<open>Inl\<close>, with the state at that moment.
\<close>

definition handle_result :: "pydict \<Rightarrow> world \<Rightarrow> exc \<times> world + bool \<times> world" where
  "handle_result event w =
     (let status = event_status event; code = event_code event
      in if p_exit_pending w then Inr (handle_exit_result status code w)
         else if p_stage w = Some await_stop_result then
           (if status = ''OK'' \<and> ok_code code then
              Inr (True, send_if_ready ''add''
                           (reset_timeout (w\<lparr>p_stage := Some await_add_result,
                                              p_in_engineering := True\<rparr>)))
            else if status = ''NAK'' \<and> code = ''2'' then
              (if p_stop_retries w \<ge> 3 then Inr (True, fail ''busy'' w)
               else Inr (True, send_if_ready ''stt''
                                 (reset_timeout (w\<lparr>p_stop_retries := p_stop_retries w + 1,
                                                    p_stage := Some await_stop_clear\<rparr>))))
            else if status = ''NAK'' \<and> code = ''0'' then
              (if p_stop_retries w \<ge> 3 then Inr (True, fail ''stop_failed'' w)
               else Inr (True, send_if_ready ''stop''
                                 (reset_timeout (w\<lparr>p_stop_retries := p_stop_retries w + 1,
                                                    p_stage := Some await_stop_result\<rparr>))))
            else Inr (True, fail ''stop_failed'' w))
         else if p_stage w = Some await_stop_clear then
           (if (status = ''OK'' \<or> status = ''NAK'') \<and> ok_code code then
              Inr (True, send_if_ready ''stop''
                           (reset_timeout (w\<lparr>p_stage := Some await_stop_result\<rparr>)))
            else Inr (True, fail ''stop_failed'' w))
         else if p_stage w = Some await_add_result then
           (if status = ''OK''
            then Inr (True, reset_timeout (w\<lparr>p_stage := Some await_device\<rparr>))
            else Inr (True, fail ''add_failed'' w))
         else if p_stage w = Some waiting_finalize then
           (if status = ''OK'' then Inl (TypeError, w)
            else Inr (True, fail ''confirm_failed'' w))
         else Inr (False, w))"

definition p_handle_event :: "pydict \<Rightarrow> world \<Rightarrow> exc \<times> world + bool \<times> world" where
  "p_handle_event event w =
     (if p_exit_pending w \<and> tag_is event ''RESULT''
      then Inr (handle_exit_result (event_status event) (event_code event) w)
      else if p_exit_pending w \<and> tag_is event ''EVENT''
      then Inr (True, handle_exit_event event w)
      else if \<not> p_active w then Inr (False, w)
      else if tag_is event ''RESULT'' then handle_result event w
      else if tag_is event ''EVENT'' then Inr (handle_event_dispatch event w)
      else Inr (False, w))"

section \<open>The dispatcher and the transport\<close>

text \<open>
  \<^verbatim>\<open>_handle_event\<close> of \<^verbatim>\<open>_async_start_bridge\<close>: deletion, parameter update
  and pairing are asked in this order and the first that consumes the event ends the
  dispatch. What follows the RSTATE branch only forwards the event to the entity
  platforms and is left out.
\<close>

definition handle_event :: "pydict \<Rightarrow> world \<Rightarrow> exc \<times> world + world" where
  "handle_event event w =
     (case d_handle_event event w of
        (True, w1) \<Rightarrow> Inr w1
      | (False, w1) \<Rightarrow>
          (case m_handle_event event w1 of
             (True, w2) \<Rightarrow> Inr w2
           | (False, w2) \<Rightarrow>
               (case p_handle_event event w2 of
                  Inl err \<Rightarrow> Inl err
                | Inr (True, w3) \<Rightarrow> Inr w3
                | Inr (False, w3) \<Rightarrow>
                    if tag_is event ''LIST'' then Inr (handle_list_entry event w3)
                    else if tag_is event ''RESULT'' \<and> list_active w3
                    then Inr (process_list_result event w3)
                    else if tag_is event ''RSTATE'' then Inr (handle_hub_rstate event w3)
                    else Inr w3)))"

text \<open>
  One line of \<^verbatim>\<open>AjaxProtocol.data_received\<close>: a blank line is dropped, any other
  is parsed and dispatched, and an exception of the dispatcher is logged and swallowed.
\<close>

definition receive_line :: "string \<Rightarrow> world \<Rightarrow> world" where
  "receive_line line w =
     (let l = strip line
      in if l = [] then w
         else (case handle_event (parse_line l) w of
                 Inr w1 \<Rightarrow> w1
               | Inl (e, w1) \<Rightarrow> w1))"

section \<open>Runs of the integration\<close>

text \<open>
  The data bag as \<^verbatim>\<open>async_setup_entry\<close> builds it, and
  \<^verbatim>\<open>_async_start_bridge\<close>: the protocol object appears, its
  \<^verbatim>\<open>connection_made\<close> sends the three init commands, and a first device list
  refresh is due.
\<close>

definition init_world :: "(string \<rightharpoonup> string) \<Rightarrow> (string \<rightharpoonup> string) \<Rightarrow> (string \<Rightarrow> string) \<Rightarrow> world" where
  "init_world lm lt rid =
     \<lparr>protocol = False, sent = [], hub_device_code = None, devices = [],
      allowed_ids = {}, list_active = False, list_stage = None, list_retries = 0,
      list_pending = None, devices_snapshot = None, list_timeout_task = None,
      list_wrk_handle = None, delayed_stops = 0, retry_sends = 0, refresh_tasks = 0,
      refresh_calls = 0, registry_log = [], lib_model = lm, lib_template = lt,
      reg_id = rid,
      p_active = False, p_flow_id = None, p_stage = None, p_timeout_handle = None,
      p_search_future = None, p_finalize_future = None, p_candidate = None,
      p_in_engineering = False, p_exit_pending = False, p_exit_stage = None,
      p_exit_timeout_handle = None, p_exit_command_handle = None, p_stop_retries = 0,
      p_requested_stop = False, pair_futs = [],
      d_lock = False, d_future = None, d_stage = None, d_device_id = None,
      d_awaited = None, del_futs = [],
      m_lock = False, m_future = None, m_stage = None, m_device_id = None,
      m_command = None, m_awaited = None, par_futs = []\<rparr>"

definition start_bridge :: "world \<Rightarrow> world" where
  "start_bridge w =
     w\<lparr>protocol := True, sent := sent w @ [''ech 0'', ''inf 1'', ''ext 1''],
       refresh_calls := Suc (refresh_calls w)\<rparr>"

definition refresh_call :: "world \<Rightarrow> world" where
  "refresh_call w = async_refresh_device_list (w\<lparr>refresh_calls := refresh_calls w - 1\<rparr>)"

text \<open>
  One step of the event loop: a line arrives, a caller starts, confirms or cancels an
  operation, a timer fires, or a suspended task goes on.
\<close>

inductive step :: "world \<Rightarrow> world \<Rightarrow> bool" where
  step_line: "step w (receive_line line w)"
| step_start_search: "start_search flow_id w = Inr (i, w') \<Longrightarrow> step w w'"
| step_confirm: "confirm_candidate flow_id w = Inr (i, w') \<Longrightarrow> step w w'"
| step_cancel: "step w (cancel reason immediate w)"
| step_force_cleanup: "step w (force_cleanup w)"
| step_pair_timeout: "p_timeout_handle w = Some (Armed ()) \<Longrightarrow> step w (timeout_due w)"
| step_exit_fallback: "p_exit_timeout_handle w = Some (Armed ()) \<Longrightarrow> step w (fallback_due w)"
| step_exit_command:
    "p_exit_command_handle w = Some (Armed command) \<Longrightarrow> step w (exit_command_due command w)"
| step_refresh_then_exit: "0 < refresh_tasks w \<Longrightarrow> step w (refresh_then_exit w)"
| step_delete: "async_delete dev w = Awaiting i w' \<Longrightarrow> step w w'"
| step_delete_timeout:
    "d_awaited w = Some (i, dev) \<Longrightarrow> fut_pending (del_futs w) (Some i) \<Longrightarrow> step w (d_timeout w)"
| step_delete_resume:
    "d_awaited w = Some (i, dev) \<Longrightarrow> \<not> fut_pending (del_futs w) (Some i) \<Longrightarrow> step w (d_resume w)"
| step_set: "async_set dev command w = Awaiting i w' \<Longrightarrow> step w w'"
| step_set_timeout:
    "m_awaited w = Some i \<Longrightarrow> fut_pending (par_futs w) (Some i) \<Longrightarrow> step w (m_timeout w)"
| step_set_resume:
    "m_awaited w = Some i \<Longrightarrow> \<not> fut_pending (par_futs w) (Some i) \<Longrightarrow> step w (m_resume w)"
| step_refresh_call: "0 < refresh_calls w \<Longrightarrow> step w (refresh_call w)"
| step_delayed_stop: "0 < delayed_stops w \<Longrightarrow> step w (delayed_stop w)"
| step_retry_send: "0 < retry_sends w \<Longrightarrow> step w (retry_send w)"
| step_list_wrk: "list_wrk_handle w = Some (Armed ()) \<Longrightarrow> step w (send_wrk_timer w)"
| step_list_timeout: "list_timeout_task w = Some (Armed ()) \<Longrightarrow> step w (device_list_timeout w)"

inductive reachable :: "world \<Rightarrow> bool" where
  reachable_init: "reachable (start_bridge (init_world lm lt rid))"
| reachable_step: "reachable w \<Longrightarrow> step w w' \<Longrightarrow> reachable w'"

text \<open>Feeding a list of events to one handler, oldest first.\<close>

definition d_events :: "pydict list \<Rightarrow> world \<Rightarrow> world" where
  "d_events events w = fold (\<lambda>event w. snd (d_handle_event event w)) events w"

definition list_entries :: "pydict list \<Rightarrow> world \<Rightarrow> world" where
  "list_entries events w = fold handle_list_entry events w"

text \<open>A RESULT event with status OK and an accepted code; one with status NAK and a given code.\<close>

definition result_ok :: "pydict \<Rightarrow> bool" where
  "result_ok event \<longleftrightarrow>
     tag_is event ''RESULT'' \<and> event_status event = ''OK'' \<and> ok_code (event_code event)"

definition result_nak :: "string \<Rightarrow> pydict \<Rightarrow> bool" where
  "result_nak code event \<longleftrightarrow>
     tag_is event ''RESULT'' \<and> event_status event = ''NAK'' \<and> event_code event = code"

text \<open>A connected bridge that knows the device \<open>AB12CD\<close>, with nothing in progress.\<close>

definition demo_world :: world where
  "demo_world =
     (start_bridge (init_world Map.empty Map.empty id))
       \<lparr>devices := [(''AB12CD'', [''type_code'' \<mapsto> VStr ''1'',
                                   ''device_registry_id'' \<mapsto> VStr ''reg-1''])],
        allowed_ids := {''AB12CD''}, refresh_calls := 0\<rparr>"

text \<open>Feeding events to the pairing coordinator, and whole lines to the transport.\<close>

definition p_events :: "pydict list \<Rightarrow> world \<Rightarrow> world" where
  "p_events events w =
     fold (\<lambda>event w. case p_handle_event event w of
                        Inr (consumed, w1) \<Rightarrow> w1
                      | Inl (e, w1) \<Rightarrow> w1) events w"

definition receive_lines :: "string list \<Rightarrow> world \<Rightarrow> world" where
  "receive_lines lines w = fold receive_line lines w"

text \<open>The state a successful call leaves (the state as it was, if the call raised).\<close>

definition after_start :: "exc + nat \<times> world \<Rightarrow> world \<Rightarrow> world" where
  "after_start r w = (case r of Inr (i, w1) \<Rightarrow> w1 | Inl e \<Rightarrow> w)"

definition after_await :: "world started \<Rightarrow> world \<Rightarrow> world" where
  "after_await r w = (case r of Awaiting i w1 \<Rightarrow> w1 | _ \<Rightarrow> w)"


section \<open>Invariants of the pairing coordinator\<close>

text \<open>
  What the invariants below read of a state: the pairing session's activity, stage,
  future references, futures and stop retry counter.
\<close>

definition pair_view :: "world \<Rightarrow> bool \<times> pstage option \<times> nat option \<times> nat option \<times> fut list \<times> nat" where
  "pair_view w =
     (p_active w, p_stage w, p_search_future w, p_finalize_future w, pair_futs w,
      p_stop_retries w)"

definition done_at :: "fut list \<Rightarrow> nat \<Rightarrow> bool" where
  "done_at fs i \<longleftrightarrow> i < length fs \<and> fs ! i \<noteq> Pending"

definition all_done :: "fut list \<Rightarrow> bool" where
  "all_done fs \<longleftrightarrow> list_all (\<lambda>f. f \<noteq> Pending) fs"

text \<open>
  The futures of a state are in order: every future the coordinator no longer refers to
  is resolved; an active coordinator refers to its search future and an inactive one to
  no future; the finalize future exists only in stage \<open>waiting_finalize\<close> and beside
  a resolved search future; and from stage \<open>await_confirmation\<close> on, the search
  future is resolved.
\<close>

definition futs_ok :: "world \<Rightarrow> bool" where
  "futs_ok w \<longleftrightarrow>
     (case pair_view w of
        (active, stage, search, finalize, fs, retries) \<Rightarrow>
          list_all (\<lambda>i. fs ! i \<noteq> Pending \<or> search = Some i \<or> finalize = Some i) [0..<length fs]
          \<and> (case search of None \<Rightarrow> True | Some i \<Rightarrow> i < length fs)
          \<and> (case finalize of
                None \<Rightarrow> True
              | Some j \<Rightarrow> j < length fs \<and> stage = Some waiting_finalize
                         \<and> (case search of None \<Rightarrow> False | Some i \<Rightarrow> fs ! i \<noteq> Pending))
          \<and> (if active then search \<noteq> None else search = None \<and> finalize = None)
          \<and> (if stage = Some await_confirmation \<or> stage = Some waiting_finalize
              then (case search of None \<Rightarrow> True | Some i \<Rightarrow> fs ! i \<noteq> Pending)
              else True))"

text \<open>A step never changes a resolved future: the store only grows, and only pending entries change.\<close>

definition futs_mono :: "fut list \<Rightarrow> fut list \<Rightarrow> bool" where
  "futs_mono fs fs' \<longleftrightarrow>
     length fs \<le> length fs'
     \<and> list_all (\<lambda>i. fs ! i = Pending \<or> fs' ! i = fs ! i) [0..<length fs]"

text \<open>
  A transition ends the session and settles its handles with \<open>v\<close>: afterwards the
  coordinator is inactive, has no stage and refers to no future; the store of futures
  has the length it had; every future that was pending holds \<open>v\<close> and every other
  future is as it was.
\<close>

definition settles :: "fut \<Rightarrow> world \<Rightarrow> world \<Rightarrow> bool" where
  "settles v w w' \<longleftrightarrow>
     \<not> p_active w' \<and> p_stage w' = None
     \<and> p_search_future w' = None \<and> p_finalize_future w' = None
     \<and> length (pair_futs w') = length (pair_futs w)
     \<and> list_all (\<lambda>i. pair_futs w' ! i = (if pair_futs w ! i = Pending then v else pair_futs w ! i))
          [0..<length (pair_futs w)]"

text \<open>While a session is active its timeout timer is armed.\<close>

definition timer_ok :: "world \<Rightarrow> bool" where
  "timer_ok w \<longleftrightarrow> \<not> p_active w \<or> p_timeout_handle w = Some (Armed ())"

text \<open>The state a handler leaves, whether it returned or raised.\<close>

definition result_world :: "exc \<times> world + bool \<times> world \<Rightarrow> world" where
  "result_world r = (case r of Inr (consumed, w) \<Rightarrow> w | Inl (e, w) \<Rightarrow> w)"



text \<open>The two retry counters stay within their limits.\<close>

definition retries_ok :: "world \<Rightarrow> bool" where
  "retries_ok w \<longleftrightarrow> p_stop_retries w \<le> 3 \<and> list_retries w \<le> LIST_MAX_RETRIES"

text \<open>A transition keeps the futures in order and changes no resolved future.\<close>

definition keeps :: "world \<Rightarrow> world \<Rightarrow> bool" where
  "keeps w w' \<longleftrightarrow> (\<not> futs_ok w \<or> futs_ok w') \<and> futs_mono (pair_futs w) (pair_futs w')"

section \<open>A whole device list refresh\<close>

text \<open>The device ids a list of LIST events names, as \<open>handle_list_entry\<close> reads them.\<close>

definition listed_ids :: "pydict list \<Rightarrow> string list" where
  "listed_ids events = filter (\<lambda>d. d \<noteq> []) (map (\<lambda>event. str_upper_of event ''device_id'') events)"

text \<open>
  A refresh from its start to the RESULT that answers \<open>wrk\<close>: the refresh starts, its
  delayed \<open>stop\<close> is sent and answered, \<open>lst\<close> is sent, the LIST events arrive, the
  session moves on to \<open>wrk\<close> (when the watchdog timer fires, or else when the RESULT
  for \<open>lst\<close> arrives), and the RESULT for \<open>wrk\<close> arrives. \<open>before_wrk_result\<close> is
  the state just before that last RESULT.
\<close>

definition before_wrk_result :: "bool \<Rightarrow> pydict \<Rightarrow> pydict list \<Rightarrow> world \<Rightarrow> world" where
  "before_wrk_result by_timer ok events w =
     (let w1 = async_refresh_device_list w;
          w2 = delayed_stop w1;
          w3 = process_list_result ok w2;
          w4 = list_entries events w3
      in if by_timer then send_wrk_timer w4 else process_list_result ok w4)"

definition refresh_run :: "bool \<Rightarrow> pydict \<Rightarrow> pydict list \<Rightarrow> world \<Rightarrow> world" where
  "refresh_run by_timer ok events w =
     process_list_result ok (before_wrk_result by_timer ok events w)"

text \<open>The registry id a device entry holds, if any.\<close>

definition registry_id_of :: "(string \<times> pydict) list \<Rightarrow> string \<Rightarrow> string option" where
  "registry_id_of devs device_id =
     truthy_str ((case map_of devs device_id of None \<Rightarrow> Map.empty | Some m \<Rightarrow> m)
                   ''device_registry_id'')"

text \<open>The device ids collected so far in a refresh.\<close>

definition pending_keys :: "world \<Rightarrow> string set" where
  "pending_keys w = fst ` set (case list_pending w of None \<Rightarrow> [] | Some p \<Rightarrow> p)"

section \<open>A successful pairing, state by state\<close>

text \<open>
  The search starts on a freshly connected bridge, \<open>stop\<close> and \<open>add\<close> are
  acknowledged, the device \<open>AB12CE\<close> shows up as a candidate, the operator confirms,
  and the device reports that it is no longer waiting.
\<close>

definition pair_demo_0 :: world where
  "pair_demo_0 = start_bridge (init_world Map.empty Map.empty id)"

definition pair_demo_1 :: world where
  "pair_demo_1 = after_start (start_search ''flow-1'' pair_demo_0) pair_demo_0"

definition pair_demo_2 :: world where
  "pair_demo_2 = receive_line ''RESULT;OK;0'' pair_demo_1"

definition pair_demo_3 :: world where
  "pair_demo_3 = receive_line ''RESULT;OK;0'' pair_demo_2"

definition pair_demo_4 :: world where
  "pair_demo_4 = receive_line ''EVENT;ab12ce;NEW=1;WFA=1;TYP=5'' pair_demo_3"

definition pair_demo_5 :: world where
  "pair_demo_5 = after_start (confirm_candidate ''flow-1'' pair_demo_4) pair_demo_4"

definition pair_demo_6 :: world where
  "pair_demo_6 = receive_line ''EVENT;ab12ce;NEW=1'' pair_demo_5"

definition demo_candidate :: candidate where
  "demo_candidate =
     \<lparr>c_device_id = ''AB12CE'', c_type_code = Some ''5'', c_firmware = None,
      c_raw = [(''NEW'', ''1''), (''WFA'', ''1''), (''TYP'', ''5'')],
      c_type_name = Some ''5''\<rparr>"

section \<open>Evaluation rules\<close>

lemmas str_defs = upper_def upper_char_def lower_char_def strip_def is_space_def

lemmas parse_defs = parse_line_def parse_line_run_def item_def tag_fields_def line_tag_def
  parse_alarm_def parse_status_def parse_result_def parse_list_def parse_rstate_def
  item_or_none_def upper_item_or_none_def recognized_tags_def

lemmas world_defs = demo_world_def start_bridge_def init_world_def send_cmd_def
  send_if_ready_def


lemma demo_fields [simp]:
  "protocol demo_world" "sent demo_world = [''ech 0'', ''inf 1'', ''ext 1'']"
  "hub_device_code demo_world = None" "fst ` set (devices demo_world) = {''AB12CD''}"
  "\<not> list_active demo_world" "list_stage demo_world = None" "list_retries demo_world = 0"
  "\<not> p_active demo_world" "\<not> p_exit_pending demo_world" "pair_futs demo_world = []"
  "p_stage demo_world = None" "p_stop_retries demo_world = 0"
  "p_search_future demo_world = None" "p_finalize_future demo_world = None"
  "\<not> d_lock demo_world" "d_future demo_world = None" "del_futs demo_world = []"
  "\<not> m_lock demo_world" "m_future demo_world = None" "par_futs demo_world = []"
  "refresh_calls demo_world = 0" "refresh_tasks demo_world = 0"
  by (simp_all add: world_defs)

section \<open>The parser never raises\<close>

lemma split_on_nonempty: "split_on c s \<noteq> []"
  by (induction s) (auto split: list.splits)

lemma item_first: "item (split_on c s) 0 = Inr (hd (split_on c s))"
  using split_on_nonempty[of c s] by (cases "split_on c s") (simp_all add: item_def)

text \<open>
  Claim C8. For every line, \<open>parse_line\<close> returns a record (the run ends in
  \<open>Inr\<close>, never in an escaping exception) and the record has a \<open>tag\<close> entry. When
  the tag is none of the six recognized tags the record is exactly the tag and the raw
  line. When extracting the fields of a recognized tag raises \<open>e\<close>, the record is the
  tag, the raw line and an \<open>error\<close> entry holding the text of \<open>e\<close>.
\<close>

theorem parse_line_total:
  "parse_line_run line = Inr (parse_line line)
   \<and> ''tag'' \<in> dom (parse_line line)
   \<and> (line_tag line \<notin> set recognized_tags \<longrightarrow>
        parse_line line = [''tag'' \<mapsto> VStr (line_tag line), ''raw'' \<mapsto> VStr line])
   \<and> (\<forall>e. tag_fields (line_tag line) (split_on CHR '';'' line) = Inl e \<longrightarrow>
        parse_line line =
          [''tag'' \<mapsto> VStr (line_tag line), ''raw'' \<mapsto> VStr line, ''error'' \<mapsto> VExc e])"
proof -
  let ?parts = "split_on CHR '';'' line"
  let ?base = "[''tag'' \<mapsto> VStr (line_tag line), ''raw'' \<mapsto> VStr line]"
  have run: "parse_line_run line =
      (case tag_fields (line_tag line) ?parts of
         Inr d \<Rightarrow> Inr (?base ++ d)
       | Inl e \<Rightarrow> Inr (?base(''error'' \<mapsto> VExc e)))"
    unfolding parse_line_run_def line_tag_def Let_def item_first by simp
  have total: "parse_line_run line = Inr (parse_line line)"
    by (simp add: parse_line_def run split: sum.splits)
  have tagged: "''tag'' \<in> dom (parse_line line)"
    by (auto simp: parse_line_def run split: sum.splits)
  have bare: "parse_line line = ?base" if "line_tag line \<notin> set recognized_tags"
    using that by (simp add: parse_line_def run tag_fields_def recognized_tags_def)
  have err: "parse_line line = ?base(''error'' \<mapsto> VExc e)"
    if "tag_fields (line_tag line) ?parts = Inl e" for e
    using that by (simp add: parse_line_def run)
  from total tagged bare err show ?thesis by blast
qed

text \<open>
  The line \<open>PING;1\<close> has an unknown tag; the line \<open>alarm;7\<close> lacks the device id
  that \<open>parse_alarm\<close> reads without a length check.
\<close>

theorem parse_line_total_witness:
  "line_tag ''PING;1'' \<notin> set recognized_tags
   \<and> parse_line ''PING;1'' = [''tag'' \<mapsto> VStr ''PING'', ''raw'' \<mapsto> VStr ''PING;1'']
   \<and> tag_fields (line_tag ''alarm;7'') (split_on CHR '';'' ''alarm;7'') = Inl IndexError
   \<and> parse_line ''alarm;7'' =
       [''tag'' \<mapsto> VStr ''ALARM'', ''raw'' \<mapsto> VStr ''alarm;7'', ''error'' \<mapsto> VExc IndexError]"
  using parse_line_total[of "''PING;1''"] parse_line_total[of "''alarm;7''"]
  by (simp add: line_tag_def recognized_tags_def tag_fields_def parse_alarm_def item_def str_defs)

section \<open>Numeric fields of STATUS lines\<close>





section \<open>The deletion session\<close>

lemma resolve_none [simp]: "resolve None v fs = fs"
  by (simp add: resolve_def)

lemma resolve_last [simp]:
  "resolve (Some (length fs)) v (fs @ [Pending]) = fs @ [v]"
  by (simp add: resolve_def fut_pending_def)

lemma fut_pending_last [simp]: "fut_pending (fs @ [Pending]) (Some (length fs))"
  by (simp add: fut_pending_def)

lemma resolve_done [simp]: "v \<noteq> Pending \<Longrightarrow> resolve (Some (length fs)) u (fs @ [v]) = fs @ [v]"
  by (simp add: resolve_def fut_pending_def)

lemma fut_pending_done [simp]: "v \<noteq> Pending \<Longrightarrow> \<not> fut_pending (fs @ [v]) (Some (length fs))"
  by (simp add: fut_pending_def)

lemma sample_events:
  "result_ok (parse_line ''RESULT;OK;0'')"
  "result_ok (parse_line ''RESULT;OK'')"
  "result_nak ''2'' (parse_line ''RESULT;NAK;2'')"
  "result_nak ''1'' (parse_line ''RESULT;NAK;1'')"
  by (simp_all add: result_ok_def result_nak_def tag_is_def event_status_def event_code_def
      get_or_empty_def ok_code_def parse_defs str_defs)

text \<open>
  Claim C10. A call of \<open>async_delete\<close> whose upper-cased device id is empty or is the
  hub's own device code raises the invalid-device error. The check comes first: the
  call raises even while another call holds the lock (where any other call would wait),
  and a raised call leaves the state, the log of sent commands included, as it was.
\<close>

theorem delete_refuses_hub:
  assumes "upper dev = [] \<or> hub_device_code w = Some (upper dev)"
  shows "async_delete dev w = Raised (HomeAssistantError ''Invalid device id'')"
  using assms by (auto simp: async_delete_def Let_def)

theorem delete_refuses_hub_witness:
  "hub_device_code (demo_world\<lparr>hub_device_code := Some ''0A1B2C'', d_lock := True\<rparr>)
     = Some (upper ''0a1b2c'')
   \<and> async_delete ''0a1b2c'' (demo_world\<lparr>hub_device_code := Some ''0A1B2C'', d_lock := True\<rparr>)
     = Raised (HomeAssistantError ''Invalid device id'')
   \<and> async_delete [] demo_world = Raised (HomeAssistantError ''Invalid device id'')"
  using delete_refuses_hub[of "''0a1b2c''"
      "demo_world\<lparr>hub_device_code := Some ''0A1B2C'', d_lock := True\<rparr>"]
    delete_refuses_hub[of "[]" demo_world]
  by (simp add: world_defs str_defs)

lemma demo_delete:
  "async_delete ''ab12cd'' demo_world =
     Awaiting 0 (demo_world\<lparr>d_lock := True, d_stage := Some await_stop,
                   d_device_id := Some ''AB12CD'', d_future := Some 0, del_futs := [Pending],
                   d_awaited := Some (0, ''AB12CD''),
                   sent := [''ech 0'', ''inf 1'', ''ext 1'', ''stop'']\<rparr>)"
proof -
  have up: "upper ''ab12cd'' = ''AB12CD''" by (simp add: str_defs)
  show ?thesis by (simp add: async_delete_def Let_def send_cmd_def up)
qed

lemma async_delete_started:
  assumes "async_delete dev w = Awaiting i w1"
  shows "i = length (del_futs w) \<and> protocol w
     \<and> w1 = send_cmd ''stop''
              (w\<lparr>d_lock := True, d_stage := Some await_stop,
                 d_device_id := Some (upper dev), d_future := Some i,
                 del_futs := del_futs w @ [Pending],
                 d_awaited := Some (i, upper dev)\<rparr>)"
  using assms by (auto simp: async_delete_def Let_def split: if_splits)

text \<open>
  Claim C3, as stated, fails: the claim has the handle resolve successfully whenever the
  three replies are RESULT OK. The session accepts an OK only with the code missing, 0
  or 2. On \<open>demo_world\<close> a deletion of \<open>ab12cd\<close> that is answered by
  \<open>RESULT;OK;1\<close> three times ends at the first of them: it sends \<open>wrk\<close> instead
  of \<open>del AB12CD\<close> and fails the handle with \<open>stop_failed status=OK code=1\<close>.
\<close>

theorem deletion_ok_code_counterexample:
  "(let w1 = after_await (async_delete ''ab12cd'' demo_world) demo_world;
        ok1 = parse_line ''RESULT;OK;1'';
        w2 = d_events [ok1, ok1, ok1] w1
    in async_delete ''ab12cd'' demo_world = Awaiting 0 w1
       \<and> tag_is ok1 ''RESULT'' \<and> event_status ok1 = ''OK'' \<and> event_code ok1 = ''1''
       \<and> sent w1 = sent demo_world @ [''stop'']
       \<and> sent w2 = sent demo_world @ [''stop'', ''wrk'']
       \<and> del_futs w2 = [Exception (HomeAssistantError ''stop_failed status=OK code=1'')]
       \<and> \<not> d_busy w2)"
proof -
  have ev: "tag_is (parse_line ''RESULT;OK;1'') ''RESULT''"
    "event_status (parse_line ''RESULT;OK;1'') = ''OK''"
    "event_code (parse_line ''RESULT;OK;1'') = ''1''"
    by (simp_all add: tag_is_def event_status_def event_code_def get_or_empty_def parse_defs
        str_defs)
  show ?thesis
    unfolding Let_def
    by (simp add: after_await_def demo_delete ev d_events_def d_handle_event_def Let_def
        ok_code_def d_fail_def d_cancel_def fail_reason_def send_if_ready_def send_cmd_def
        d_busy_def resolve_def fut_pending_def)
qed

text \<open>
  Claim C3, amended. Let a deletion of \<open>dev\<close> have started (\<open>stop\<close> is sent and
  the handle \<open>i\<close> is pending). (1) Three RESULT OK events with an accepted code (none,
  0 or 2) make the session send \<open>del <ID>\<close> and \<open>wrk\<close> and resolve the handle
  with True: \<open>stop\<close>, \<open>del <ID>\<close>, \<open>wrk\<close> are all it sent, and the resumed
  caller sends nothing more. (2) RESULT NAK with code 2 at the stop stage makes it send
  \<open>stop\<close> again; the handle stays pending and the session stays at the stop stage.
  (3) RESULT NAK with code 1 at the delete stage makes it send \<open>wrk\<close> once and fail
  the handle with the protocol-failure error \<open>delete_failed status=NAK code=1\<close>.
  (4) RESULT OK with any other code at the stop stage makes it send \<open>wrk\<close> once and
  fail the handle with the protocol-failure error \<open>stop_failed status=OK code=<code>\<close>.
\<close>

theorem deletion_session:
  assumes start: "async_delete dev w = Awaiting i w1"
  shows "(result_ok e1 \<and> result_ok e2 \<and> result_ok e3 \<longrightarrow>
            sent (d_events [e1, e2, e3] w1) = sent w @ [''stop'', ''del '' @ upper dev, ''wrk'']
          \<and> del_futs (d_events [e1, e2, e3] w1) ! i = Result FTrue
          \<and> sent (d_resume (d_events [e1, e2, e3] w1)) = sent (d_events [e1, e2, e3] w1))
       \<and> (result_nak ''2'' e1 \<longrightarrow>
            sent (d_events [e1] w1) = sent w @ [''stop'', ''stop'']
          \<and> del_futs (d_events [e1] w1) ! i = Pending
          \<and> d_future (d_events [e1] w1) = Some i
          \<and> d_stage (d_events [e1] w1) = Some await_stop)
       \<and> (result_ok e1 \<and> result_nak ''1'' e2 \<longrightarrow>
            sent (d_events [e1, e2] w1) = sent w @ [''stop'', ''del '' @ upper dev, ''wrk'']
          \<and> del_futs (d_events [e1, e2] w1) ! i =
              Exception (HomeAssistantError ''delete_failed status=NAK code=1'')
          \<and> d_future (d_events [e1, e2] w1) = None
          \<and> sent (d_resume (d_events [e1, e2] w1)) = sent (d_events [e1, e2] w1))
       \<and> (tag_is e1 ''RESULT'' \<and> event_status e1 = ''OK'' \<and> \<not> ok_code (event_code e1) \<longrightarrow>
            sent (d_events [e1] w1) = sent w @ [''stop'', ''wrk'']
          \<and> del_futs (d_events [e1] w1) ! i =
              Exception (HomeAssistantError (''stop_failed status=OK code='' @ event_code e1))
          \<and> d_future (d_events [e1] w1) = None
          \<and> sent (d_resume (d_events [e1] w1)) = sent (d_events [e1] w1))"
proof -
  note st = async_delete_started[OF start]
  have i: "i = length (del_futs w)" and pr: "protocol w" using st by simp_all
  have w1: "w1 = send_cmd ''stop''
              (w\<lparr>d_lock := True, d_stage := Some await_stop,
                 d_device_id := Some (upper dev), d_future := Some i,
                 del_futs := del_futs w @ [Pending],
                 d_awaited := Some (i, upper dev)\<rparr>)" using st by simp
  show ?thesis
    unfolding w1 i
    using pr
    by (simp add: d_events_def d_handle_event_def result_ok_def result_nak_def Let_def
        send_cmd_def send_if_ready_def del_command_def d_fail_def d_cancel_def fail_reason_def
        d_resume_def d_finally_def d_remove_device_def ok_code_def split: option.splits)
qed

text \<open>
  The device \<open>ab12cd\<close> of \<open>demo_world\<close>, with the lines \<open>RESULT;OK;0\<close>,
  \<open>RESULT;OK\<close>, \<open>RESULT;NAK;2\<close>, \<open>RESULT;NAK;1\<close> and \<open>RESULT;OK;1\<close> as
  the parser reads them.
\<close>

theorem deletion_session_witness:
  "async_delete ''ab12cd'' demo_world =
     Awaiting 0 (send_cmd ''stop''
       (demo_world\<lparr>d_lock := True, d_stage := Some await_stop, d_device_id := Some ''AB12CD'',
          d_future := Some 0, del_futs := [Pending], d_awaited := Some (0, ''AB12CD'')\<rparr>))
   \<and> result_ok (parse_line ''RESULT;OK;0'') \<and> result_ok (parse_line ''RESULT;OK'')
   \<and> result_nak ''2'' (parse_line ''RESULT;NAK;2'') \<and> result_nak ''1'' (parse_line ''RESULT;NAK;1'')
   \<and> sent (d_events [parse_line ''RESULT;OK;0'', parse_line ''RESULT;OK'', parse_line ''RESULT;OK;0'']
        (send_cmd ''stop''
          (demo_world\<lparr>d_lock := True, d_stage := Some await_stop, d_device_id := Some ''AB12CD'',
             d_future := Some 0, del_futs := [Pending], d_awaited := Some (0, ''AB12CD'')\<rparr>)))
      = [''ech 0'', ''inf 1'', ''ext 1'', ''stop'', ''del AB12CD'', ''wrk'']
   \<and> sent (d_events [parse_line ''RESULT;NAK;2'']
        (send_cmd ''stop''
          (demo_world\<lparr>d_lock := True, d_stage := Some await_stop, d_device_id := Some ''AB12CD'',
             d_future := Some 0, del_futs := [Pending], d_awaited := Some (0, ''AB12CD'')\<rparr>)))
      = [''ech 0'', ''inf 1'', ''ext 1'', ''stop'', ''stop'']
   \<and> del_futs (d_events [parse_line ''RESULT;OK;0'', parse_line ''RESULT;NAK;1'']
        (send_cmd ''stop''
          (demo_world\<lparr>d_lock := True, d_stage := Some await_stop, d_device_id := Some ''AB12CD'',
             d_future := Some 0, del_futs := [Pending], d_awaited := Some (0, ''AB12CD'')\<rparr>))) ! 0
      = Exception (HomeAssistantError ''delete_failed status=NAK code=1'')
   \<and> tag_is (parse_line ''RESULT;OK;1'') ''RESULT''
   \<and> event_status (parse_line ''RESULT;OK;1'') = ''OK''
   \<and> \<not> ok_code (event_code (parse_line ''RESULT;OK;1''))
   \<and> del_futs (d_events [parse_line ''RESULT;OK;1'']
        (send_cmd ''stop''
          (demo_world\<lparr>d_lock := True, d_stage := Some await_stop, d_device_id := Some ''AB12CD'',
             d_future := Some 0, del_futs := [Pending], d_awaited := Some (0, ''AB12CD'')\<rparr>))) ! 0
      = Exception (HomeAssistantError ''stop_failed status=OK code=1'')"
proof -
  have ev: "tag_is (parse_line ''RESULT;OK;1'') ''RESULT''"
    "event_status (parse_line ''RESULT;OK;1'') = ''OK''"
    "event_code (parse_line ''RESULT;OK;1'') = ''1''"
    by (simp_all add: tag_is_def event_status_def event_code_def get_or_empty_def parse_defs
        str_defs)
  have st: "async_delete ''ab12cd'' demo_world =
     Awaiting 0 (send_cmd ''stop''
       (demo_world\<lparr>d_lock := True, d_stage := Some await_stop, d_device_id := Some ''AB12CD'',
          d_future := Some 0, del_futs := [Pending], d_awaited := Some (0, ''AB12CD'')\<rparr>))"
    by (simp add: async_delete_def world_defs str_defs Let_def)
  have up: "upper ''ab12cd'' = ''AB12CD''" by (simp add: str_defs)
  have s0: "sent demo_world = [''ech 0'', ''inf 1'', ''ext 1'']" by (simp add: world_defs)
  show ?thesis
    using deletion_session[OF st, of "parse_line ''RESULT;OK;0''" "parse_line ''RESULT;OK''"
        "parse_line ''RESULT;OK;0''"]
      deletion_session[OF st, of "parse_line ''RESULT;NAK;2''"]
      deletion_session[OF st, of "parse_line ''RESULT;OK;0''" "parse_line ''RESULT;NAK;1''"]
      deletion_session[OF st, of "parse_line ''RESULT;OK;1''"]
      sample_events st
    by (simp add: up s0 ev ok_code_def)
qed

section \<open>Pairing: the hard reset and the stop retries\<close>

lemma start_search_started:
  assumes "start_search flow_id w = Inr (i, w1)"
  shows "\<not> p_active w \<and> \<not> p_exit_pending w \<and> \<not> list_active w \<and> protocol w
     \<and> i = length (pair_futs w)
     \<and> w1 = w\<lparr>p_exit_timeout_handle := None, p_exit_command_handle := None,
              p_exit_pending := False, p_exit_stage := None,
              p_active := True, p_flow_id := Some flow_id,
              p_stage := Some await_stop_result, p_candidate := None,
              p_finalize_future := None, p_search_future := Some (length (pair_futs w)),
              pair_futs := pair_futs w @ [Pending],
              p_in_engineering := False, p_stop_retries := 0,
              p_timeout_handle := Some (Armed ()), sent := sent w @ [''stop''],
              p_requested_stop := True\<rparr>"
  using assms
  by (auto simp: start_search_def Let_def cancel_exit_command_def reset_timeout_def send_cmd_def
      split: if_splits)

text \<open>
  Claim C7: the code does not do what the claim says. \<open>force_cleanup\<close> sends nothing,
  drops the three timers and fails the pending handle, but it leaves \<open>exit_pending\<close>
  and \<open>exit_stage\<close> as they are. After \<open>start_search\<close>, \<open>cancel\<close> (which enters the
  exit overlay) and \<open>force_cleanup\<close> (the order \<open>async_unload_entry\<close> calls them in),
  the exit overlay is still pending with no timer left to end it, and the next
  \<open>start_search\<close> is rejected as busy.
\<close>

theorem force_cleanup_leaves_exit_pending:
  "(let w1 = after_start (start_search ''flow-1'' demo_world) demo_world;
        w2 = cancel ''cancelled'' False w1;
        w3 = force_cleanup w2
    in p_active w1 \<and> pair_futs w1 = [Pending]
       \<and> p_exit_pending w2 \<and> p_exit_command_handle w2 = Some (Armed ''stt'')
       \<and> sent w3 = sent w1
       \<and> p_timeout_handle w3 = None \<and> p_exit_timeout_handle w3 = None
       \<and> p_exit_command_handle w3 = None
       \<and> pair_futs w3 = [Exception (PairingCancelledError ''cancelled'')]
       \<and> \<not> p_active w3
       \<and> p_exit_pending w3 \<and> p_exit_stage w3 = Some await_stt_result
       \<and> start_search ''flow-2'' w3 = Inl (PairingError ''busy''))"
  by (simp add: Let_def after_start_def start_search_def cancel_def force_cleanup_def
      cleanup_def fail_both_def send_exit_command_def cancel_exit_command_def reset_timeout_def
      early_stage_def resolve_def fut_pending_def world_defs)

lemma result_nak_tags:
  assumes "result_nak c e"
  shows "tag_is e ''RESULT''" "\<not> tag_is e ''EVENT''" "event_status e = ''NAK''" "event_code e = c"
  using assms by (auto simp: result_nak_def tag_is_def)

lemma nak2_at_stop:
  assumes "result_nak ''2'' e" "p_active w" "\<not> p_exit_pending w"
    "p_stage w = Some await_stop_result" "p_stop_retries w < 3" "protocol w"
  shows "p_handle_event e w =
     Inr (True, w\<lparr>p_stop_retries := Suc (p_stop_retries w), p_stage := Some await_stop_clear,
                  p_timeout_handle := Some (Armed ()), sent := sent w @ [''stt'']\<rparr>)"
  using assms(2-) result_nak_tags[OF assms(1)]
  by (simp add: p_handle_event_def handle_result_def Let_def ok_code_def reset_timeout_def
      send_if_ready_def send_cmd_def)

lemma nak2_at_clear:
  assumes "result_nak ''2'' e" "p_active w" "\<not> p_exit_pending w"
    "p_stage w = Some await_stop_clear" "protocol w"
  shows "p_handle_event e w =
     Inr (True, w\<lparr>p_stage := Some await_stop_result,
                  p_timeout_handle := Some (Armed ()), sent := sent w @ [''stop'']\<rparr>)"
  using assms(2-) result_nak_tags[OF assms(1)]
  by (simp add: p_handle_event_def handle_result_def Let_def ok_code_def reset_timeout_def
      send_if_ready_def send_cmd_def)

lemma nak2_at_bound:
  assumes "result_nak ''2'' e" "p_active w" "\<not> p_exit_pending w"
    "p_stage w = Some await_stop_result" "3 \<le> p_stop_retries w"
  shows "p_handle_event e w = Inr (True, fail ''busy'' w)"
  using assms(2-) result_nak_tags[OF assms(1)]
  by (simp add: p_handle_event_def handle_result_def Let_def ok_code_def)

lemma fail_effect:
  assumes "protocol w" "p_requested_stop w"
  shows "fail reason w =
     w\<lparr>pair_futs := resolve (p_search_future w) (Exception (PairingError reason))
                      (resolve (p_finalize_future w) (Exception (PairingError reason)) (pair_futs w)),
       p_timeout_handle := None, p_exit_pending := True,
       p_exit_timeout_handle := Some (Armed ()), p_exit_stage := Some await_stt_result,
       p_exit_command_handle := Some (Armed ''stt''),
       p_active := False, p_stage := None, p_flow_id := None, p_candidate := None,
       p_search_future := None, p_finalize_future := None\<rparr>"
  using assms
  by (simp add: fail_def fail_both_def cleanup_def Let_def send_exit_command_def
      cancel_exit_command_def)

lemma demo_start:
  "start_search flow_id demo_world =
     Inr (0, demo_world\<lparr>p_exit_timeout_handle := None, p_exit_command_handle := None,
              p_exit_pending := False, p_exit_stage := None,
              p_active := True, p_flow_id := Some flow_id,
              p_stage := Some await_stop_result, p_candidate := None,
              p_finalize_future := None, p_search_future := Some 0,
              pair_futs := [Pending],
              p_in_engineering := False, p_stop_retries := 0,
              p_timeout_handle := Some (Armed ()),
              sent := [''ech 0'', ''inf 1'', ''ext 1'', ''stop''],
              p_requested_stop := True\<rparr>)"
  by (simp add: start_search_def Let_def cancel_exit_command_def reset_timeout_def send_cmd_def)

text \<open>
  Four RESULT NAK replies with code 2 in a row do not end the session (claim C4 as
  stated): two of them answer \<open>stop\<close> and two answer the \<open>stt\<close> the session sends in
  between, so after the fourth the session is still active at the stop stage with two
  retries counted and its handle pending.
\<close>

theorem four_naks_counterexample:
  "(let w1 = after_start (start_search ''flow-1'' demo_world) demo_world;
        nak = parse_line ''RESULT;NAK;2'';
        w5 = p_events [nak, nak, nak, nak] w1
    in result_nak ''2'' nak
       \<and> p_active w1 \<and> pair_futs w1 = [Pending]
       \<and> p_active w5 \<and> p_stage w5 = Some await_stop_result \<and> p_stop_retries w5 = 2
       \<and> pair_futs w5 = [Pending]
       \<and> sent w5 = sent w1 @ [''stt'', ''stop'', ''stt'', ''stop''])"
  by (simp add: Let_def after_start_def demo_start p_events_def sample_events nak2_at_stop
      nak2_at_clear)

section \<open>What each operation leaves alone\<close>

lemma pv_basic [simp]:
  "pair_view (send_cmd c w) = pair_view w"
  "pair_view (send_if_ready c w) = pair_view w"
  "pair_view (reset_timeout w) = pair_view w"
  "pair_view (cancel_exit_command w) = pair_view w"
  "pair_view (restart_wrk_fallback_timer w) = pair_view w"
  "pair_view (send_exit_command c st w) = pair_view w"
  "pair_view (exit_send c w) = pair_view w"
  "pair_view (exit_command_due c w) = pair_view w"
  "pair_view (complete_exit_success w) = pair_view w"
  "pair_view (send_wrk_fallback w) = pair_view w"
  "pair_view (fallback_due w) = pair_view w"
  "pair_view (schedule_wrk_cancel w) = pair_view w"
  "pair_view (schedule_wrk_send w) = pair_view w"
  "pair_view (send_wrk_timer w) = pair_view w"
  "pair_view (async_refresh_device_list w) = pair_view w"
  "pair_view (delayed_stop w) = pair_view w"
  "pair_view (retry_send w) = pair_view w"
  "pair_view (refresh_call w) = pair_view w"
  "pair_view (refresh_then_exit w) = pair_view w"
  "pair_view (handle_hub_rstate e w) = pair_view w"
  by (simp_all add: pair_view_def send_cmd_def send_if_ready_def reset_timeout_def
      cancel_exit_command_def restart_wrk_fallback_timer_def send_exit_command_def
      exit_send_def exit_command_due_def complete_exit_success_def send_wrk_fallback_def
      fallback_due_def schedule_wrk_cancel_def schedule_wrk_send_def send_wrk_timer_def
      async_refresh_device_list_def delayed_stop_def retry_send_def refresh_call_def
      refresh_then_exit_def handle_hub_rstate_def Let_def split: option.splits)

lemma pv_exit [simp]:
  "pair_view (snd (handle_exit_result st c w)) = pair_view w"
  "pair_view (handle_exit_event e w) = pair_view w"
  by (simp_all add: handle_exit_result_def handle_exit_event_def split: list.splits)

lemma pv_deletion [simp]:
  "pair_view (d_cancel w) = pair_view w"
  "pair_view (d_fail r w) = pair_view w"
  "pair_view (d_finally w) = pair_view w"
  "pair_view (d_timeout w) = pair_view w"
  "pair_view (d_remove_device dev w) = pair_view w"
  "pair_view (d_resume w) = pair_view w"
  "pair_view (snd (d_handle_event e w)) = pair_view w"
  by (simp_all add: pair_view_def d_cancel_def d_fail_def d_finally_def d_timeout_def
      d_remove_device_def d_resume_def d_handle_event_def send_if_ready_def send_cmd_def
      Let_def split: option.splits prod.splits)

lemma pv_parameter [simp]:
  "pair_view (m_cancel w) = pair_view w"
  "pair_view (m_fail r w) = pair_view w"
  "pair_view (m_finally w) = pair_view w"
  "pair_view (m_timeout w) = pair_view w"
  "pair_view (m_resume w) = pair_view w"
  "pair_view (snd (m_handle_event e w)) = pair_view w"
  by (simp_all add: pair_view_def m_cancel_def m_fail_def m_finally_def m_timeout_def
      m_resume_def m_handle_event_def send_if_ready_def send_cmd_def
      Let_def split: option.splits prod.splits)

lemma pv_async_delete: "async_delete dev w = Awaiting i w1 \<Longrightarrow> pair_view w1 = pair_view w"
  by (auto simp: async_delete_def Let_def pair_view_def send_cmd_def split: if_splits)

lemma pv_async_set: "async_set dev c w = Awaiting i w1 \<Longrightarrow> pair_view w1 = pair_view w"
  by (auto simp: async_set_def Let_def pair_view_def send_cmd_def split: if_splits)

lemma pv_handle_list_entry [simp]: "pair_view (handle_list_entry e w) = pair_view w"
  by (simp add: handle_list_entry_def Let_def pair_view_def schedule_wrk_send_def
      split: option.splits)

lemma pv_store_devices [simp]: "pair_view (store_devices snap new w) = pair_view w"
  by (induction snap new w rule: store_devices.induct) (simp_all add: Let_def pair_view_def)

lemma pv_remove_devices [simp]: "pair_view (remove_devices snap ids w) = pair_view w"
  by (induction snap ids w rule: remove_devices.induct)
     (simp_all add: Let_def pair_view_def split: option.splits)

lemma pv_finalize_device_list [simp]: "pair_view (finalize_device_list ok w) = pair_view w"
proof -
  have "pair_view (w'\<lparr>allowed_ids := a, list_active := b, list_stage := c, list_retries := d\<rparr>)
      = pair_view w'" for w' a b c d
    by (simp add: pair_view_def)
  moreover have "pair_view (w\<lparr>list_timeout_task := None, list_wrk_handle := None,
      list_pending := None, devices_snapshot := None, devices := []\<rparr>) = pair_view w"
    by (simp add: pair_view_def)
  ultimately show ?thesis
    by (simp add: finalize_device_list_def Let_def schedule_wrk_cancel_def)
qed

lemma pv_process_list_result [simp]: "pair_view (process_list_result e w) = pair_view w"
proof -
  have upd: "pair_view (w'\<lparr>list_retries := a\<rparr>) = pair_view w'"
    "pair_view (w'\<lparr>list_stage := b\<rparr>) = pair_view w'"
    "pair_view (w'\<lparr>retry_sends := c\<rparr>) = pair_view w'"
    "pair_view (w'\<lparr>list_retries := a, list_stage := b\<rparr>) = pair_view w'" for w' a b c
    by (simp_all add: pair_view_def)
  show ?thesis by (simp add: process_list_result_def Let_def upd)
qed

lemma pv_device_list_timeout [simp]: "pair_view (device_list_timeout w) = pair_view w"
proof -
  have upd: "pair_view (w'\<lparr>list_timeout_task := a\<rparr>) = pair_view w'" for w' a
    by (simp add: pair_view_def)
  show ?thesis by (simp add: device_list_timeout_def Let_def upd)
qed

section \<open>The pairing operations on the view\<close>

lemma lr_basic [simp]:
  "list_retries (send_cmd c w) = list_retries w"
  "list_retries (send_if_ready c w) = list_retries w"
  "list_retries (reset_timeout w) = list_retries w"
  "list_retries (cancel_exit_command w) = list_retries w"
  "list_retries (restart_wrk_fallback_timer w) = list_retries w"
  "list_retries (send_exit_command c st w) = list_retries w"
  "list_retries (exit_send c w) = list_retries w"
  "list_retries (exit_command_due c w) = list_retries w"
  "list_retries (complete_exit_success w) = list_retries w"
  "list_retries (send_wrk_fallback w) = list_retries w"
  "list_retries (fallback_due w) = list_retries w"
  "list_retries (schedule_wrk_cancel w) = list_retries w"
  "list_retries (schedule_wrk_send w) = list_retries w"
  "list_retries (send_wrk_timer w) = list_retries w"
  "list_retries (delayed_stop w) = list_retries w"
  "list_retries (retry_send w) = list_retries w"
  "list_retries (handle_hub_rstate e w) = list_retries w"
  "list_retries (handle_list_entry e w) = list_retries w"
  "list_retries (snd (handle_exit_result status c w)) = list_retries w"
  "list_retries (handle_exit_event e w) = list_retries w"
  by (simp_all add: send_cmd_def send_if_ready_def reset_timeout_def
      cancel_exit_command_def restart_wrk_fallback_timer_def send_exit_command_def
      exit_send_def exit_command_due_def complete_exit_success_def send_wrk_fallback_def
      fallback_due_def schedule_wrk_cancel_def schedule_wrk_send_def send_wrk_timer_def
      delayed_stop_def retry_send_def handle_hub_rstate_def handle_list_entry_def
      handle_exit_result_def handle_exit_event_def Let_def split: option.splits list.splits)

lemma lr_sessions [simp]:
  "list_retries (d_fail r w) = list_retries w"
  "list_retries (d_finally w) = list_retries w"
  "list_retries (d_timeout w) = list_retries w"
  "list_retries (d_resume w) = list_retries w"
  "list_retries (snd (d_handle_event e w)) = list_retries w"
  "list_retries (m_fail r w) = list_retries w"
  "list_retries (m_finally w) = list_retries w"
  "list_retries (m_timeout w) = list_retries w"
  "list_retries (m_resume w) = list_retries w"
  "list_retries (snd (m_handle_event e w)) = list_retries w"
  by (simp_all add: d_cancel_def d_fail_def d_finally_def d_timeout_def
      d_remove_device_def d_resume_def d_handle_event_def m_cancel_def m_fail_def m_finally_def
      m_timeout_def m_resume_def m_handle_event_def send_if_ready_def send_cmd_def
      Let_def split: option.splits prod.splits)

lemma lr_async_delete: "async_delete dev w = Awaiting i w1 \<Longrightarrow> list_retries w1 = list_retries w"
  by (auto simp: async_delete_def Let_def send_cmd_def split: if_splits)

lemma lr_async_set: "async_set dev c w = Awaiting i w1 \<Longrightarrow> list_retries w1 = list_retries w"
  by (auto simp: async_set_def Let_def send_cmd_def split: if_splits)

lemma fail_both_eq:
  "fail_both e w =
     w\<lparr>pair_futs := resolve (p_search_future w) (Exception e)
                      (resolve (p_finalize_future w) (Exception e) (pair_futs w))\<rparr>"
  by (simp add: fail_both_def Let_def)

lemma resolve_first_eq:
  "resolve_first v w =
     w\<lparr>pair_futs := (if fut_pending (pair_futs w) (p_finalize_future w)
                      then resolve (p_finalize_future w) v (pair_futs w)
                      else resolve (p_search_future w) v (pair_futs w))\<rparr>"
  by (simp add: resolve_first_def)

lemma cleanup_view [simp]:
  "pair_view (cleanup a b w) = (False, None, None, None, pair_futs w, p_stop_retries w)"
  "list_retries (cleanup a b w) = list_retries w"
  by (simp_all add: cleanup_def Let_def pair_view_def send_exit_command_def
      cancel_exit_command_def)

lemma terminal_views [simp]:
  "pair_view (fail r w) =
     (False, None, None, None, pair_futs (fail_both (PairingError r) w), p_stop_retries w)"
  "pair_view (force_cleanup w) =
     (False, None, None, None,
      resolve (p_finalize_future w) (Exception (PairingCancelledError ''cancelled''))
        (resolve (p_search_future w) (Exception (PairingCancelledError ''cancelled''))
           (pair_futs w)),
      p_stop_retries w)"
  "pair_view (finalize_success refresh w) =
     (False, None, None, None,
      pair_futs (resolve_first (Result (FCandidate (p_candidate w))) w), p_stop_retries w)"
  "list_retries (fail r w) = list_retries w"
  "list_retries (force_cleanup w) = list_retries w"
  "list_retries (finalize_success refresh w) = list_retries w"
  by (simp_all add: fail_def force_cleanup_def finalize_success_def Let_def fail_both_eq
      resolve_first_eq)
     (simp_all add: pair_view_def)?

lemma cancel_view:
  "pair_view (cancel reason immediate w) =
     (if \<not> p_active w \<and> \<not> immediate then pair_view w
      else (False, None, None, None,
            pair_futs (fail_both (if reason = ''timeout'' then PairingTimeoutError reason
                                  else PairingCancelledError reason) w),
            p_stop_retries w))"
  "list_retries (cancel reason immediate w) = list_retries w"
  by (simp_all add: cancel_def Let_def fail_both_eq) (simp_all add: pair_view_def)?

lemma on_timeout_view:
  "pair_view (on_timeout w) =
     (if \<not> p_active w then pair_view w
      else (False, None, None, None,
            pair_futs (resolve_first (Exception (PairingTimeoutError ''timeout'')) w),
            p_stop_retries w))"
  "list_retries (on_timeout w) = list_retries w"
  "pair_view (timeout_due w) = pair_view (on_timeout w)"
  "list_retries (timeout_due w) = list_retries w"
  by (simp_all add: on_timeout_def timeout_due_def resolve_first_eq)
     (simp_all add: pair_view_def)?

lemma start_search_view:
  assumes "start_search flow_id w = Inr (i, w1)"
  shows "pair_view w1 =
           (True, Some await_stop_result, Some (length (pair_futs w)), None,
            pair_futs w @ [Pending], 0)"
    and "list_retries w1 = list_retries w" and "\<not> p_active w"
  using start_search_started[OF assms] by (simp_all add: pair_view_def)

lemma confirm_candidate_view:
  assumes "confirm_candidate flow_id w = Inr (i, w1)"
  shows "pair_view w1 =
           (True, Some waiting_finalize, p_search_future w, Some (length (pair_futs w)),
            pair_futs w @ [Pending], p_stop_retries w)"
    and "list_retries w1 = list_retries w" and "p_active w"
    and "p_stage w = Some await_confirmation"
  using assms
  by (auto simp: confirm_candidate_def Let_def pair_view_def reset_timeout_def send_cmd_def
      split: if_splits)

section \<open>The retry counters are bounded\<close>

lemma retries_ok_view:
  "retries_ok w \<longleftrightarrow>
     snd (snd (snd (snd (snd (pair_view w))))) \<le> 3 \<and> list_retries w \<le> LIST_MAX_RETRIES"
  by (simp add: retries_ok_def pair_view_def)

lemma lr_finalize [simp]: "list_retries (finalize_device_list ok w) = 0"
  by (simp add: finalize_device_list_def Let_def)

lemma lr_refresh:
  "list_retries (async_refresh_device_list w) \<le> list_retries w"
  "list_retries (device_list_timeout w) \<le> list_retries w"
  "list_retries (refresh_call w) \<le> list_retries w"
  "list_retries (refresh_then_exit w) \<le> list_retries w"
  by (simp_all add: async_refresh_device_list_def device_list_timeout_def refresh_call_def
      refresh_then_exit_def Let_def)

lemma lr_process_list_result:
  "list_retries w \<le> LIST_MAX_RETRIES \<Longrightarrow>
   list_retries (process_list_result e w) \<le> LIST_MAX_RETRIES"
  by (simp add: process_list_result_def Let_def schedule_wrk_cancel_def)

lemma retries_ok_handle_result:
  "retries_ok w \<Longrightarrow> retries_ok (result_world (handle_result e w))"
  by (simp add: handle_result_def Let_def result_world_def retries_ok_view case_prod_unfold)
     (simp add: pair_view_def)

lemma handle_event_line_retries:
  "snd (snd (snd (snd (snd (pair_view (snd (handle_event_line tokens w))))))) = p_stop_retries w"
  "list_retries (snd (handle_event_line tokens w)) = list_retries w"
  by (simp_all add: handle_event_line_def Let_def reset_timeout_def split: option.splits prod.splits)
     (simp_all add: pair_view_def)?

lemma retries_ok_handle_event_line:
  "retries_ok w \<Longrightarrow> retries_ok (snd (handle_event_line tokens w))"
  by (simp add: retries_ok_view handle_event_line_retries) (simp add: pair_view_def)

lemma retries_ok_dispatch_tokens:
  "retries_ok w \<Longrightarrow> retries_ok (snd (snd (dispatch_tokens tokens current consumed w)))"
proof (induction tokens current consumed w rule: dispatch_tokens.induct)
  case (1 current consumed w)
  then show ?case by simp
next
  case (2 token rest current consumed w)
  show ?case
  proof (cases "upper token = ''EVENT'' \<and> current \<noteq> []")
    case True
    obtain c w1 where h: "handle_event_line current w = (c, w1)" by (cases "handle_event_line current w")
    have "retries_ok w1" using retries_ok_handle_event_line[OF "2.prems", of current] h by simp
    with "2.IH"(1)[OF _ _ h[symmetric]] True h show ?thesis by simp
  next
    case False
    with 2 show ?thesis by auto
  qed
qed

lemma retries_ok_handle_event_dispatch:
  "retries_ok w \<Longrightarrow> retries_ok (snd (handle_event_dispatch e w))"
  using retries_ok_dispatch_tokens[of w "event_tokens e" "[]" False]
    retries_ok_handle_event_line
  by (auto simp: handle_event_dispatch_def Let_def split: prod.splits)
     (metis retries_ok_handle_event_line snd_conv)+

lemma retries_ok_p_handle_event:
  "retries_ok w \<Longrightarrow> retries_ok (result_world (p_handle_event e w))"
  using retries_ok_handle_result[of w e] retries_ok_handle_event_dispatch[of w e]
  by (simp add: p_handle_event_def result_world_def case_prod_unfold)
     (simp add: retries_ok_view)

lemma handle_event_alt:
  "handle_event e w =
     (if fst (d_handle_event e w) then Inr (snd (d_handle_event e w))
      else if fst (m_handle_event e (snd (d_handle_event e w)))
      then Inr (snd (m_handle_event e (snd (d_handle_event e w))))
      else (case p_handle_event e (snd (m_handle_event e (snd (d_handle_event e w)))) of
              Inl err \<Rightarrow> Inl err
            | Inr r \<Rightarrow>
                if fst r then Inr (snd r)
                else if tag_is e ''LIST'' then Inr (handle_list_entry e (snd r))
                else if tag_is e ''RESULT'' \<and> list_active (snd r)
                then Inr (process_list_result e (snd r))
                else if tag_is e ''RSTATE'' then Inr (handle_hub_rstate e (snd r))
                else Inr (snd r)))"
  by (simp add: handle_event_def split: prod.splits bool.splits sum.splits)

lemma retries_ok_handle_event:
  assumes "retries_ok w"
  shows "retries_ok (case handle_event e w of Inr w1 \<Rightarrow> w1 | Inl (x, w1) \<Rightarrow> w1)"
proof -
  have d: "retries_ok (snd (d_handle_event e w))"
    using assms by (simp add: retries_ok_view)
  let ?w2 = "snd (m_handle_event e (snd (d_handle_event e w)))"
  have m: "retries_ok ?w2"
    using d by (simp add: retries_ok_view)
  have p: "retries_ok (result_world (p_handle_event e ?w2))"
    using m by (rule retries_ok_p_handle_event)
  have l: "retries_ok (handle_list_entry e w')" "retries_ok (process_list_result e w')"
    "retries_ok (handle_hub_rstate e w')" if "retries_ok w'" for w'
    using that lr_process_list_result[of w' e] by (simp_all add: retries_ok_view)
  show ?thesis
  proof (cases "p_handle_event e ?w2")
    case (Inl err)
    then show ?thesis using d m p
      by (cases err) (simp add: handle_event_alt result_world_def)
  next
    case (Inr r)
    then have "retries_ok (snd r)" using p by (cases r) (simp add: result_world_def)
    then show ?thesis using d m Inr l[of "snd r"]
      by (simp add: handle_event_alt)
  qed
qed

lemma retries_ok_receive_line: "retries_ok w \<Longrightarrow> retries_ok (receive_line line w)"
  using retries_ok_handle_event[of w "parse_line (strip line)"]
  by (simp add: receive_line_def Let_def)

lemma retries_ok_step: "step w w' \<Longrightarrow> retries_ok w \<Longrightarrow> retries_ok w'"
proof (induction rule: step.induct)
  case (step_line w line)
  then show ?case by (rule retries_ok_receive_line)
next
  case (step_start_search flow_id w i w')
  then show ?case using start_search_view[OF step_start_search.hyps]
    by (simp add: retries_ok_view)
next
  case (step_confirm flow_id w i w')
  then show ?case using confirm_candidate_view[OF step_confirm.hyps]
    by (simp add: retries_ok_view) (simp add: pair_view_def)
next
  case (step_cancel w reason immediate)
  then show ?case by (simp add: retries_ok_view cancel_view) (simp add: pair_view_def)
next
  case (step_force_cleanup w)
  then show ?case by (simp add: retries_ok_view) (simp add: pair_view_def)
next
  case (step_pair_timeout w)
  then show ?case by (simp add: retries_ok_view on_timeout_view) (simp add: pair_view_def)
next
  case (step_delete dev w i w')
  then show ?case using pv_async_delete[OF step_delete.hyps] lr_async_delete[OF step_delete.hyps]
    by (simp add: retries_ok_view)
next
  case (step_set dev command w i w')
  then show ?case using pv_async_set[OF step_set.hyps] lr_async_set[OF step_set.hyps]
    by (simp add: retries_ok_view)
next
  case (step_refresh_then_exit w)
  then show ?case using lr_refresh(4)[of w] by (simp add: retries_ok_view)
next
  case (step_refresh_call w)
  then show ?case using lr_refresh(3)[of w] by (simp add: retries_ok_view)
next
  case (step_list_timeout w)
  then show ?case using lr_refresh(2)[of w] by (simp add: retries_ok_view)
qed (simp_all add: retries_ok_view)

lemma reachable_retries_ok: "reachable w \<Longrightarrow> retries_ok w"
proof (induction rule: reachable.induct)
  case (reachable_init lm lt rid)
  show ?case
    by (simp add: retries_ok_def start_bridge_def init_world_def)
next
  case (reachable_step w w')
  then show ?case using retries_ok_step by blast
qed

section \<open>The pairing stop retries\<close>

text \<open>
  Claim C4, amended. Let \<open>start_search\<close> have succeeded and let every reply be RESULT
  NAK with code 2. The session answers a NAK to \<open>stop\<close> by \<open>stt\<close> and a NAK to
  \<open>stt\<close> by \<open>stop\<close>, counting one retry per \<open>stt\<close>. After six replies it has
  retried three times and is still active with its handle pending; the seventh reply
  (the fourth NAK to \<open>stop\<close>) fails the handle with the error \<open>busy\<close>, sends
  nothing more in the session and leaves it inactive. In every reachable state the stop
  retry counter is at most 3.
\<close>

theorem pairing_stop_retry_bound:
  assumes start: "start_search flow_id w = Inr (i, w1)"
    and nak: "result_nak ''2'' e"
  shows "(let w7 = p_events [e, e, e, e, e, e] w1; w8 = p_events [e] w7
          in p_active w7 \<and> pair_futs w7 ! i = Pending \<and> p_stop_retries w7 = 3
             \<and> p_stage w7 = Some await_stop_result
             \<and> sent w7 = sent w @ [''stop'', ''stt'', ''stop'', ''stt'', ''stop'', ''stt'', ''stop'']
             \<and> \<not> p_active w8 \<and> pair_futs w8 ! i = Exception (PairingError ''busy'')
             \<and> sent w8 = sent w7 \<and> p_stop_retries w8 = 3)
       \<and> (\<forall>w'. reachable w' \<longrightarrow> p_stop_retries w' \<le> 3)"
proof -
  note st = start_search_started[OF start]
  have i: "i = length (pair_futs w)" and pr: "protocol w" using st by simp_all
  have w1: "w1 = w\<lparr>p_exit_timeout_handle := None, p_exit_command_handle := None,
              p_exit_pending := False, p_exit_stage := None,
              p_active := True, p_flow_id := Some flow_id,
              p_stage := Some await_stop_result, p_candidate := None,
              p_finalize_future := None, p_search_future := Some (length (pair_futs w)),
              pair_futs := pair_futs w @ [Pending],
              p_in_engineering := False, p_stop_retries := 0,
              p_timeout_handle := Some (Armed ()), sent := sent w @ [''stop''],
              p_requested_stop := True\<rparr>" using st by simp
  have bound: "\<forall>w'. reachable w' \<longrightarrow> p_stop_retries w' \<le> 3"
    using reachable_retries_ok by (simp add: retries_ok_def)
  have run: "(let w7 = p_events [e, e, e, e, e, e] w1; w8 = p_events [e] w7
          in p_active w7 \<and> pair_futs w7 ! i = Pending \<and> p_stop_retries w7 = 3
             \<and> p_stage w7 = Some await_stop_result
             \<and> sent w7 = sent w @ [''stop'', ''stt'', ''stop'', ''stt'', ''stop'', ''stt'', ''stop'']
             \<and> \<not> p_active w8 \<and> pair_futs w8 ! i = Exception (PairingError ''busy'')
             \<and> sent w8 = sent w7 \<and> p_stop_retries w8 = 3)"
    unfolding w1 i Let_def
    using pr
    by (simp add: p_events_def nak2_at_stop[OF nak] nak2_at_clear[OF nak] nak2_at_bound[OF nak]
        fail_effect nth_append)
  from run bound show ?thesis by blast
qed

theorem pairing_stop_retry_bound_witness:
  "(let w1 = after_start (start_search ''flow-1'' demo_world) demo_world;
        nak = parse_line ''RESULT;NAK;2'';
        w7 = p_events [nak, nak, nak, nak, nak, nak] w1;
        w8 = p_events [nak] w7
    in start_search ''flow-1'' demo_world = Inr (0, w1) \<and> result_nak ''2'' nak
       \<and> p_active w7 \<and> pair_futs w7 = [Pending] \<and> p_stop_retries w7 = 3
       \<and> sent w7 = [''ech 0'', ''inf 1'', ''ext 1'',
                     ''stop'', ''stt'', ''stop'', ''stt'', ''stop'', ''stt'', ''stop'']
       \<and> \<not> p_active w8 \<and> pair_futs w8 ! 0 = Exception (PairingError ''busy'')
       \<and> sent w8 = sent w7)"
proof -
  have st: "start_search ''flow-1'' demo_world =
      Inr (0, after_start (start_search ''flow-1'' demo_world) demo_world)"
    by (simp add: demo_start after_start_def)
  have nak: "result_nak ''2'' (parse_line ''RESULT;NAK;2'')" by (rule sample_events)
  have futs: "pair_futs (p_events [parse_line ''RESULT;NAK;2'', parse_line ''RESULT;NAK;2'',
      parse_line ''RESULT;NAK;2'', parse_line ''RESULT;NAK;2'', parse_line ''RESULT;NAK;2'',
      parse_line ''RESULT;NAK;2'']
      (after_start (start_search ''flow-1'' demo_world) demo_world)) = [Pending]"
    by (simp add: after_start_def demo_start p_events_def nak2_at_stop[OF nak]
        nak2_at_clear[OF nak])
  show ?thesis
    using pairing_stop_retry_bound[OF st nak] st nak futs
    by (simp add: Let_def)
qed

section \<open>Busy checks when an operation starts\<close>

lemma demo_set:
  "async_set dev command demo_world =
     Awaiting 0 (demo_world\<lparr>m_lock := True, m_stage := Some await_stop,
                   m_device_id := Some (upper dev), m_command := Some command,
                   m_future := Some 0, par_futs := [Pending], m_awaited := Some 0,
                   sent := [''ech 0'', ''inf 1'', ''ext 1'', ''stop'']\<rparr>)"
  by (simp add: async_set_def Let_def d_busy_def send_cmd_def)

text \<open>
  Claim C1, as stated, fails. While a parameter update is busy on \<open>demo_world\<close>,
  \<open>start_search\<close> is accepted and sends \<open>stop\<close>, and so is \<open>async_delete\<close>: in
  either case two of the four operations are busy at once and the second start met no
  busy error.
\<close>

theorem mutual_exclusion_counterexample:
  "(let wm = after_await (async_set ''ab12cd'' ''par AB12CD 1'' demo_world) demo_world;
        wp = after_start (start_search ''flow-1'' wm) wm;
        wd = after_await (async_delete ''ab12cd'' wm) wm
    in m_busy wm \<and> \<not> p_active wm \<and> \<not> d_busy wm
       \<and> start_search ''flow-1'' wm = Inr (0, wp)
       \<and> m_busy wp \<and> p_active wp \<and> sent wp = sent wm @ [''stop'']
       \<and> async_delete ''ab12cd'' wm = Awaiting 0 wd
       \<and> m_busy wd \<and> d_busy wd \<and> sent wd = sent wm @ [''stop''])"
  by (simp add: Let_def after_await_def after_start_def demo_set m_busy_def d_busy_def
      start_search_def async_delete_def cancel_exit_command_def reset_timeout_def send_cmd_def
      str_defs)

text \<open>
  Claim C1, amended: the busy checks the start operations make, each before any command
  is sent (a call that raises leaves the state as it was).
  \<^item> \<open>start_search\<close> raises the pairing error \<open>busy\<close> when pairing is active or
    exiting or a device list refresh is active.
  \<^item> \<open>async_delete\<close> does not start while a refresh is active or pairing is active or
    exiting; with a valid and known device id, a free lock and a ready bridge, the error
    it raises is the refresh-in-progress or pairing-in-progress one.
  \<^item> \<open>async_set\<close> does not start while a refresh is active, a deletion is busy or
    pairing is active or exiting; with a free lock and a ready bridge, the error it
    raises is the one of the first of these that holds.
  \<^item> A refresh requested while a refresh is active changes nothing and raises nothing.
\<close>

theorem busy_checks:
  "(p_active w \<or> p_exit_pending w \<or> list_active w \<longrightarrow>
      start_search flow_id w = Inl (PairingError ''busy''))
   \<and> (list_active w \<or> p_active w \<or> p_exit_pending w \<longrightarrow>
        (\<forall>i w1. async_delete dev w \<noteq> Awaiting i w1)
        \<and> (upper dev \<noteq> [] \<and> hub_device_code w \<noteq> Some (upper dev) \<and> \<not> d_lock w
             \<and> d_future w = None \<and> protocol w \<and> upper dev \<in> fst ` set (devices w) \<longrightarrow>
            async_delete dev w =
              Raised (HomeAssistantError
                (if list_active w then ''Device list refresh in progress''
                 else ''Pairing operation in progress''))))
   \<and> (list_active w \<or> d_busy w \<or> p_active w \<or> p_exit_pending w \<longrightarrow>
        (\<forall>i w1. async_set dev command w \<noteq> Awaiting i w1)
        \<and> (\<not> m_lock w \<and> m_future w = None \<and> protocol w \<longrightarrow>
            async_set dev command w =
              Raised (HomeAssistantError
                (if list_active w then ''Device list refresh in progress''
                 else if d_busy w then ''Device deletion in progress''
                 else ''Pairing operation in progress''))))
   \<and> (list_active w \<longrightarrow> async_refresh_device_list w = w)"
  by (auto simp: start_search_def async_delete_def async_set_def async_refresh_device_list_def
      Let_def)

text \<open>
  On \<open>demo_world\<close> with a pairing search under way, a deletion and a parameter update
  are refused; with a refresh under way, a pairing search is refused.
\<close>

theorem busy_checks_witness:
  "(let wp = after_start (start_search ''flow-1'' demo_world) demo_world;
        wl = async_refresh_device_list demo_world
    in p_active wp \<and> list_active wl
       \<and> start_search ''flow-2'' wp = Inl (PairingError ''busy'')
       \<and> start_search ''flow-2'' wl = Inl (PairingError ''busy'')
       \<and> async_delete ''ab12cd'' wp = Raised (HomeAssistantError ''Pairing operation in progress'')
       \<and> async_set ''ab12cd'' ''par AB12CD 1'' wl =
           Raised (HomeAssistantError ''Device list refresh in progress'')
       \<and> async_refresh_device_list wl = wl)"
proof -
  let ?wp = "after_start (start_search ''flow-1'' demo_world) demo_world"
  let ?wl = "async_refresh_device_list demo_world"
  have p: "p_active ?wp" "\<not> list_active ?wp" "\<not> d_lock ?wp" "d_future ?wp = None"
    "protocol ?wp" "hub_device_code ?wp = None" "fst ` set (devices ?wp) = {''AB12CD''}"
    by (simp_all add: after_start_def demo_start)
  have l: "list_active ?wl" "\<not> m_lock ?wl" "m_future ?wl = None" "protocol ?wl"
    by (simp_all add: async_refresh_device_list_def)
  have up: "upper ''ab12cd'' = ''AB12CD''" by (simp add: str_defs)
  show ?thesis
    using busy_checks[of ?wp "''flow-2''" "''ab12cd''" "''par AB12CD 1''"]
      busy_checks[of ?wl "''flow-2''" "''ab12cd''" "''par AB12CD 1''"] p l
    by (simp add: Let_def up)
qed

section \<open>Which retries are counted\<close>













section \<open>The device list refresh\<close>

lemma handle_list_entry_frame [simp]:
  "list_active (handle_list_entry e w) = list_active w"
  "list_stage (handle_list_entry e w) = list_stage w"
  "devices_snapshot (handle_list_entry e w) = devices_snapshot w"
  "devices (handle_list_entry e w) = devices w"
  "registry_log (handle_list_entry e w) = registry_log w"
  "protocol (handle_list_entry e w) = protocol w"
  by (simp_all add: handle_list_entry_def Let_def schedule_wrk_send_def split: option.splits)

lemma handle_list_entry_keys:
  "list_active w \<Longrightarrow>
   pending_keys (handle_list_entry e w) =
     pending_keys w \<union> set (listed_ids [e])"
  by (simp add: handle_list_entry_def Let_def schedule_wrk_send_def pending_keys_def
      listed_ids_def dom_update split: option.splits)

lemma listed_ids_Cons: "set (listed_ids (e # es)) = set (listed_ids [e]) \<union> set (listed_ids es)"
  by (auto simp: listed_ids_def)

lemma list_entries_frame:
  "list_active (list_entries es w) = list_active w
   \<and> list_stage (list_entries es w) = list_stage w
   \<and> devices_snapshot (list_entries es w) = devices_snapshot w
   \<and> devices (list_entries es w) = devices w
   \<and> registry_log (list_entries es w) = registry_log w
   \<and> protocol (list_entries es w) = protocol w"
  by (induction es arbitrary: w) (simp_all add: list_entries_def)

lemma list_entries_keys:
  "list_active w \<Longrightarrow> pending_keys (list_entries es w) = pending_keys w \<union> set (listed_ids es)"
proof (induction es arbitrary: w)
  case Nil
  then show ?case by (simp add: list_entries_def listed_ids_def)
next
  case (Cons e es)
  have "list_entries (e # es) w = list_entries es (handle_list_entry e w)"
    by (simp add: list_entries_def)
  then show ?case
    using Cons.IH[of "handle_list_entry e w"] Cons.prems handle_list_entry_keys[of w e]
      listed_ids_Cons[of e es]
    by auto
qed

lemma store_devices_keys:
  "fst ` set (devices (store_devices snap new w)) = fst ` set (devices w) \<union> fst ` set new"
  by (induction snap new w rule: store_devices.induct) (auto simp: Let_def dom_update)

lemma store_devices_log:
  "set (registry_log w) \<subseteq> set (registry_log (store_devices snap new w))"
  by (induction snap new w rule: store_devices.induct) (auto simp: Let_def)

lemma remove_devices_frame [simp]:
  "devices (remove_devices snap ids w) = devices w"
  by (induction snap ids w rule: remove_devices.induct) (simp_all add: Let_def split: option.splits)

lemma remove_devices_log_mono:
  "set (registry_log w) \<subseteq> set (registry_log (remove_devices snap ids w))"
  by (induction snap ids w rule: remove_devices.induct)
     (auto simp: Let_def split: option.splits)

lemma remove_devices_reports:
  "c \<in> set ids \<Longrightarrow> registry_id_of snap c = Some rid \<Longrightarrow>
   RemoveDevice rid \<in> set (registry_log (remove_devices snap ids w))"
proof (induction snap ids w rule: remove_devices.induct)
  case (1 snapshot w)
  then show ?case by simp
next
  case (2 snapshot removed_id rest w)
  show ?case
  proof (cases "c = removed_id")
    case True
    then show ?thesis
      using "2.prems" remove_devices_log_mono[of "w\<lparr>registry_log := registry_log w @ [RemoveDevice rid]\<rparr>" snapshot rest]
      by (auto simp: Let_def registry_id_of_def)
  next
    case False
    then show ?thesis using 2 by (auto simp: Let_def)
  qed
qed

lemma finalize_listed:
  assumes "list_pending w = Some p" "p \<noteq> []" "devices_snapshot w = Some s"
  shows "fst ` set (devices (finalize_device_list True w)) = fst ` set p"
    and "allowed_ids (finalize_device_list True w) = fst ` set p"
    and "\<not> list_active (finalize_device_list True w)"
    and "set (removed_ids True w) = fst ` set s - fst ` set p"
    and "c \<in> set (removed_ids True w) \<Longrightarrow> registry_id_of s c = Some rid \<Longrightarrow>
         RemoveDevice rid \<in> set (registry_log (finalize_device_list True w))"
proof -
  have new: "new_devices True w = p" and snap: "final_snapshot w = s"
    using assms by (simp_all add: new_devices_def final_snapshot_def)
  show "fst ` set (devices (finalize_device_list True w)) = fst ` set p"
    by (simp add: finalize_device_list_def Let_def new snap store_devices_keys
        schedule_wrk_cancel_def)
  show "allowed_ids (finalize_device_list True w) = fst ` set p"
    by (simp add: finalize_device_list_def Let_def new)
  show "\<not> list_active (finalize_device_list True w)"
    by (simp add: finalize_device_list_def Let_def)
  show "set (removed_ids True w) = fst ` set s - fst ` set p"
    by (auto simp: removed_ids_def new snap)
  show "RemoveDevice rid \<in> set (registry_log (finalize_device_list True w))"
    if "c \<in> set (removed_ids True w)" "registry_id_of s c = Some rid"
    using remove_devices_reports[OF that(1), of s rid] that(2)
    by (simp add: finalize_device_list_def Let_def new snap)
qed

lemma before_wrk_result_state:
  assumes "\<not> list_active w" "protocol w" "event_status ok = ''OK''"
  shows "list_active (before_wrk_result t ok events w)
     \<and> list_stage (before_wrk_result t ok events w) = Some stage_wrk
     \<and> devices_snapshot (before_wrk_result t ok events w) = Some (devices w)
     \<and> pending_keys (before_wrk_result t ok events w) = set (listed_ids events)
     \<and> list_pending (before_wrk_result t ok events w) \<noteq> None"
proof -
  let ?w3 = "process_list_result ok (delayed_stop (async_refresh_device_list w))"
  have w3: "list_active ?w3" "list_stage ?w3 = Some stage_lst"
    "devices_snapshot ?w3 = Some (devices w)" "list_pending ?w3 = Some []" "protocol ?w3"
    using assms
    by (simp_all add: async_refresh_device_list_def delayed_stop_def process_list_result_def
        Let_def send_cmd_def schedule_wrk_send_def split: option.splits)
  let ?w4 = "list_entries events ?w3"
  have w4: "list_active ?w4" "list_stage ?w4 = Some stage_lst"
    "devices_snapshot ?w4 = Some (devices w)" "protocol ?w4"
    using w3 list_entries_frame[of events ?w3] by simp_all
  have k4: "pending_keys ?w4 = set (listed_ids events)"
    using list_entries_keys[OF w3(1), of events] w3(4) by (simp add: pending_keys_def)
  have p4: "list_pending ?w4 \<noteq> None"
  proof (cases events)
    case Nil
    then show ?thesis using w3(4) by (simp add: list_entries_def)
  next
    case (Cons e es)
    have "list_pending (handle_list_entry e' w') \<noteq> None" if "list_active w'" for e' w'
      using that
      by (simp add: handle_list_entry_def Let_def schedule_wrk_send_def split: option.splits)
    moreover have "list_active (list_entries (butlast events) ?w3)"
      using w3(1) list_entries_frame[of "butlast events" ?w3] by simp
    moreover have "?w4 = handle_list_entry (last events) (list_entries (butlast events) ?w3)"
    proof -
      have "events = butlast events @ [last events]" using Cons by simp
      then have "list_entries events ?w3 =
          list_entries (butlast events @ [last events]) ?w3" by simp
      then show ?thesis by (simp add: list_entries_def del: append_butlast_last_id)
    qed
    ultimately show ?thesis by simp
  qed
  show ?thesis
  proof (cases t)
    case True
    then show ?thesis using w4 k4 p4
      by (simp add: before_wrk_result_def Let_def send_wrk_timer_def send_cmd_def
          pending_keys_def)
  next
    case False
    then show ?thesis using w4 k4 p4 assms(3)
      by (simp add: before_wrk_result_def Let_def process_list_result_def
          schedule_wrk_cancel_def send_if_ready_def send_cmd_def pending_keys_def)
  qed
qed

text \<open>
  Claim C6. Let a refresh start on a ready bridge, let the LIST events name a non-empty
  set of device ids, and let the RESULT for \<open>wrk\<close> be OK. Then the device table and the
  allowed ids are exactly the listed ids and the refresh is over. Every device of the
  previous table (the snapshot) that no LIST event named is among the removed ids, and
  if its previous entry holds a registry id, the registry is asked to remove that id.
\<close>

theorem refresh_reports_devices:
  assumes "\<not> list_active w" and "protocol w" and "event_status ok = ''OK''"
    and "listed_ids events \<noteq> []"
  shows "fst ` set (devices (refresh_run t ok events w)) = set (listed_ids events)
     \<and> allowed_ids (refresh_run t ok events w) = set (listed_ids events)
     \<and> \<not> list_active (refresh_run t ok events w)
     \<and> (\<forall>c \<in> fst ` set (devices w) - set (listed_ids events).
           c \<in> set (removed_ids True (before_wrk_result t ok events w))
           \<and> (\<forall>rid. registry_id_of (devices w) c = Some rid \<longrightarrow>
                 RemoveDevice rid \<in> set (registry_log (refresh_run t ok events w))))"
proof -
  let ?b = "before_wrk_result t ok events w"
  note b = before_wrk_result_state[OF assms(1-3), of t events]
  obtain p where p: "list_pending ?b = Some p" using b by auto
  have keys: "fst ` set p = set (listed_ids events)"
    using b p by (simp add: pending_keys_def)
  have pne: "p \<noteq> []" using keys assms(4) by auto
  have snap: "devices_snapshot ?b = Some (devices w)" using b by simp
  have run: "refresh_run t ok events w = finalize_device_list True ?b"
    using b assms(3) by (simp add: refresh_run_def process_list_result_def Let_def)
  note f = finalize_listed[OF p pne snap]
  show ?thesis
    unfolding run using f keys by auto
qed

text \<open>
  On \<open>demo_world\<close>, which knows \<open>AB12CD\<close> under the registry id \<open>reg-1\<close>, the hub
  lists the devices \<open>AA0001\<close> and \<open>BB0002\<close>: they are the new device table, and
  \<open>AB12CD\<close> is removed from the registry.
\<close>

theorem refresh_reports_devices_witness:
  "(let ok = parse_line ''RESULT;OK;0'';
        events = [parse_line ''LIST;1;1;aa0001;5'', parse_line ''LIST;2;2;bb0002;7''];
        w = refresh_run True ok events demo_world
    in \<not> list_active demo_world \<and> protocol demo_world \<and> event_status ok = ''OK''
       \<and> listed_ids events = [''AA0001'', ''BB0002'']
       \<and> fst ` set (devices w) = {''AA0001'', ''BB0002''}
       \<and> allowed_ids w = {''AA0001'', ''BB0002''}
       \<and> \<not> list_active w
       \<and> ''AB12CD'' \<in> set (removed_ids True (before_wrk_result True ok events demo_world))
       \<and> registry_id_of (devices demo_world) ''AB12CD'' = Some ''reg-1''
       \<and> RemoveDevice ''reg-1'' \<in> set (registry_log w))"
proof -
  let ?ok = "parse_line ''RESULT;OK;0''"
  let ?events = "[parse_line ''LIST;1;1;aa0001;5'', parse_line ''LIST;2;2;bb0002;7'']"
  have ok: "event_status ?ok = ''OK''"
    using sample_events(1) by (simp add: result_ok_def)
  have ids: "listed_ids ?events = [''AA0001'', ''BB0002'']"
    by (simp add: listed_ids_def str_upper_of_def parse_defs str_defs)
  have rid: "registry_id_of (devices demo_world) ''AB12CD'' = Some ''reg-1''"
    by (simp add: registry_id_of_def truthy_str_def world_defs)
  have ne: "listed_ids ?events \<noteq> []" using ids by simp
  have c: "''AB12CD'' \<in> fst ` set (devices demo_world) - set (listed_ids ?events)"
    using ids by simp
  have idle: "\<not> list_active demo_world" and ready: "protocol demo_world" by simp_all
  from refresh_reports_devices[OF idle ready ok ne, of True] c rid
  have "fst ` set (devices (refresh_run True ?ok ?events demo_world)) = set (listed_ids ?events)"
    and "allowed_ids (refresh_run True ?ok ?events demo_world) = set (listed_ids ?events)"
    and "\<not> list_active (refresh_run True ?ok ?events demo_world)"
    and "''AB12CD'' \<in> set (removed_ids True (before_wrk_result True ?ok ?events demo_world))"
    and "RemoveDevice ''reg-1'' \<in> set (registry_log (refresh_run True ?ok ?events demo_world))"
    by blast+
  then show ?thesis
    using ok ids rid by (simp add: Let_def)
qed

section \<open>An active session has its timer armed\<close>

lemma tm_basic [simp]:
  "timer_ok (send_cmd c w) = timer_ok w"
  "timer_ok (send_if_ready c w) = timer_ok w"
  "timer_ok (cancel_exit_command w) = timer_ok w"
  "timer_ok (restart_wrk_fallback_timer w) = timer_ok w"
  "timer_ok (send_exit_command c st w) = timer_ok w"
  "timer_ok (exit_send c w) = timer_ok w"
  "timer_ok (exit_command_due c w) = timer_ok w"
  "timer_ok (complete_exit_success w) = timer_ok w"
  "timer_ok (send_wrk_fallback w) = timer_ok w"
  "timer_ok (fallback_due w) = timer_ok w"
  "timer_ok (schedule_wrk_cancel w) = timer_ok w"
  "timer_ok (schedule_wrk_send w) = timer_ok w"
  "timer_ok (send_wrk_timer w) = timer_ok w"
  "timer_ok (async_refresh_device_list w) = timer_ok w"
  "timer_ok (delayed_stop w) = timer_ok w"
  "timer_ok (retry_send w) = timer_ok w"
  "timer_ok (refresh_call w) = timer_ok w"
  "timer_ok (refresh_then_exit w) = timer_ok w"
  "timer_ok (handle_hub_rstate e w) = timer_ok w"
  "timer_ok (handle_list_entry e w) = timer_ok w"
  "timer_ok (snd (handle_exit_result status c w)) = timer_ok w"
  "timer_ok (handle_exit_event e w) = timer_ok w"
  by (simp_all add: timer_ok_def send_cmd_def send_if_ready_def
      cancel_exit_command_def restart_wrk_fallback_timer_def send_exit_command_def
      exit_send_def exit_command_due_def complete_exit_success_def send_wrk_fallback_def
      fallback_due_def schedule_wrk_cancel_def schedule_wrk_send_def send_wrk_timer_def
      async_refresh_device_list_def delayed_stop_def retry_send_def refresh_call_def
      refresh_then_exit_def handle_hub_rstate_def handle_list_entry_def
      handle_exit_result_def handle_exit_event_def Let_def split: option.splits list.splits)

lemma tm_sessions [simp]:
  "timer_ok (d_cancel w) = timer_ok w"
  "timer_ok (d_fail r w) = timer_ok w"
  "timer_ok (d_finally w) = timer_ok w"
  "timer_ok (d_timeout w) = timer_ok w"
  "timer_ok (d_remove_device dev w) = timer_ok w"
  "timer_ok (d_resume w) = timer_ok w"
  "timer_ok (snd (d_handle_event e w)) = timer_ok w"
  "timer_ok (m_cancel w) = timer_ok w"
  "timer_ok (m_fail r w) = timer_ok w"
  "timer_ok (m_finally w) = timer_ok w"
  "timer_ok (m_timeout w) = timer_ok w"
  "timer_ok (m_resume w) = timer_ok w"
  "timer_ok (snd (m_handle_event e w)) = timer_ok w"
  by (simp_all add: timer_ok_def d_cancel_def d_fail_def d_finally_def d_timeout_def
      d_remove_device_def d_resume_def d_handle_event_def m_cancel_def m_fail_def m_finally_def
      m_timeout_def m_resume_def m_handle_event_def send_if_ready_def send_cmd_def
      Let_def split: option.splits prod.splits)

lemma tm_async_delete: "async_delete dev w = Awaiting i w1 \<Longrightarrow> timer_ok w1 = timer_ok w"
  by (auto simp: async_delete_def Let_def timer_ok_def send_cmd_def split: if_splits)

lemma tm_async_set: "async_set dev c w = Awaiting i w1 \<Longrightarrow> timer_ok w1 = timer_ok w"
  by (auto simp: async_set_def Let_def timer_ok_def send_cmd_def split: if_splits)

lemma tm_store_devices [simp]: "timer_ok (store_devices snap new w) = timer_ok w"
  by (induction snap new w rule: store_devices.induct) (simp_all add: Let_def timer_ok_def)

lemma tm_remove_devices [simp]: "timer_ok (remove_devices snap ids w) = timer_ok w"
  by (induction snap ids w rule: remove_devices.induct)
     (simp_all add: Let_def timer_ok_def split: option.splits)

lemma tm_finalize_device_list [simp]: "timer_ok (finalize_device_list ok w) = timer_ok w"
proof -
  have "timer_ok (w'\<lparr>allowed_ids := a, list_active := b, list_stage := c, list_retries := d\<rparr>)
      = timer_ok w'" for w' a b c d
    by (simp add: timer_ok_def)
  moreover have "timer_ok (w\<lparr>list_timeout_task := None, list_wrk_handle := None,
      list_pending := None, devices_snapshot := None, devices := []\<rparr>) = timer_ok w"
    by (simp add: timer_ok_def)
  ultimately show ?thesis
    by (simp add: finalize_device_list_def Let_def schedule_wrk_cancel_def)
qed

lemma tm_process_list_result [simp]: "timer_ok (process_list_result e w) = timer_ok w"
proof -
  have upd: "timer_ok (w'\<lparr>list_retries := a\<rparr>) = timer_ok w'"
    "timer_ok (w'\<lparr>list_stage := b\<rparr>) = timer_ok w'"
    "timer_ok (w'\<lparr>retry_sends := c\<rparr>) = timer_ok w'"
    "timer_ok (w'\<lparr>list_retries := a, list_stage := b\<rparr>) = timer_ok w'" for w' a b c
    by (simp_all add: timer_ok_def)
  show ?thesis by (simp add: process_list_result_def Let_def upd)
qed

lemma tm_device_list_timeout [simp]: "timer_ok (device_list_timeout w) = timer_ok w"
proof -
  have upd: "timer_ok (w'\<lparr>list_timeout_task := a\<rparr>) = timer_ok w'" for w' a
    by (simp add: timer_ok_def)
  show ?thesis by (simp add: device_list_timeout_def Let_def upd)
qed

lemma timer_ok_inactive: "pair_view w' = (False, x) \<Longrightarrow> timer_ok w'"
  by (simp add: timer_ok_def pair_view_def)

lemma timer_ok_reset [simp]: "timer_ok (reset_timeout w)"
  by (simp add: timer_ok_def reset_timeout_def)

lemma timer_ok_terminal [simp]:
  "timer_ok (fail r w)" "timer_ok (force_cleanup w)" "timer_ok (finalize_success refresh w)"
  "timer_ok (cleanup a b w)"
  by (rule timer_ok_inactive, rule terminal_views)+ (rule timer_ok_inactive, rule cleanup_view)

lemma timer_ok_cancel [simp]: "timer_ok w \<Longrightarrow> timer_ok (cancel reason immediate w)"
  by (simp add: cancel_def Let_def)

lemma timer_ok_timeout [simp]: "timer_ok (timeout_due w)"
proof (cases "p_active w")
  case True
  then show ?thesis by (simp add: timeout_due_def on_timeout_def)
next
  case False
  then show ?thesis by (simp add: timeout_due_def on_timeout_def timer_ok_def)
qed

lemma timer_ok_start_search:
  assumes "start_search flow_id w = Inr (i, w1)"
  shows "timer_ok w1"
  using start_search_started[OF assms] by (simp add: timer_ok_def)

lemma timer_ok_confirm_candidate:
  assumes "confirm_candidate flow_id w = Inr (i, w1)"
  shows "timer_ok w1"
  using assms
  by (auto simp: confirm_candidate_def Let_def timer_ok_def reset_timeout_def send_cmd_def
      split: if_splits)

lemma timer_ok_upd [simp]:
  "timer_ok (w\<lparr>p_stage := a\<rparr>) = timer_ok w"
  "timer_ok (w\<lparr>p_stage := a, p_in_engineering := b\<rparr>) = timer_ok w"
  "timer_ok (w\<lparr>p_stop_retries := n, p_stage := a\<rparr>) = timer_ok w"
  "timer_ok (w\<lparr>pair_futs := fs\<rparr>) = timer_ok w"
  by (simp_all add: timer_ok_def)

lemma timer_ok_handle_result:
  "timer_ok w \<Longrightarrow> timer_ok (result_world (handle_result e w))"
  by (simp add: handle_result_def Let_def result_world_def case_prod_unfold)

lemma timer_ok_handle_event_line:
  "timer_ok w \<Longrightarrow> timer_ok (snd (handle_event_line tokens w))"
  by (simp add: handle_event_line_def Let_def split: option.splits prod.splits)

lemma timer_ok_dispatch_tokens:
  "timer_ok w \<Longrightarrow> timer_ok (snd (snd (dispatch_tokens tokens current consumed w)))"
proof (induction tokens current consumed w rule: dispatch_tokens.induct)
  case (1 current consumed w)
  then show ?case by simp
next
  case (2 token rest current consumed w)
  show ?case
  proof (cases "upper token = ''EVENT'' \<and> current \<noteq> []")
    case True
    obtain c w1 where h: "handle_event_line current w = (c, w1)" by (cases "handle_event_line current w")
    have "timer_ok w1" using timer_ok_handle_event_line[OF "2.prems", of current] h by simp
    with "2.IH"(1)[OF _ _ h[symmetric]] True h show ?thesis by simp
  next
    case False
    with 2 show ?thesis by auto
  qed
qed

lemma timer_ok_handle_event_dispatch:
  "timer_ok w \<Longrightarrow> timer_ok (snd (handle_event_dispatch e w))"
  using timer_ok_dispatch_tokens[of w "event_tokens e" "[]" False]
    timer_ok_handle_event_line
  by (auto simp: handle_event_dispatch_def Let_def split: prod.splits)
     (metis timer_ok_handle_event_line snd_conv)+

lemma timer_ok_p_handle_event:
  "timer_ok w \<Longrightarrow> timer_ok (result_world (p_handle_event e w))"
  using timer_ok_handle_result[of w e] timer_ok_handle_event_dispatch[of w e]
  by (simp add: p_handle_event_def result_world_def case_prod_unfold)

lemma timer_ok_handle_event:
  assumes "timer_ok w"
  shows "timer_ok (case handle_event e w of Inr w1 \<Rightarrow> w1 | Inl (x, w1) \<Rightarrow> w1)"
proof -
  let ?w2 = "snd (m_handle_event e (snd (d_handle_event e w)))"
  have m: "timer_ok ?w2" using assms by simp
  have p: "timer_ok (result_world (p_handle_event e ?w2))"
    using m by (rule timer_ok_p_handle_event)
  show ?thesis
  proof (cases "p_handle_event e ?w2")
    case (Inl err)
    then show ?thesis using assms m p
      by (cases err) (simp add: handle_event_alt result_world_def)
  next
    case (Inr r)
    then have "timer_ok (snd r)" using p by (cases r) (simp add: result_world_def)
    then show ?thesis using assms m Inr
      by (simp add: handle_event_alt)
  qed
qed

lemma timer_ok_receive_line: "timer_ok w \<Longrightarrow> timer_ok (receive_line line w)"
  using timer_ok_handle_event[of w "parse_line (strip line)"]
  by (simp add: receive_line_def Let_def)

lemma timer_ok_step: "step w w' \<Longrightarrow> timer_ok w \<Longrightarrow> timer_ok w'"
proof (induction rule: step.induct)
  case (step_line w line)
  then show ?case by (rule timer_ok_receive_line)
next
  case (step_start_search flow_id w i w')
  then show ?case using timer_ok_start_search by blast
next
  case (step_confirm flow_id w i w')
  then show ?case using timer_ok_confirm_candidate by blast
next
  case (step_delete dev w i w')
  then show ?case using tm_async_delete by blast
next
  case (step_set dev command w i w')
  then show ?case using tm_async_set by blast
qed simp_all

lemma reachable_timer_ok: "reachable w \<Longrightarrow> timer_ok w"
proof (induction rule: reachable.induct)
  case (reachable_init lm lt rid)
  show ?case
    by (simp add: timer_ok_def start_bridge_def init_world_def)
next
  case (reachable_step w w')
  then show ?case using timer_ok_step by blast
qed

section \<open>Every pairing handle is resolved exactly once\<close>

lemma list_all_upt: "list_all P [0..<n] \<longleftrightarrow> (\<forall>i<n. P i)"
  by (auto simp: list_all_iff)

lemma length_resolve [simp]: "length (resolve r v fs) = length fs"
  by (simp add: resolve_def split: option.splits)

lemma resolve_nth:
  "k < length fs \<Longrightarrow>
   resolve r v fs ! k = (if r = Some k \<and> fs ! k = Pending then v else fs ! k)"
  by (cases r) (auto simp: resolve_def fut_pending_def nth_list_update)

lemma all_done_iff: "all_done fs \<longleftrightarrow> (\<forall>i<length fs. fs ! i \<noteq> Pending)"
  by (simp add: all_done_def list_all_length)

lemma futs_mono_iff:
  "futs_mono fs fs' \<longleftrightarrow>
     length fs \<le> length fs' \<and> (\<forall>i<length fs. fs ! i \<noteq> Pending \<longrightarrow> fs' ! i = fs ! i)"
  by (simp add: futs_mono_def list_all_upt) blast

lemma futs_ok_iff:
  "futs_ok w \<longleftrightarrow>
     (\<forall>i<length (pair_futs w). pair_futs w ! i \<noteq> Pending
          \<or> p_search_future w = Some i \<or> p_finalize_future w = Some i)
     \<and> (\<forall>i. p_search_future w = Some i \<longrightarrow> i < length (pair_futs w))
     \<and> (\<forall>j. p_finalize_future w = Some j \<longrightarrow>
            j < length (pair_futs w) \<and> p_stage w = Some waiting_finalize
            \<and> (\<exists>i. p_search_future w = Some i \<and> pair_futs w ! i \<noteq> Pending))
     \<and> (if p_active w then p_search_future w \<noteq> None
         else p_search_future w = None \<and> p_finalize_future w = None)
     \<and> (p_stage w = Some await_confirmation \<or> p_stage w = Some waiting_finalize \<longrightarrow>
          (\<forall>i. p_search_future w = Some i \<longrightarrow> pair_futs w ! i \<noteq> Pending))"
proof (cases "p_search_future w")
  case None
  then show ?thesis
    by (cases "p_finalize_future w") (simp_all add: futs_ok_def pair_view_def list_all_upt)
next
  case (Some i)
  then show ?thesis
    by (cases "p_finalize_future w") (simp_all add: futs_ok_def pair_view_def list_all_upt)
qed

lemma futs_mono_refl [simp]: "futs_mono fs fs"
  by (simp add: futs_mono_iff)

lemma futs_mono_trans: "futs_mono a b \<Longrightarrow> futs_mono b c \<Longrightarrow> futs_mono a c"
  by (fastforce simp: futs_mono_iff)

lemma futs_mono_resolve [simp]: "futs_mono fs (resolve r v fs)"
  by (simp add: futs_mono_iff resolve_nth)

lemma futs_mono_append [simp]: "futs_mono fs (fs @ xs)"
  by (simp add: futs_mono_iff nth_append)

lemma keeps_refl [simp]: "keeps w w"
  by (simp add: keeps_def)

lemma keeps_trans: "keeps a b \<Longrightarrow> keeps b c \<Longrightarrow> keeps a c"
  using futs_mono_trans by (auto simp: keeps_def)

lemma keeps_view: "pair_view w' = pair_view w \<Longrightarrow> keeps w w'"
  by (simp add: keeps_def futs_ok_def) (simp add: pair_view_def)

lemma futs_ok_terminal:
  "pair_view w' = (False, None, None, None, fs, r) \<Longrightarrow> all_done fs \<Longrightarrow> futs_ok w'"
  by (simp add: futs_ok_def all_done_iff list_all_iff)

lemma keeps_terminal:
  assumes "pair_view w' = (False, None, None, None, fs, r)"
    and "futs_ok w \<Longrightarrow> all_done fs" and "futs_mono (pair_futs w) fs"
  shows "keeps w w'"
proof -
  have "pair_futs w' = fs" using assms(1) by (simp add: pair_view_def)
  then show ?thesis using assms futs_ok_terminal[OF assms(1)] by (auto simp: keeps_def)
qed

lemma futs_ok_cover:
  "futs_ok w \<Longrightarrow> k < length (pair_futs w) \<Longrightarrow>
   pair_futs w ! k \<noteq> Pending \<or> p_search_future w = Some k \<or> p_finalize_future w = Some k"
  by (simp add: futs_ok_iff)

lemma futs_ok_finalize:
  "futs_ok w \<Longrightarrow> p_finalize_future w = Some j \<Longrightarrow>
   j < length (pair_futs w) \<and> p_stage w = Some waiting_finalize
   \<and> (\<exists>i. p_search_future w = Some i \<and> pair_futs w ! i \<noteq> Pending)"
  by (simp add: futs_ok_iff)

lemma futs_ok_search:
  "futs_ok w \<Longrightarrow> p_search_future w = Some i \<Longrightarrow> i < length (pair_futs w)"
  by (simp add: futs_ok_iff)

lemma resolve_both_done:
  assumes "futs_ok w" "v \<noteq> Pending"
  shows "all_done (resolve (p_search_future w) v (resolve (p_finalize_future w) v (pair_futs w)))"
    and "all_done (resolve (p_finalize_future w) v (resolve (p_search_future w) v (pair_futs w)))"
proof -
  have "resolve (p_search_future w) v (resolve (p_finalize_future w) v (pair_futs w)) ! k \<noteq> Pending"
    if "k < length (pair_futs w)" for k
    using futs_ok_cover[OF assms(1) that] that assms(2) by (auto simp: resolve_nth)
  then show "all_done (resolve (p_search_future w) v (resolve (p_finalize_future w) v (pair_futs w)))"
    by (simp add: all_done_iff)
  have "resolve (p_finalize_future w) v (resolve (p_search_future w) v (pair_futs w)) ! k \<noteq> Pending"
    if "k < length (pair_futs w)" for k
    using futs_ok_cover[OF assms(1) that] that assms(2) by (auto simp: resolve_nth)
  then show "all_done (resolve (p_finalize_future w) v (resolve (p_search_future w) v (pair_futs w)))"
    by (simp add: all_done_iff)
qed

lemma fail_both_done: "futs_ok w \<Longrightarrow> all_done (pair_futs (fail_both e w))"
  using resolve_both_done(1)[of w "Exception e"] by (simp add: fail_both_eq)

lemma fail_both_mono [simp]: "futs_mono (pair_futs w) (pair_futs (fail_both e w))"
  using futs_mono_trans[OF futs_mono_resolve futs_mono_resolve]
  by (simp add: fail_both_eq)

lemma resolve_first_done:
  assumes "futs_ok w" "v \<noteq> Pending"
  shows "all_done (pair_futs (resolve_first v w))"
proof (cases "fut_pending (pair_futs w) (p_finalize_future w)")
  case True
  then obtain j where j: "p_finalize_future w = Some j" "j < length (pair_futs w)"
    "pair_futs w ! j = Pending"
    by (auto simp: fut_pending_def split: option.splits)
  from futs_ok_finalize[OF assms(1) j(1)] obtain i where
    i: "p_search_future w = Some i" "pair_futs w ! i \<noteq> Pending" by blast
  have "resolve (Some j) v (pair_futs w) ! k \<noteq> Pending" if "k < length (pair_futs w)" for k
    using futs_ok_cover[OF assms(1) that] that assms(2) i j by (auto simp: resolve_nth)
  then show ?thesis using True j by (simp add: resolve_first_eq all_done_iff)
next
  case False
  have np: "pair_futs w ! j \<noteq> Pending" if "p_finalize_future w = Some j" for j
    using False that futs_ok_finalize[OF assms(1) that] by (simp add: fut_pending_def)
  have "resolve (p_search_future w) v (pair_futs w) ! k \<noteq> Pending"
    if "k < length (pair_futs w)" for k
    using futs_ok_cover[OF assms(1) that] that assms(2) np by (auto simp: resolve_nth)
  then show ?thesis using False by (simp add: resolve_first_eq all_done_iff)
qed

lemma resolve_first_mono [simp]: "futs_mono (pair_futs w) (pair_futs (resolve_first v w))"
  by (simp add: resolve_first_eq)

lemma keeps_fail [simp]: "keeps w (fail r w)"
  by (rule keeps_terminal[OF terminal_views(1)]) (simp_all add: fail_both_done)

lemma keeps_finalize_success [simp]: "keeps w (finalize_success refresh w)"
  by (rule keeps_terminal[OF terminal_views(3)]) (simp_all add: resolve_first_done)

lemma keeps_force_cleanup [simp]: "keeps w (force_cleanup w)"
proof (rule keeps_terminal[OF terminal_views(2)])
  show "futs_ok w \<Longrightarrow> all_done (resolve (p_finalize_future w)
      (Exception (PairingCancelledError ''cancelled''))
      (resolve (p_search_future w) (Exception (PairingCancelledError ''cancelled'')) (pair_futs w)))"
    by (rule resolve_both_done(2)) simp_all
  show "futs_mono (pair_futs w) (resolve (p_finalize_future w)
      (Exception (PairingCancelledError ''cancelled''))
      (resolve (p_search_future w) (Exception (PairingCancelledError ''cancelled'')) (pair_futs w)))"
    using futs_mono_trans[OF futs_mono_resolve futs_mono_resolve] by blast
qed

lemma keeps_cancel [simp]: "keeps w (cancel reason immediate w)"
proof (cases "\<not> p_active w \<and> \<not> immediate")
  case True
  then show ?thesis by (simp add: cancel_def)
next
  case False
  then have v: "pair_view (cancel reason immediate w) =
      (False, None, None, None,
       pair_futs (fail_both (if reason = ''timeout'' then PairingTimeoutError reason
                             else PairingCancelledError reason) w), p_stop_retries w)"
    using cancel_view(1)[of reason immediate w] by auto
  show ?thesis by (rule keeps_terminal[OF v]) (simp_all add: fail_both_done)
qed

lemma keeps_on_timeout [simp]: "keeps w (on_timeout w)" "keeps w (timeout_due w)"
proof -
  show k: "keeps w (on_timeout w)"
  proof (cases "p_active w")
    case False
    then show ?thesis by (simp add: on_timeout_def)
  next
    case True
    then have v: "pair_view (on_timeout w) =
        (False, None, None, None,
         pair_futs (resolve_first (Exception (PairingTimeoutError ''timeout'')) w),
         p_stop_retries w)"
      using on_timeout_view(1)[of w] by simp
    show ?thesis by (rule keeps_terminal[OF v]) (simp_all add: resolve_first_done)
  qed
  have "pair_view (timeout_due w) = pair_view (on_timeout w)" by (rule on_timeout_view)
  then have "keeps (on_timeout w) (timeout_due w)" by (rule keeps_view)
  with k show "keeps w (timeout_due w)" by (rule keeps_trans)
qed

lemma keeps_start_search:
  assumes "start_search flow_id w = Inr (i, w1)"
  shows "keeps w w1"
proof -
  note v = start_search_view[OF assms]
  have fs: "pair_futs w1 = pair_futs w @ [Pending]" "p_search_future w1 = Some (length (pair_futs w))"
    "p_finalize_future w1 = None" "p_active w1" "p_stage w1 = Some await_stop_result"
    using v(1) by (simp_all add: pair_view_def)
  have "futs_ok w1" if ok: "futs_ok w"
  proof -
    have none: "p_search_future w = None" "p_finalize_future w = None"
      using ok v(3) by (simp_all add: futs_ok_iff)
    have "pair_futs w ! k \<noteq> Pending" if "k < length (pair_futs w)" for k
      using futs_ok_cover[OF ok that] none by simp
    then show ?thesis
      by (simp add: futs_ok_iff fs nth_append less_Suc_eq)
  qed
  then show ?thesis by (auto simp: keeps_def fs)
qed

lemma futs_okI:
  assumes "\<And>k. k < length (pair_futs w) \<Longrightarrow>
             pair_futs w ! k \<noteq> Pending \<or> p_search_future w = Some k \<or> p_finalize_future w = Some k"
    and "\<And>i. p_search_future w = Some i \<Longrightarrow> i < length (pair_futs w)"
    and "\<And>j. p_finalize_future w = Some j \<Longrightarrow>
             j < length (pair_futs w) \<and> p_stage w = Some waiting_finalize
             \<and> (\<exists>i. p_search_future w = Some i \<and> pair_futs w ! i \<noteq> Pending)"
    and "if p_active w then p_search_future w \<noteq> None
         else p_search_future w = None \<and> p_finalize_future w = None"
    and "\<And>i. p_stage w = Some await_confirmation \<or> p_stage w = Some waiting_finalize \<Longrightarrow>
             p_search_future w = Some i \<Longrightarrow> pair_futs w ! i \<noteq> Pending"
  shows "futs_ok w"
  unfolding futs_ok_iff using assms by blast

lemma keeps_confirm_candidate:
  assumes "confirm_candidate flow_id w = Inr (i, w1)"
  shows "keeps w w1"
proof -
  note v = confirm_candidate_view[OF assms]
  have fs: "pair_futs w1 = pair_futs w @ [Pending]" "p_search_future w1 = p_search_future w"
    "p_finalize_future w1 = Some (length (pair_futs w))" "p_active w1"
    "p_stage w1 = Some waiting_finalize"
    using v(1) by (simp_all add: pair_view_def)
  have "futs_ok w1" if ok: "futs_ok w"
  proof -
    obtain s where s: "p_search_future w = Some s"
      using ok v(3) by (auto simp: futs_ok_iff)
    have sl: "s < length (pair_futs w)" using futs_ok_search[OF ok s] .
    have sd: "pair_futs w ! s \<noteq> Pending" using ok v(4) s by (simp add: futs_ok_iff)
    have nofin: "p_finalize_future w = None"
    proof (cases "p_finalize_future w")
      case (Some j)
      then show ?thesis using futs_ok_finalize[OF ok Some] v(4) by simp
    qed simp
    have cov: "pair_futs w ! k \<noteq> Pending \<or> s = k" if "k < length (pair_futs w)" for k
      using futs_ok_cover[OF ok that] s nofin by auto
    show ?thesis
    proof (rule futs_okI)
      fix k assume "k < length (pair_futs w1)"
      then have "k < length (pair_futs w) \<or> k = length (pair_futs w)" by (auto simp: fs)
      then show "pair_futs w1 ! k \<noteq> Pending \<or> p_search_future w1 = Some k
          \<or> p_finalize_future w1 = Some k"
        using cov[of k] s by (auto simp: fs nth_append)
    next
      fix i assume "p_search_future w1 = Some i"
      then show "i < length (pair_futs w1)" using s sl by (simp add: fs)
    next
      fix j assume "p_finalize_future w1 = Some j"
      then show "j < length (pair_futs w1) \<and> p_stage w1 = Some waiting_finalize
          \<and> (\<exists>i. p_search_future w1 = Some i \<and> pair_futs w1 ! i \<noteq> Pending)"
        using s sl sd by (auto simp: fs nth_append)
    next
      show "if p_active w1 then p_search_future w1 \<noteq> None
         else p_search_future w1 = None \<and> p_finalize_future w1 = None"
        using s by (simp add: fs)
    next
      fix i assume "p_search_future w1 = Some i"
      then show "pair_futs w1 ! i \<noteq> Pending" using s sl sd by (simp add: fs nth_append)
    qed
  qed
  then show ?thesis by (auto simp: keeps_def fs)
qed

lemma keeps_cong: "pair_view a = pair_view b \<Longrightarrow> keeps w a = keeps w b"
  by (simp add: keeps_def futs_ok_def) (simp add: pair_view_def)

lemma keeps_through [simp]:
  "keeps w (send_if_ready c w') = keeps w w'"
  "keeps w (send_cmd c w') = keeps w w'"
  "keeps w (reset_timeout w') = keeps w w'"
  by (rule keeps_cong, simp)+

lemma futs_ok_no_finalize:
  "futs_ok w \<Longrightarrow> p_stage w \<noteq> Some waiting_finalize \<Longrightarrow> p_finalize_future w = None"
  using futs_ok_finalize[of w] by (cases "p_finalize_future w") auto

lemma keeps_early:
  assumes v: "pair_view w' =
      (p_active w, st', p_search_future w, p_finalize_future w, pair_futs w, r')"
    and old: "p_stage w \<noteq> Some waiting_finalize"
    and new: "st' \<noteq> Some await_confirmation" "st' \<noteq> Some waiting_finalize"
  shows "keeps w w'"
proof -
  have fs: "pair_futs w' = pair_futs w" "p_search_future w' = p_search_future w"
    "p_finalize_future w' = p_finalize_future w" "p_active w' = p_active w" "p_stage w' = st'"
    using v by (simp_all add: pair_view_def)
  have "futs_ok w'" if ok: "futs_ok w"
  proof (rule futs_okI)
    fix k assume "k < length (pair_futs w')"
    then show "pair_futs w' ! k \<noteq> Pending \<or> p_search_future w' = Some k
        \<or> p_finalize_future w' = Some k"
      using futs_ok_cover[OF ok, of k] by (simp add: fs)
  next
    fix i assume "p_search_future w' = Some i"
    then show "i < length (pair_futs w')" using futs_ok_search[OF ok, of i] by (simp add: fs)
  next
    fix j assume "p_finalize_future w' = Some j"
    then show "j < length (pair_futs w') \<and> p_stage w' = Some waiting_finalize
        \<and> (\<exists>i. p_search_future w' = Some i \<and> pair_futs w' ! i \<noteq> Pending)"
      using futs_ok_no_finalize[OF ok old] by (simp add: fs)
  next
    show "if p_active w' then p_search_future w' \<noteq> None
       else p_search_future w' = None \<and> p_finalize_future w' = None"
      using ok by (simp add: fs futs_ok_iff)
  next
    fix i assume "p_stage w' = Some await_confirmation \<or> p_stage w' = Some waiting_finalize"
    then show "pair_futs w' ! i \<noteq> Pending" using new by (simp add: fs)
  qed
  then show ?thesis by (simp add: keeps_def fs)
qed

lemma keeps_candidate:
  assumes v: "pair_view w' =
      (p_active w, Some await_confirmation, p_search_future w, p_finalize_future w,
       resolve (p_search_future w) x (pair_futs w), r')"
    and old: "p_stage w \<noteq> Some waiting_finalize" and x: "x \<noteq> Pending"
  shows "keeps w w'"
proof -
  have fs: "pair_futs w' = resolve (p_search_future w) x (pair_futs w)"
    "p_search_future w' = p_search_future w"
    "p_finalize_future w' = p_finalize_future w" "p_active w' = p_active w"
    "p_stage w' = Some await_confirmation"
    using v by (simp_all add: pair_view_def)
  have "futs_ok w'" if ok: "futs_ok w"
  proof (rule futs_okI)
    fix k assume "k < length (pair_futs w')"
    then show "pair_futs w' ! k \<noteq> Pending \<or> p_search_future w' = Some k
        \<or> p_finalize_future w' = Some k"
      using futs_ok_cover[OF ok, of k] x by (auto simp: fs resolve_nth)
  next
    fix i assume "p_search_future w' = Some i"
    then show "i < length (pair_futs w')" using futs_ok_search[OF ok, of i] by (simp add: fs)
  next
    fix j assume "p_finalize_future w' = Some j"
    then show "j < length (pair_futs w') \<and> p_stage w' = Some waiting_finalize
        \<and> (\<exists>i. p_search_future w' = Some i \<and> pair_futs w' ! i \<noteq> Pending)"
      using futs_ok_no_finalize[OF ok old] by (simp add: fs)
  next
    show "if p_active w' then p_search_future w' \<noteq> None
       else p_search_future w' = None \<and> p_finalize_future w' = None"
      using ok by (simp add: fs futs_ok_iff)
  next
    fix i assume "p_search_future w' = Some i"
    then show "pair_futs w' ! i \<noteq> Pending"
      using futs_ok_search[OF ok, of i] x by (simp add: fs resolve_nth)
  qed
  then show ?thesis by (simp add: keeps_def fs)
qed

lemma keeps_handle_event_line: "keeps w (snd (handle_event_line tokens w))"
proof -
  have cand: "keeps w (reset_timeout (w\<lparr>p_candidate := Some c, p_stage := Some await_confirmation\<rparr>)
      \<lparr>pair_futs := resolve (p_search_future w) (Result (FCandidate (Some c))) (pair_futs w)\<rparr>)"
    if "p_stage w = Some await_device" for c
    by (rule keeps_candidate[where x = "Result (FCandidate (Some c))"])
       (simp_all add: pair_view_def reset_timeout_def that)
  show ?thesis
    using cand
    by (simp add: handle_event_line_def Let_def reset_timeout_def
        split: prod.splits option.splits)
qed

lemma keeps_dispatch_tokens:
  "keeps w (snd (snd (dispatch_tokens tokens current consumed w)))"
proof (induction tokens current consumed w rule: dispatch_tokens.induct)
  case (1 current consumed w)
  then show ?case by simp
next
  case (2 token rest current consumed w)
  show ?case
  proof (cases "upper token = ''EVENT''")
    case True
    show ?thesis
    proof (cases "current = []")
      case True
      with \<open>upper token = ''EVENT''\<close> "2.IH"(2) show ?thesis by simp
    next
      case False
      obtain c w1 where h: "handle_event_line current w = (c, w1)"
        by (cases "handle_event_line current w")
      have k1: "keeps w w1" using keeps_handle_event_line[of w current] h by simp
      have k2: "keeps w1 (snd (snd (dispatch_tokens rest [] (consumed \<or> c) w1)))"
        using "2.IH"(1)[OF True False h[symmetric]] by simp
      show ?thesis using True False h keeps_trans[OF k1 k2] by simp
    qed
  next
    case False
    with "2.IH"(3) show ?thesis by simp
  qed
qed

lemma keeps_handle_event_dispatch: "keeps w (snd (handle_event_dispatch e w))"
proof (cases "''EVENT'' \<notin> set (event_tokens e)")
  case True
  then show ?thesis by (simp add: handle_event_dispatch_def Let_def keeps_handle_event_line)
next
  case False
  obtain cur c w1 where d: "dispatch_tokens (event_tokens e) [] False w = (cur, c, w1)"
    by (cases "dispatch_tokens (event_tokens e) [] False w") auto
  have k1: "keeps w w1" using keeps_dispatch_tokens[of w "event_tokens e" "[]" False] d by simp
  have k2: "keeps w1 (snd (handle_event_line cur w1))" by (rule keeps_handle_event_line)
  show ?thesis
    using False d k1 keeps_trans[OF k1 k2]
    by (simp add: handle_event_dispatch_def Let_def case_prod_unfold)
qed

lemma keeps_handle_result: "keeps w (result_world (handle_result e w))"
proof (cases "p_exit_pending w")
  case True
  have "keeps w (snd (handle_exit_result (event_status e) (event_code e) w))"
    by (rule keeps_view) simp
  with True show ?thesis
    by (simp add: handle_result_def Let_def result_world_def case_prod_unfold)
next
  case False
  show ?thesis
  proof (cases "p_stage w = Some waiting_finalize")
    case True
    with False show ?thesis
      by (simp add: handle_result_def Let_def result_world_def)
  next
    case nf: False
    have e1: "keeps w (w\<lparr>p_stage := Some await_add_result, p_in_engineering := True\<rparr>)"
      by (rule keeps_early[where st' = "Some await_add_result" and r' = "p_stop_retries w"])
         (simp_all add: pair_view_def nf)
    have e2: "keeps w (w\<lparr>p_stop_retries := r, p_stage := Some await_stop_clear\<rparr>)" for r
      by (rule keeps_early[where st' = "Some await_stop_clear" and r' = r])
         (simp_all add: pair_view_def nf)
    have e3: "keeps w (w\<lparr>p_stop_retries := r, p_stage := Some await_stop_result\<rparr>)" for r
      by (rule keeps_early[where st' = "Some await_stop_result" and r' = r])
         (simp_all add: pair_view_def nf)
    have e4: "keeps w (w\<lparr>p_stage := Some await_stop_result\<rparr>)"
      by (rule keeps_early[where st' = "Some await_stop_result" and r' = "p_stop_retries w"])
         (simp_all add: pair_view_def nf)
    have e5: "keeps w (w\<lparr>p_stage := Some await_device\<rparr>)"
      by (rule keeps_early[where st' = "Some await_device" and r' = "p_stop_retries w"])
         (simp_all add: pair_view_def nf)
    note early = e1 e2 e3 e4 e5
    show ?thesis
      using False nf early
      by (simp add: handle_result_def Let_def result_world_def)
  qed
qed

lemma keeps_p_handle_event: "keeps w (result_world (p_handle_event e w))"
proof -
  have x: "keeps w (snd (handle_exit_result (event_status e) (event_code e) w))"
    "keeps w (handle_exit_event e w)"
    by (rule keeps_view, simp)+
  show ?thesis
    using x keeps_handle_result[of w e] keeps_handle_event_dispatch[of w e]
    by (simp add: p_handle_event_def result_world_def case_prod_unfold)
qed

lemma keeps_handle_event:
  "keeps w (case handle_event e w of Inr w1 \<Rightarrow> w1 | Inl (x, w1) \<Rightarrow> w1)"
proof -
  let ?w1 = "snd (d_handle_event e w)"
  let ?w2 = "snd (m_handle_event e ?w1)"
  have k2: "keeps w ?w2" by (rule keeps_view) simp
  have k1: "keeps w ?w1" by (rule keeps_view) simp
  have p: "keeps ?w2 (result_world (p_handle_event e ?w2))" by (rule keeps_p_handle_event)
  have l: "keeps w' (handle_list_entry e w')" "keeps w' (process_list_result e w')"
    "keeps w' (handle_hub_rstate e w')" for w'
    by (rule keeps_view, simp)+
  show ?thesis
  proof (cases "p_handle_event e ?w2")
    case (Inl err)
    then have "keeps w (snd err)"
      using keeps_trans[OF k2 p] by (cases err) (simp add: result_world_def)
    then show ?thesis using k1 k2 Inl
      by (cases err) (simp add: handle_event_alt)
  next
    case (Inr r)
    then have k3: "keeps w (snd r)"
      using keeps_trans[OF k2 p] by (cases r) (simp add: result_world_def)
    then show ?thesis
      using k1 k2 Inr keeps_trans[OF k3 l(1)[of "snd r"]] keeps_trans[OF k3 l(2)[of "snd r"]]
        keeps_trans[OF k3 l(3)[of "snd r"]]
      by (simp add: handle_event_alt)
  qed
qed

lemma keeps_receive_line: "keeps w (receive_line line w)"
  using keeps_handle_event[of w "parse_line (strip line)"]
  by (simp add: receive_line_def Let_def)

lemma keeps_step: "step w w' \<Longrightarrow> keeps w w'"
proof (induction rule: step.induct)
  case (step_line w line)
  show ?case by (rule keeps_receive_line)
next
  case (step_start_search flow_id w i w')
  then show ?case by (rule keeps_start_search)
next
  case (step_confirm flow_id w i w')
  then show ?case by (rule keeps_confirm_candidate)
next
  case (step_delete dev w i w')
  then show ?case using pv_async_delete keeps_view by blast
next
  case (step_set dev command w i w')
  then show ?case using pv_async_set keeps_view by blast
qed (simp_all add: keeps_view)

lemma reachable_futs_ok: "reachable w \<Longrightarrow> futs_ok w"
proof (induction rule: reachable.induct)
  case (reachable_init lm lt rid)
  show ?case
    by (simp add: futs_ok_def pair_view_def start_bridge_def init_world_def)
next
  case (reachable_step w w')
  then show ?case using keeps_step[of w w'] by (simp add: keeps_def)
qed

lemma settlesI:
  assumes "pair_view w' = (False, None, None, None, fs, r)"
    and "length fs = length (pair_futs w)"
    and "\<And>i. i < length (pair_futs w) \<Longrightarrow>
           fs ! i = (if pair_futs w ! i = Pending then v else pair_futs w ! i)"
  shows "settles v w w'"
  using assms by (simp add: settles_def list_all_upt pair_view_def)

lemma settles_futs:
  assumes "settles v w w'"
  shows "pair_futs w' = map (\<lambda>f. if f = Pending then v else f) (pair_futs w)"
    and "\<not> p_active w'"
  using assms by (auto simp: settles_def list_all_upt intro: nth_equalityI)

lemma resolve_both_nth:
  assumes "futs_ok w" "k < length (pair_futs w)"
  shows "resolve (p_search_future w) v (resolve (p_finalize_future w) v (pair_futs w)) ! k
           = (if pair_futs w ! k = Pending then v else pair_futs w ! k)"
    and "resolve (p_finalize_future w) v (resolve (p_search_future w) v (pair_futs w)) ! k
           = (if pair_futs w ! k = Pending then v else pair_futs w ! k)"
  using futs_ok_cover[OF assms] assms(2) by (auto simp: resolve_nth)

lemma resolve_first_nth:
  assumes "futs_ok w" "k < length (pair_futs w)"
  shows "pair_futs (resolve_first v w) ! k
           = (if pair_futs w ! k = Pending then v else pair_futs w ! k)"
proof (cases "fut_pending (pair_futs w) (p_finalize_future w)")
  case True
  then obtain j where j: "p_finalize_future w = Some j" "j < length (pair_futs w)"
    "pair_futs w ! j = Pending"
    by (auto simp: fut_pending_def split: option.splits)
  from futs_ok_finalize[OF assms(1) j(1)] obtain i where
    i: "p_search_future w = Some i" "pair_futs w ! i \<noteq> Pending" by blast
  show ?thesis
    using futs_ok_cover[OF assms] assms(2) True i j by (auto simp: resolve_first_eq resolve_nth)
next
  case False
  have np: "pair_futs w ! j \<noteq> Pending" if "p_finalize_future w = Some j" for j
    using False that futs_ok_finalize[OF assms(1) that] by (simp add: fut_pending_def)
  show ?thesis
    using futs_ok_cover[OF assms] assms(2) False np by (auto simp: resolve_first_eq resolve_nth)
qed

lemma length_resolve_first: "length (pair_futs (resolve_first v w)) = length (pair_futs w)"
  by (simp add: resolve_first_eq)

lemma settles_fail:
  assumes "futs_ok w"
  shows "settles (Exception (PairingError reason)) w (fail reason w)"
  by (rule settlesI[OF terminal_views(1)])
     (simp_all add: fail_both_eq resolve_both_nth(1)[OF assms])

lemma settles_force_cleanup:
  assumes "futs_ok w"
  shows "settles (Exception (PairingCancelledError ''cancelled'')) w (force_cleanup w)"
  by (rule settlesI[OF terminal_views(2)]) (simp_all add: resolve_both_nth(2)[OF assms])

lemma settles_finalize_success:
  assumes "futs_ok w"
  shows "settles (Result (FCandidate (p_candidate w))) w (finalize_success refresh w)"
  by (rule settlesI[OF terminal_views(3)])
     (simp_all add: length_resolve_first resolve_first_nth[OF assms])

lemma settles_cancel:
  assumes "futs_ok w" "p_active w \<or> immediate"
  shows "settles (Exception (if reason = ''timeout'' then PairingTimeoutError reason
                             else PairingCancelledError reason)) w (cancel reason immediate w)"
proof -
  have v: "pair_view (cancel reason immediate w) =
      (False, None, None, None,
       pair_futs (fail_both (if reason = ''timeout'' then PairingTimeoutError reason
                             else PairingCancelledError reason) w), p_stop_retries w)"
    using cancel_view(1)[of reason immediate w] assms(2) by auto
  show ?thesis
    by (rule settlesI[OF v]) (simp_all add: fail_both_eq resolve_both_nth(1)[OF assms(1)])
qed

lemma settles_timeout:
  assumes "futs_ok w" "p_active w"
  shows "settles (Exception (PairingTimeoutError ''timeout'')) w (timeout_due w)"
proof -
  have v: "pair_view (timeout_due w) =
      (False, None, None, None,
       pair_futs (resolve_first (Exception (PairingTimeoutError ''timeout'')) w),
       p_stop_retries w)"
    using on_timeout_view(1,3)[of w] assms(2) by simp
  show ?thesis
    by (rule settlesI[OF v]) (simp_all add: length_resolve_first resolve_first_nth[OF assms(1)])
qed

lemma finalize_results:
  assumes "tag_is e ''RESULT''" "p_active w" "\<not> p_exit_pending w"
    "p_stage w = Some waiting_finalize"
  shows "event_status e = ''OK'' \<Longrightarrow> p_handle_event e w = Inl (TypeError, w)"
    and "event_status e \<noteq> ''OK'' \<Longrightarrow>
           p_handle_event e w = Inr (True, fail ''confirm_failed'' w)"
  using assms by (simp_all add: p_handle_event_def handle_result_def Let_def)

lemma finalize_events:
  assumes "p_stage w = Some waiting_finalize"
    and "parse_event_tokens tokens = (Some device_id, attrs)" "device_id \<noteq> []"
    and "map_option c_device_id (p_candidate w) = Some device_id"
  shows "attr_set attrs ''STR'' \<and> attr_set attrs ''SLT'' \<Longrightarrow>
           handle_event_line tokens w = (True, finalize_success True w)"
    and "\<not> (attr_set attrs ''STR'' \<and> attr_set attrs ''SLT'') \<Longrightarrow>
         map_of attrs ''NEW'' = Some ''1'' \<and> \<not> attr_set attrs ''WFA'' \<Longrightarrow>
           handle_event_line tokens w = (True, finalize_success False w)"
proof -
  have ne: "tokens \<noteq> []" using assms(2) by (auto simp: parse_event_tokens_def)
  show "attr_set attrs ''STR'' \<and> attr_set attrs ''SLT'' \<Longrightarrow>
           handle_event_line tokens w = (True, finalize_success True w)"
    and "\<not> (attr_set attrs ''STR'' \<and> attr_set attrs ''SLT'') \<Longrightarrow>
         map_of attrs ''NEW'' = Some ''1'' \<and> \<not> attr_set attrs ''WFA'' \<Longrightarrow>
           handle_event_line tokens w = (True, finalize_success False w)"
    using assms ne by (auto simp: handle_event_line_def)
qed

text \<open>
  Claim C2. Let \<open>w\<close> be a reachable state. (1) If the pairing session is not active
  in \<open>w\<close> (it has ended, or none has started), every future the pairing coordinator
  ever created, search or finalize, is resolved. (2) No step from \<open>w\<close> changes a
  resolved future: the store of futures only grows and only pending futures change.
  (3) If a session is active in \<open>w\<close>, its timeout timer is armed, so that the
  timer's firing is a step the system can take, and each terminal path ends the session
  and settles its handles: \<open>cancel\<close> with the cancellation error (the timeout error
  for the reason \<open>timeout\<close>), the pairing timer with the timeout error, \<open>fail\<close>
  with the protocol failure, \<open>finalize_success\<close> with the candidate, and the hard
  reset with the cancellation error, where to settle with \<open>v\<close> is to leave the
  session inactive, every handle that was pending holding \<open>v\<close> and every other
  handle as it was.
  (4) In stage \<open>waiting_finalize\<close> an EVENT of the candidate that reports its slot, or
  that reports it new and no longer waiting, is the finalize success; a RESULT whose
  status is not OK is the failure \<open>confirm_failed\<close>; and a RESULT with status OK is no
  terminal path at all: the handler raises TypeError before it sets anything, so the state
  is as it was, the session still active and its finalize handle still pending, to be
  settled by one of the paths of (3). Together: each handle is set exactly once.
\<close>

theorem pairing_handles_resolved_once:
  assumes "reachable w"
  shows "(\<not> p_active w \<longrightarrow> (\<forall>i<length (pair_futs w). pair_futs w ! i \<noteq> Pending))
     \<and> (\<forall>w'. step w w' \<longrightarrow>
           length (pair_futs w) \<le> length (pair_futs w')
           \<and> (\<forall>i<length (pair_futs w).
                 pair_futs w ! i \<noteq> Pending \<longrightarrow> pair_futs w' ! i = pair_futs w ! i))
     \<and> (p_active w \<longrightarrow>
           p_timeout_handle w = Some (Armed ()) \<and> step w (timeout_due w)
         \<and> settles (Exception (if reason = ''timeout'' then PairingTimeoutError reason
                               else PairingCancelledError reason)) w (cancel reason immediate w)
         \<and> settles (Exception (PairingTimeoutError ''timeout'')) w (timeout_due w)
         \<and> settles (Exception (PairingError failure)) w (fail failure w)
         \<and> settles (Result (FCandidate (p_candidate w))) w (finalize_success refresh w)
         \<and> settles (Exception (PairingCancelledError ''cancelled'')) w (force_cleanup w))
     \<and> (p_active w \<and> \<not> p_exit_pending w \<and> p_stage w = Some waiting_finalize \<longrightarrow>
           (parse_event_tokens tokens = (Some device_id, attrs) \<and> device_id \<noteq> []
              \<and> map_option c_device_id (p_candidate w) = Some device_id \<longrightarrow>
              (attr_set attrs ''STR'' \<and> attr_set attrs ''SLT'' \<longrightarrow>
                 handle_event_line tokens w = (True, finalize_success True w))
              \<and> (\<not> (attr_set attrs ''STR'' \<and> attr_set attrs ''SLT'')
                  \<and> map_of attrs ''NEW'' = Some ''1'' \<and> \<not> attr_set attrs ''WFA'' \<longrightarrow>
                 handle_event_line tokens w = (True, finalize_success False w)))
         \<and> (tag_is e ''RESULT'' \<and> event_status e \<noteq> ''OK'' \<longrightarrow>
              p_handle_event e w = Inr (True, fail ''confirm_failed'' w))
         \<and> (tag_is e ''RESULT'' \<and> event_status e = ''OK'' \<longrightarrow>
              p_handle_event e w = Inl (TypeError, w)))"
proof -
  have ok: "futs_ok w" using assms by (rule reachable_futs_ok)
  have resolved: "\<not> p_active w \<longrightarrow> (\<forall>i<length (pair_futs w). pair_futs w ! i \<noteq> Pending)"
  proof (intro impI allI)
    fix i assume na: "\<not> p_active w" and i: "i < length (pair_futs w)"
    have "p_search_future w = None" "p_finalize_future w = None"
      using ok na by (simp_all add: futs_ok_iff)
    then show "pair_futs w ! i \<noteq> Pending" using futs_ok_cover[OF ok i] by simp
  qed
  have mono: "\<forall>w'. step w w' \<longrightarrow>
      length (pair_futs w) \<le> length (pair_futs w')
      \<and> (\<forall>i<length (pair_futs w).
            pair_futs w ! i \<noteq> Pending \<longrightarrow> pair_futs w' ! i = pair_futs w ! i)"
  proof (intro allI impI)
    fix w' assume "step w w'"
    from keeps_step[OF this]
    show "length (pair_futs w) \<le> length (pair_futs w')
      \<and> (\<forall>i<length (pair_futs w).
            pair_futs w ! i \<noteq> Pending \<longrightarrow> pair_futs w' ! i = pair_futs w ! i)"
      by (simp add: keeps_def futs_mono_iff)
  qed
  have terminal: "p_active w \<longrightarrow>
           p_timeout_handle w = Some (Armed ()) \<and> step w (timeout_due w)
         \<and> settles (Exception (if reason = ''timeout'' then PairingTimeoutError reason
                               else PairingCancelledError reason)) w (cancel reason immediate w)
         \<and> settles (Exception (PairingTimeoutError ''timeout'')) w (timeout_due w)
         \<and> settles (Exception (PairingError failure)) w (fail failure w)
         \<and> settles (Result (FCandidate (p_candidate w))) w (finalize_success refresh w)
         \<and> settles (Exception (PairingCancelledError ''cancelled'')) w (force_cleanup w)"
  proof
    assume act: "p_active w"
    from act have ai: "p_active w \<or> immediate" by simp
    have armed: "p_timeout_handle w = Some (Armed ())"
      using reachable_timer_ok[OF assms] act by (simp add: timer_ok_def)
    have due: "step w (timeout_due w)" using armed by (rule step_pair_timeout)
    show "p_timeout_handle w = Some (Armed ()) \<and> step w (timeout_due w)
         \<and> settles (Exception (if reason = ''timeout'' then PairingTimeoutError reason
                               else PairingCancelledError reason)) w (cancel reason immediate w)
         \<and> settles (Exception (PairingTimeoutError ''timeout'')) w (timeout_due w)
         \<and> settles (Exception (PairingError failure)) w (fail failure w)
         \<and> settles (Result (FCandidate (p_candidate w))) w (finalize_success refresh w)
         \<and> settles (Exception (PairingCancelledError ''cancelled'')) w (force_cleanup w)"
      by (intro conjI armed due settles_cancel[OF ok ai] settles_timeout[OF ok act] settles_fail[OF ok]
          settles_finalize_success[OF ok] settles_force_cleanup[OF ok])
  qed
  have finalize: "p_active w \<and> \<not> p_exit_pending w \<and> p_stage w = Some waiting_finalize \<longrightarrow>
           (parse_event_tokens tokens = (Some device_id, attrs) \<and> device_id \<noteq> []
              \<and> map_option c_device_id (p_candidate w) = Some device_id \<longrightarrow>
              (attr_set attrs ''STR'' \<and> attr_set attrs ''SLT'' \<longrightarrow>
                 handle_event_line tokens w = (True, finalize_success True w))
              \<and> (\<not> (attr_set attrs ''STR'' \<and> attr_set attrs ''SLT'')
                  \<and> map_of attrs ''NEW'' = Some ''1'' \<and> \<not> attr_set attrs ''WFA'' \<longrightarrow>
                 handle_event_line tokens w = (True, finalize_success False w)))
         \<and> (tag_is e ''RESULT'' \<and> event_status e \<noteq> ''OK'' \<longrightarrow>
              p_handle_event e w = Inr (True, fail ''confirm_failed'' w))
         \<and> (tag_is e ''RESULT'' \<and> event_status e = ''OK'' \<longrightarrow>
              p_handle_event e w = Inl (TypeError, w))"
    using finalize_events[of w tokens device_id attrs] finalize_results[of e w]
    by blast
  show ?thesis by (intro conjI resolved mono terminal finalize)
qed
lemma receive_line_pairing:
  assumes "strip line \<noteq> []" "d_future w = None" "m_future w = None"
    and "p_handle_event (parse_line (strip line)) w = Inr (True, w')"
  shows "receive_line line w = w'"
  using assms
  by (simp add: receive_line_def handle_event_alt d_handle_event_def m_handle_event_def Let_def)

lemma sample_lines:
  "strip ''RESULT;OK;0'' = ''RESULT;OK;0''"
  "strip ''EVENT;ab12ce;NEW=1;WFA=1;TYP=5'' = ''EVENT;ab12ce;NEW=1;WFA=1;TYP=5''"
  "strip ''EVENT;ab12ce;NEW=1'' = ''EVENT;ab12ce;NEW=1''"
  "tag_is (parse_line ''EVENT;ab12ce;NEW=1;WFA=1;TYP=5'') ''EVENT''"
  "\<not> tag_is (parse_line ''EVENT;ab12ce;NEW=1;WFA=1;TYP=5'') ''RESULT''"
  "event_tokens (parse_line ''EVENT;ab12ce;NEW=1;WFA=1;TYP=5'') = [''ab12ce'', ''NEW=1'', ''WFA=1'', ''TYP=5'']"
  "tag_is (parse_line ''EVENT;ab12ce;NEW=1'') ''EVENT''"
  "\<not> tag_is (parse_line ''EVENT;ab12ce;NEW=1'') ''RESULT''"
  "event_tokens (parse_line ''EVENT;ab12ce;NEW=1'') = [''ab12ce'', ''NEW=1'']"
  by (simp_all add: tag_is_def event_tokens_def parse_defs str_defs)

lemma sample_tokens:
  "parse_event_tokens [''ab12ce'', ''NEW=1'', ''WFA=1'', ''TYP=5''] =
     (Some ''AB12CE'', [(''NEW'', ''1''), (''WFA'', ''1''), (''TYP'', ''5'')])"
  "parse_event_tokens [''ab12ce'', ''NEW=1''] = (Some ''AB12CE'', [(''NEW'', ''1'')])"
  by (simp_all add: parse_event_tokens_def split_once_def str_defs)

lemma receive_line_idle:
  assumes "strip line \<noteq> []" "d_future w = None" "m_future w = None" "\<not> list_active w"
    and "\<not> tag_is (parse_line (strip line)) ''LIST''"
    and "\<not> tag_is (parse_line (strip line)) ''RSTATE''"
  shows "receive_line line w = result_world (p_handle_event (parse_line (strip line)) w)"
proof (cases "p_handle_event (parse_line (strip line)) w")
  case (Inl err)
  then show ?thesis using assms
    by (cases err)
       (simp add: receive_line_def handle_event_alt d_handle_event_def m_handle_event_def
          Let_def result_world_def)
next
  case (Inr r)
  have "list_active (snd r) = list_active w"
  proof -
    have "list_active (result_world (p_handle_event e w')) = list_active w'" for e w'
    proof (cases "p_handle_event e w'")
      case (Inl a)
      then show ?thesis
        by (cases a)
           (auto simp: p_handle_event_def handle_result_def Let_def result_world_def
              split: if_splits)
    next
      case (Inr b)
      have la: "list_active (cleanup x y v) = list_active v" for x y v
        by (simp add: cleanup_def Let_def send_exit_command_def cancel_exit_command_def)
      have lf: "list_active (fail x v) = list_active v" for x v
        by (simp add: fail_def la fail_both_eq)
      have ls: "list_active (finalize_success x v) = list_active v" for x v
        by (simp add: finalize_success_def Let_def la resolve_first_eq)
      have ll: "list_active (snd (handle_event_line t v)) = list_active v" for t v
        by (simp add: handle_event_line_def Let_def ls reset_timeout_def
            split: prod.splits option.splits)
      have ld: "list_active (snd (snd (dispatch_tokens t c k v))) = list_active v" for t c k v
      proof (induction t c k v rule: dispatch_tokens.induct)
        case (1 current consumed w)
        then show ?case by simp
      next
        case (2 token rest current consumed w)
        then show ?case using ll[of current w]
          by (auto simp: case_prod_unfold)
      qed
      have le: "list_active (snd (handle_event_dispatch e v)) = list_active v" for v
        using ld[of "event_tokens e" "[]" False v] ll
        by (simp add: handle_event_dispatch_def Let_def case_prod_unfold)
      have lx: "list_active (snd (handle_exit_result s c v)) = list_active v"
        "list_active (handle_exit_event e v) = list_active v" for s c v
        by (simp_all add: handle_exit_result_def handle_exit_event_def send_exit_command_def
            cancel_exit_command_def restart_wrk_fallback_timer_def complete_exit_success_def
            split: list.splits)
      have lr: "list_active (result_world (handle_result e v)) = list_active v" for v
        by (simp add: handle_result_def Let_def result_world_def lf lx case_prod_unfold
            send_if_ready_def send_cmd_def reset_timeout_def)
      show ?thesis
        using lr[of w'] le[of w'] lx
        by (simp add: p_handle_event_def result_world_def case_prod_unfold)
    qed
    from this[of "parse_line (strip line)" w] Inr show ?thesis
      by (cases r) (simp add: result_world_def)
  qed
  then show ?thesis using assms Inr
    by (cases r)
       (simp add: receive_line_def handle_event_alt d_handle_event_def m_handle_event_def
          Let_def result_world_def)
qed

lemma sample_ok_line:
  "tag_is (parse_line ''RESULT;OK;0'') ''RESULT''"
  "\<not> tag_is (parse_line ''RESULT;OK;0'') ''EVENT''"
  "\<not> tag_is (parse_line ''RESULT;OK;0'') ''LIST''"
  "\<not> tag_is (parse_line ''RESULT;OK;0'') ''RSTATE''"
  "event_status (parse_line ''RESULT;OK;0'') = ''OK''"
  "event_code (parse_line ''RESULT;OK;0'') = ''0''"
  "\<not> tag_is (parse_line ''EVENT;ab12ce;NEW=1;WFA=1;TYP=5'') ''LIST''"
  "\<not> tag_is (parse_line ''EVENT;ab12ce;NEW=1;WFA=1;TYP=5'') ''RSTATE''"
  "\<not> tag_is (parse_line ''EVENT;ab12ce;NEW=1'') ''LIST''"
  "\<not> tag_is (parse_line ''EVENT;ab12ce;NEW=1'') ''RSTATE''"
  by (simp_all add: tag_is_def event_status_def event_code_def get_or_empty_def parse_defs
      str_defs)

lemma pair_demo_0_fields:
  "protocol pair_demo_0" "\<not> list_active pair_demo_0" "d_future pair_demo_0 = None"
  "m_future pair_demo_0 = None" "\<not> p_active pair_demo_0" "\<not> p_exit_pending pair_demo_0"
  "pair_futs pair_demo_0 = []" "lib_model pair_demo_0 = Map.empty"
  by (simp_all add: pair_demo_0_def start_bridge_def init_world_def)

lemma pair_demo_1_start: "start_search ''flow-1'' pair_demo_0 = Inr (0, pair_demo_1)"
  by (simp add: pair_demo_1_def after_start_def start_search_def pair_demo_0_fields Let_def
      cancel_exit_command_def reset_timeout_def send_cmd_def)

lemma pair_demo_1_fields:
  "protocol pair_demo_1" "\<not> list_active pair_demo_1" "d_future pair_demo_1 = None"
  "m_future pair_demo_1 = None" "p_active pair_demo_1" "\<not> p_exit_pending pair_demo_1"
  "pair_futs pair_demo_1 = [Pending]" "lib_model pair_demo_1 = Map.empty"
  "p_stage pair_demo_1 = Some await_stop_result" "p_search_future pair_demo_1 = Some 0"
  "p_finalize_future pair_demo_1 = None" "p_flow_id pair_demo_1 = Some ''flow-1''"
  "p_requested_stop pair_demo_1"
proof -
  have eq: "pair_demo_1 = pair_demo_0\<lparr>p_exit_timeout_handle := None, p_exit_command_handle := None,
              p_exit_pending := False, p_exit_stage := None,
              p_active := True, p_flow_id := Some ''flow-1'',
              p_stage := Some await_stop_result, p_candidate := None,
              p_finalize_future := None, p_search_future := Some (length (pair_futs pair_demo_0)),
              pair_futs := pair_futs pair_demo_0 @ [Pending],
              p_in_engineering := False, p_stop_retries := 0,
              p_timeout_handle := Some (Armed ()), sent := sent pair_demo_0 @ [''stop''],
              p_requested_stop := True\<rparr>"
    using start_search_started[OF pair_demo_1_start] by blast
  show "protocol pair_demo_1" "\<not> list_active pair_demo_1" "d_future pair_demo_1 = None"
    "m_future pair_demo_1 = None" "p_active pair_demo_1" "\<not> p_exit_pending pair_demo_1"
    "pair_futs pair_demo_1 = [Pending]" "lib_model pair_demo_1 = Map.empty"
    "p_stage pair_demo_1 = Some await_stop_result" "p_search_future pair_demo_1 = Some 0"
    "p_finalize_future pair_demo_1 = None" "p_flow_id pair_demo_1 = Some ''flow-1''"
    "p_requested_stop pair_demo_1"
    by (simp_all add: eq pair_demo_0_fields)
qed

lemma pair_demo_2_fields:
  "protocol pair_demo_2" "\<not> list_active pair_demo_2" "d_future pair_demo_2 = None"
  "m_future pair_demo_2 = None" "p_active pair_demo_2" "\<not> p_exit_pending pair_demo_2"
  "pair_futs pair_demo_2 = [Pending]" "lib_model pair_demo_2 = Map.empty"
  "p_stage pair_demo_2 = Some await_add_result" "p_search_future pair_demo_2 = Some 0"
  "p_finalize_future pair_demo_2 = None" "p_flow_id pair_demo_2 = Some ''flow-1''"
  "p_requested_stop pair_demo_2"
  by (simp_all add: pair_demo_2_def receive_line_idle sample_lines sample_ok_line
      pair_demo_1_fields p_handle_event_def handle_result_def Let_def result_world_def
      ok_code_def reset_timeout_def send_if_ready_def send_cmd_def)

lemma pair_demo_3_fields:
  "protocol pair_demo_3" "\<not> list_active pair_demo_3" "d_future pair_demo_3 = None"
  "m_future pair_demo_3 = None" "p_active pair_demo_3" "\<not> p_exit_pending pair_demo_3"
  "pair_futs pair_demo_3 = [Pending]" "lib_model pair_demo_3 = Map.empty"
  "p_stage pair_demo_3 = Some await_device" "p_search_future pair_demo_3 = Some 0"
  "p_finalize_future pair_demo_3 = None" "p_flow_id pair_demo_3 = Some ''flow-1''"
  "p_requested_stop pair_demo_3"
  by (simp_all add: pair_demo_3_def receive_line_idle sample_lines sample_ok_line
      pair_demo_2_fields p_handle_event_def handle_result_def Let_def result_world_def
      ok_code_def reset_timeout_def send_if_ready_def send_cmd_def)

lemma pair_demo_4_fields:
  "protocol pair_demo_4" "\<not> list_active pair_demo_4" "d_future pair_demo_4 = None"
  "m_future pair_demo_4 = None" "p_active pair_demo_4" "\<not> p_exit_pending pair_demo_4"
  "pair_futs pair_demo_4 = [Result (FCandidate (Some demo_candidate))]"
  "lib_model pair_demo_4 = Map.empty"
  "p_stage pair_demo_4 = Some await_confirmation" "p_search_future pair_demo_4 = Some 0"
  "p_finalize_future pair_demo_4 = None" "p_flow_id pair_demo_4 = Some ''flow-1''"
  "p_requested_stop pair_demo_4" "p_candidate pair_demo_4 = Some demo_candidate"
  by (simp_all add: pair_demo_4_def receive_line_idle sample_lines sample_ok_line
      pair_demo_3_fields p_handle_event_def handle_event_dispatch_def handle_event_line_def
      sample_tokens Let_def result_world_def reset_timeout_def attr_set_def
      build_candidate_details_def device_model_def resolve_def fut_pending_def
      demo_candidate_def)

lemma pair_demo_5_confirm: "confirm_candidate ''flow-1'' pair_demo_4 = Inr (1, pair_demo_5)"
  by (simp add: pair_demo_5_def after_start_def confirm_candidate_def pair_demo_4_fields Let_def)

lemma pair_demo_5_fields:
  "protocol pair_demo_5" "\<not> list_active pair_demo_5" "d_future pair_demo_5 = None"
  "m_future pair_demo_5 = None" "p_active pair_demo_5" "\<not> p_exit_pending pair_demo_5"
  "pair_futs pair_demo_5 = [Result (FCandidate (Some demo_candidate)), Pending]"
  "p_stage pair_demo_5 = Some waiting_finalize" "p_search_future pair_demo_5 = Some 0"
  "p_finalize_future pair_demo_5 = Some 1"
  "p_requested_stop pair_demo_5" "p_candidate pair_demo_5 = Some demo_candidate"
  by (simp_all add: pair_demo_5_def after_start_def confirm_candidate_def pair_demo_4_fields
      Let_def reset_timeout_def send_cmd_def)

lemma pair_demo_6_fields:
  "\<not> p_active pair_demo_6"
  "pair_futs pair_demo_6 =
     [Result (FCandidate (Some demo_candidate)), Result (FCandidate (Some demo_candidate))]"
proof -
  have c: "c_device_id demo_candidate = ''AB12CE''" by (simp add: demo_candidate_def)
  have eq: "pair_demo_6 = finalize_success False pair_demo_5"
    by (simp add: pair_demo_6_def receive_line_idle sample_lines sample_ok_line
        pair_demo_5_fields p_handle_event_def handle_event_dispatch_def handle_event_line_def
        sample_tokens Let_def result_world_def attr_set_def c)
  have v: "pair_view pair_demo_6 =
      (False, None, None, None,
       pair_futs (resolve_first (Result (FCandidate (p_candidate pair_demo_5))) pair_demo_5),
       p_stop_retries pair_demo_5)"
    unfolding eq by (rule terminal_views)
  have f: "pair_futs (resolve_first (Result (FCandidate (p_candidate pair_demo_5))) pair_demo_5)
      = [Result (FCandidate (Some demo_candidate)), Result (FCandidate (Some demo_candidate))]"
    by (simp add: resolve_first_eq pair_demo_5_fields resolve_def fut_pending_def)
  show "\<not> p_active pair_demo_6"
    "pair_futs pair_demo_6 =
     [Result (FCandidate (Some demo_candidate)), Result (FCandidate (Some demo_candidate))]"
    using v f by (simp_all add: pair_view_def)
qed

lemma pair_demo_6_eq: "pair_demo_6 = finalize_success False pair_demo_5"
proof -
  have c: "c_device_id demo_candidate = ''AB12CE''" by (simp add: demo_candidate_def)
  show ?thesis
    by (simp add: pair_demo_6_def receive_line_idle sample_lines sample_ok_line
        pair_demo_5_fields p_handle_event_def handle_event_dispatch_def handle_event_line_def
        sample_tokens Let_def result_world_def attr_set_def c)
qed

lemma pair_demo_reachable:
  "reachable pair_demo_1" "reachable pair_demo_5" "reachable pair_demo_6"
proof -
  have "reachable pair_demo_0" unfolding pair_demo_0_def by (rule reachable_init)
  then show r1: "reachable pair_demo_1"
    using step_start_search[OF pair_demo_1_start] by (rule reachable_step)
  then have "reachable pair_demo_2"
    unfolding pair_demo_2_def using step_line by (rule reachable_step)
  then have "reachable pair_demo_3"
    unfolding pair_demo_3_def using step_line by (rule reachable_step)
  then have "reachable pair_demo_4"
    unfolding pair_demo_4_def using step_line by (rule reachable_step)
  then show r5: "reachable pair_demo_5"
    using step_confirm[OF pair_demo_5_confirm] by (rule reachable_step)
  then show "reachable pair_demo_6"
    unfolding pair_demo_6_def using step_line by (rule reachable_step)
qed

lemma sample_result_lines:
  "strip ''RESULT;NAK;1'' = ''RESULT;NAK;1''"
  "tag_is (parse_line ''RESULT;NAK;1'') ''RESULT''"
  "\<not> tag_is (parse_line ''RESULT;NAK;1'') ''LIST''"
  "\<not> tag_is (parse_line ''RESULT;NAK;1'') ''RSTATE''"
  "event_status (parse_line ''RESULT;NAK;1'') = ''NAK''"
  by (simp_all add: tag_is_def event_status_def get_or_empty_def parse_defs str_defs)

text \<open>
  The pairing of \<open>pair_demo_0\<close> to \<open>pair_demo_6\<close>. In \<open>pair_demo_1\<close> the search
  handle is pending: a cancel fails it with the cancellation error, the timer with the
  timeout error. In \<open>pair_demo_5\<close> the search handle holds the candidate and the
  finalize handle is pending, with the timer armed: a cancel, the timer and the line
  \<open>RESULT;NAK;1\<close> each end the session and fail the finalize handle with their own
  error, leaving the search handle alone; the line \<open>RESULT;OK;0\<close> changes nothing
  (the TypeError is swallowed by the transport); and the EVENT line that leads to
  \<open>pair_demo_6\<close> is the finalize success: both handles hold the candidate, and a
  later hard reset changes neither.
\<close>

theorem pairing_handles_resolved_once_witness:
  "reachable pair_demo_1 \<and> p_active pair_demo_1 \<and> pair_futs pair_demo_1 = [Pending]
   \<and> pair_futs (cancel ''cancelled'' False pair_demo_1)
       = [Exception (PairingCancelledError ''cancelled'')]
   \<and> \<not> p_active (cancel ''cancelled'' False pair_demo_1)
   \<and> pair_futs (timeout_due pair_demo_1) = [Exception (PairingTimeoutError ''timeout'')]
   \<and> reachable pair_demo_5 \<and> p_active pair_demo_5 \<and> \<not> p_exit_pending pair_demo_5
   \<and> p_stage pair_demo_5 = Some waiting_finalize
   \<and> pair_futs pair_demo_5 = [Result (FCandidate (Some demo_candidate)), Pending]
   \<and> p_timeout_handle pair_demo_5 = Some (Armed ())
   \<and> pair_futs (cancel ''user_stop'' False pair_demo_5)
       = [Result (FCandidate (Some demo_candidate)), Exception (PairingCancelledError ''user_stop'')]
   \<and> pair_futs (timeout_due pair_demo_5)
       = [Result (FCandidate (Some demo_candidate)), Exception (PairingTimeoutError ''timeout'')]
   \<and> \<not> p_active (timeout_due pair_demo_5)
   \<and> receive_line ''RESULT;NAK;1'' pair_demo_5 = fail ''confirm_failed'' pair_demo_5
   \<and> pair_futs (fail ''confirm_failed'' pair_demo_5)
       = [Result (FCandidate (Some demo_candidate)), Exception (PairingError ''confirm_failed'')]
   \<and> \<not> p_active (fail ''confirm_failed'' pair_demo_5)
   \<and> receive_line ''RESULT;OK;0'' pair_demo_5 = pair_demo_5
   \<and> handle_event_line [''ab12ce'', ''NEW=1''] pair_demo_5
       = (True, finalize_success False pair_demo_5)
   \<and> pair_demo_6 = finalize_success False pair_demo_5
   \<and> \<not> p_active pair_demo_6
   \<and> pair_futs pair_demo_6 =
       [Result (FCandidate (Some demo_candidate)), Result (FCandidate (Some demo_candidate))]
   \<and> reachable pair_demo_6 \<and> step pair_demo_6 (force_cleanup pair_demo_6)
   \<and> pair_futs (force_cleanup pair_demo_6) = pair_futs pair_demo_6"
proof -
  note r = pair_demo_reachable
  note f1 = pair_demo_1_fields
  note f5 = pair_demo_5_fields
  have cand: "map_option c_device_id (p_candidate pair_demo_5) = Some ''AB12CE''"
    by (simp add: f5 demo_candidate_def)
  have attrs: "\<not> (attr_set [(''NEW'', ''1'')] ''STR'' \<and> attr_set [(''NEW'', ''1'')] ''SLT'')
      \<and> map_of [(''NEW'', ''1'')] ''NEW'' = Some ''1'' \<and> \<not> attr_set [(''NEW'', ''1'')] ''WFA''"
    by (simp add: attr_set_def)
  note t1 = pairing_handles_resolved_once[OF r(1), where reason = "''cancelled''"
      and immediate = False and failure = "''x''" and refresh = False and tokens = "[]"
      and device_id = "[]" and attrs = "[]" and e = Map.empty]
  note a1 = t1[THEN conjunct2, THEN conjunct2, THEN conjunct1, THEN mp, OF f1(5)]
  have c1: "settles (Exception (PairingCancelledError ''cancelled'')) pair_demo_1
      (cancel ''cancelled'' False pair_demo_1)"
    using a1[THEN conjunct2, THEN conjunct2, THEN conjunct1] by simp
  note o1 = a1[THEN conjunct2, THEN conjunct2, THEN conjunct2, THEN conjunct1]
  note t5 = pairing_handles_resolved_once[OF r(2), where reason = "''user_stop''"
      and immediate = False and failure = "''confirm_failed''" and refresh = False
      and tokens = "[''ab12ce'', ''NEW=1'']" and device_id = "''AB12CE''"
      and attrs = "[(''NEW'', ''1'')]" and e = "parse_line ''RESULT;NAK;1''"]
  note a5 = t5[THEN conjunct2, THEN conjunct2, THEN conjunct1, THEN mp, OF f5(5)]
  have armed: "p_timeout_handle pair_demo_5 = Some (Armed ())" by (rule a5[THEN conjunct1])
  have c5: "settles (Exception (PairingCancelledError ''user_stop'')) pair_demo_5
      (cancel ''user_stop'' False pair_demo_5)"
    using a5[THEN conjunct2, THEN conjunct2, THEN conjunct1] by simp
  note o5 = a5[THEN conjunct2, THEN conjunct2, THEN conjunct2, THEN conjunct1]
  note x5 = a5[THEN conjunct2, THEN conjunct2, THEN conjunct2, THEN conjunct2, THEN conjunct1]
  have wf: "p_active pair_demo_5 \<and> \<not> p_exit_pending pair_demo_5
      \<and> p_stage pair_demo_5 = Some waiting_finalize"
    by (simp add: f5)
  note b5 = t5[THEN conjunct2, THEN conjunct2, THEN conjunct2, THEN mp, OF wf]
  have ev: "handle_event_line [''ab12ce'', ''NEW=1''] pair_demo_5
      = (True, finalize_success False pair_demo_5)"
    using b5[THEN conjunct1] sample_tokens(2) cand attrs by simp
  have nak: "p_handle_event (parse_line ''RESULT;NAK;1'') pair_demo_5
      = Inr (True, fail ''confirm_failed'' pair_demo_5)"
    using b5[THEN conjunct2, THEN conjunct1] sample_result_lines by simp
  note t5ok = pairing_handles_resolved_once[OF r(2), where reason = "''user_stop''"
      and immediate = False and failure = "''confirm_failed''" and refresh = False
      and tokens = "[''ab12ce'', ''NEW=1'']" and device_id = "''AB12CE''"
      and attrs = "[(''NEW'', ''1'')]" and e = "parse_line ''RESULT;OK;0''"]
  have okr: "p_handle_event (parse_line ''RESULT;OK;0'') pair_demo_5
      = Inl (TypeError, pair_demo_5)"
    using t5ok[THEN conjunct2, THEN conjunct2, THEN conjunct2, THEN mp, OF wf, THEN conjunct2,
        THEN conjunct2] sample_ok_line
    by simp
  have idle: "d_future pair_demo_5 = None" "m_future pair_demo_5 = None"
    "\<not> list_active pair_demo_5"
    by (simp_all add: f5)
  have line_nak: "receive_line ''RESULT;NAK;1'' pair_demo_5 = fail ''confirm_failed'' pair_demo_5"
    by (simp add: receive_line_idle idle sample_result_lines nak result_world_def)
  have line_ok: "receive_line ''RESULT;OK;0'' pair_demo_5 = pair_demo_5"
    by (simp add: receive_line_idle idle sample_lines sample_ok_line okr result_world_def)
  note t6 = pairing_handles_resolved_once[OF r(3), where reason = "''x''"
      and immediate = False and failure = "''x''" and refresh = False and tokens = "[]"
      and device_id = "[]" and attrs = "[]" and e = Map.empty]
  have "length (pair_futs pair_demo_6) \<le> length (pair_futs (force_cleanup pair_demo_6))
       \<and> (\<forall>i<length (pair_futs pair_demo_6).
            pair_futs pair_demo_6 ! i \<noteq> Pending \<longrightarrow>
            pair_futs (force_cleanup pair_demo_6) ! i = pair_futs pair_demo_6 ! i)"
    using t6[THEN conjunct2, THEN conjunct1, THEN spec, of "force_cleanup pair_demo_6"]
      step_force_cleanup[of pair_demo_6]
    by (rule mp)
  moreover have "\<forall>i<length (pair_futs pair_demo_6). pair_futs pair_demo_6 ! i \<noteq> Pending"
    using t6[THEN conjunct1] pair_demo_6_fields(1) by (rule mp)
  ultimately have same: "pair_futs (force_cleanup pair_demo_6) = pair_futs pair_demo_6"
    by (intro nth_equalityI) (simp_all add: force_cleanup_def Let_def)
  show ?thesis
    using r f1(5,7) f5(5,6,7,8) armed line_nak line_ok ev pair_demo_6_eq pair_demo_6_fields same
      step_force_cleanup[of pair_demo_6]
      settles_futs[OF c1] settles_futs[OF o1] settles_futs[OF c5] settles_futs[OF o5]
      settles_futs[OF x5]
    by simp
qed
end
